(* ===== verification/Prelude.thy ===== *)
theory Prelude
  imports Main "HOL-Library.Word" "HOL-Library.AList" "HOL-Library.Multiset"
    "HOL-Library.Char_ord" "HOL-Library.List_Lexorder"
begin

text \<open>
  Shared vocabulary of the development: the machine integers of the Go sources, Go maps as
  association lists with distinct keys, \<open>time.Time\<close> values at second precision, and the
  list, option and word lemmas that the component theories use.
\<close>

section \<open>Machine integers, bytes and time\<close>

type_synonym u8 = "8 word"
type_synonym u16 = "16 word"
type_synonym u32 = "32 word"
type_synonym u64 = "64 word"

text \<open>An \<open>int64\<close> is the same 64 bits, read with \<open>sint\<close> and compared with \<open><s\<close>.\<close>

type_synonym i64 = "64 word"
type_synonym i32 = "32 word"
type_synonym bytes = "8 word list"

text \<open>
  The sources only build instants with \<open>time.Unix(sec, 0)\<close> and read them with \<open>Unix()\<close> and
  \<open>IsZero()\<close>, so a \<open>time.Time\<close> is its 64-bit count of seconds since 1970. The zero value of
  \<open>time.Time\<close> is January 1 of year 1, which is this many seconds before 1970.
\<close>

type_synonym gotime = "64 word"

definition time_zero :: gotime where
  "time_zero = - 62135596800"

definition time_IsZero :: "gotime \<Rightarrow> bool" where
  "time_IsZero t \<longleftrightarrow> t = time_zero"

named_theorems word_conv \<open>rules that move 64-bit word facts to integers\<close>
named_theorems go_map_simps \<open>lookup laws of Go maps\<close>

section \<open>Go maps\<close>

text \<open>
  A Go map is an association list with distinct keys. Lookup, assignment and deletion do not
  depend on the order of the list; a \<open>range\<close> loop visits the entries in an order the language
  leaves open, so every loop whose result could depend on it takes the visiting order as an
  argument of its own.
\<close>

type_synonym ('k, 'v) gomap = "('k \<times> 'v) list"

definition map_get :: "('k, 'v) gomap \<Rightarrow> 'k \<Rightarrow> 'v option" where
  "map_get m k = map_of m k"

definition map_set :: "'k \<Rightarrow> 'v \<Rightarrow> ('k, 'v) gomap \<Rightarrow> ('k, 'v) gomap" where
  "map_set k v m = AList.update k v m"

definition map_del :: "'k \<Rightarrow> ('k, 'v) gomap \<Rightarrow> ('k, 'v) gomap" where
  "map_del k m = AList.delete k m"

definition map_ok :: "('k, 'v) gomap \<Rightarrow> bool" where
  "map_ok m \<longleftrightarrow> distinct (map fst m)"

text \<open>The interface every component relies on when it keeps a map in its state.\<close>

locale go_map =
  fixes empty :: "'m" and get :: "'m \<Rightarrow> 'k \<Rightarrow> 'v option"
    and put :: "'k \<Rightarrow> 'v \<Rightarrow> 'm \<Rightarrow> 'm" and del :: "'k \<Rightarrow> 'm \<Rightarrow> 'm" and ok :: "'m \<Rightarrow> bool"
  assumes get_empty: "get empty k = None"
    and get_put: "get (put k v m) j = (if j = k then Some v else get m j)"
    and get_del: "get (del k m) j = (if j = k then None else get m j)"
    and ok_empty: "ok empty"
    and ok_put: "ok m \<Longrightarrow> ok (put k v m)"
    and ok_del: "ok m \<Longrightarrow> ok (del k m)"
begin

lemma get_put_same: "get (put k v m) k = Some v"
  by (simp add: get_put)

lemma get_put_other: "j \<noteq> k \<Longrightarrow> get (put k v m) j = get m j"
  by (simp add: get_put)

lemma get_fold_put:
  "get (fold (\<lambda>k. put k v) ks m) j = (if j \<in> set ks then Some v else get m j)"
  by (induction ks arbitrary: m) (auto simp: get_put)

lemma ok_fold_put: "ok m \<Longrightarrow> ok (fold (\<lambda>k. put k v) ks m)"
  by (induction ks arbitrary: m) (auto simp: ok_put)

end

interpretation gm: go_map "[] :: ('k, 'v) gomap" map_get map_set map_del map_ok
  by unfold_locales
    (auto simp: map_get_def map_set_def map_del_def map_ok_def update_conv' delete_conv'
      distinct_update distinct_delete)

lemma map_del_absent: "map_get m k = None \<Longrightarrow> map_del k m = m"
  unfolding map_get_def map_del_def by (simp add: delete_id map_of_eq_None_iff)

lemmas [simp, go_map_simps] = gm.get_empty gm.get_put gm.get_del
lemmas [simp, intro] = gm.ok_empty gm.ok_put gm.ok_del

lemma map_get_Some_mem: "map_get m k = Some v \<Longrightarrow> (k, v) \<in> set m"
  by (simp add: map_get_def map_of_SomeD)

lemma map_get_iff: "map_ok m \<Longrightarrow> map_get m k = Some v \<longleftrightarrow> (k, v) \<in> set m"
  by (simp add: map_get_def map_ok_def)

section \<open>Lists and options\<close>

definition slice :: "nat \<Rightarrow> nat \<Rightarrow> 'a list \<Rightarrow> 'a list" where
  "slice i j xs = take (j - i) (drop i xs)"

lemma length_slice [simp]: "j \<le> length xs \<Longrightarrow> length (slice i j xs) = j - i"
  by (simp add: slice_def)

lemma slice_append_right: "length xs \<le> i \<Longrightarrow> slice i j (xs @ ys) = slice (i - length xs) (j - length xs) ys"
  by (cases "j \<le> i") (auto simp: slice_def)

lemma slice_append_left: "i = 0 \<Longrightarrow> j = length xs \<Longrightarrow> slice i j (xs @ ys) = xs"
  by (simp add: slice_def)

text \<open>Go's \<open>for\<close> loop that returns at the first error: later elements are not visited.\<close>

fun first_err :: "('s \<Rightarrow> 'a \<Rightarrow> 's \<times> 'e option) \<Rightarrow> 's \<Rightarrow> 'a list \<Rightarrow> 's \<times> 'e option" where
  "first_err f s [] = (s, None)"
| "first_err f s (x # xs) =
     (case f s x of (s', Some e) \<Rightarrow> (s', Some e) | (s', None) \<Rightarrow> first_err f s' xs)"

lemma first_err_append:
  "first_err f s (xs @ ys) =
     (case first_err f s xs of (s', Some e) \<Rightarrow> (s', Some e) | (s', None) \<Rightarrow> first_err f s' ys)"
  by (induction xs arbitrary: s) (auto split: prod.splits option.splits)

text \<open>An invariant each iteration keeps, whether it fails or not, holds after the loop.\<close>

lemma first_err_inv:
  assumes "I s" and "\<And>s x. x \<in> set xs \<Longrightarrow> I s \<Longrightarrow> I (fst (f s x))"
  shows "I (fst (first_err f s xs))"
  using assms
proof (induction xs arbitrary: s)
  case (Cons x xs)
  then have "I (fst (f s x))" by simp
  with Cons show ?case by (cases "f s x") (auto split: option.splits)
qed simp

text \<open>A loop that stops at the first error and logs one row per iteration logs a prefix of its rows.\<close>

lemma first_err_rows:
  assumes "I s" and inv: "\<And>s x. I s \<Longrightarrow> I (fst (f s x))" and row: "\<And>s x. I s \<Longrightarrow> rows (fst (f s x)) = rows s @ [r x]"
  obtains n where "n \<le> length xs" and "rows (fst (first_err f s xs)) = rows s @ map r (take n xs)"
    and "snd (first_err f s xs) = None \<longrightarrow> n = length xs"
  using \<open>I s\<close>
proof (induction xs arbitrary: s thesis)
  case (Cons x xs)
  show ?case
  proof (cases "f s x")
    case (Pair s' e)
    have s': "I s'" "rows s' = rows s @ [r x]"
      using inv [OF Cons.prems(2)] row [OF Cons.prems(2)] Pair by (metis fst_conv)+
    show ?thesis
    proof (cases e)
      case None
      obtain n where "n \<le> length xs" "rows (fst (first_err f s' xs)) = rows s' @ map r (take n xs)"
        "snd (first_err f s' xs) = None \<longrightarrow> n = length xs"
        using Cons.IH [OF _ s'(1)] by blast
      then show ?thesis
        using Cons.prems(1) [of "Suc n"] Pair None s' by simp
    qed (use Cons.prems(1) [of 1] Pair s' in simp)
  qed
qed simp

text \<open>An invariant \<open>I\<close> that holds as long as no iteration fails, and a weaker \<open>J\<close> that a failing
  iteration leaves.\<close>

lemma first_err_keeps:
  assumes "I s" and "\<And>s. I s \<Longrightarrow> J s"
    and "\<And>s x. I s \<Longrightarrow> J (fst (f s x)) \<and> (snd (f s x) = None \<longrightarrow> I (fst (f s x)))"
  shows "J (fst (first_err f s xs)) \<and> (snd (first_err f s xs) = None \<longrightarrow> I (fst (first_err f s xs)))"
  using assms(1)
proof (induction xs arbitrary: s)
  case (Cons x xs)
  then show ?case using assms(3) [of s x] by (cases "f s x") (auto split: option.splits)
qed (simp add: assms(2))

section \<open>Words\<close>

lemma unat_sub_if_le [word_conv]: "b \<le> a \<Longrightarrow> unat (a - b) = unat a - unat (b :: 'a::len word)"
  by (rule unat_sub)

lemma unat_diff_exact: "b \<le> a \<Longrightarrow> a - b = d \<Longrightarrow> unat b + unat d = unat (a :: 'a::len word)"
  by (auto simp: unat_sub word_le_nat_alt)

lemma unat_u64_less: "unat (a :: u64) < 2 ^ 64"
  using unsigned_less [of a, where 'a = nat] by simp

lemma unat_u32_less: "unat (a :: u32) < 2 ^ 32"
  using unsigned_less [of a, where 'a = nat] by simp

lemma unat_u16_less: "unat (a :: u16) < 2 ^ 16"
  using unsigned_less [of a, where 'a = nat] by simp

lemma unat_u8_less: "unat (a :: u8) < 256"
  using unsigned_less [of a, where 'a = nat] by simp

lemma unat_ucast_up:
  "unat (ucast (a :: u8) :: u32) = unat a" "unat (ucast (a :: u8) :: u64) = unat a"
  "unat (ucast (b :: u16) :: u64) = unat b" "unat (ucast (c :: u32) :: u64) = unat c"
  using unat_u8_less [of a] unat_u16_less [of b] unat_u32_less [of c]
  by (simp_all add: unsigned_ucast_eq take_bit_nat_eq_self)

lemmas unat_bounds = unat_u64_less unat_u32_less unat_u16_less unat_u8_less

lemma unat_inc_u64 [word_conv]: "unat (a :: u64) + 1 < 2 ^ 64 \<Longrightarrow> unat (a + 1) = unat a + 1"
  by (simp add: unat_word_ariths)

lemma unat_max_u64: "unat (- 1 :: u64) = 2 ^ 64 - 1"
  by (simp add: unsigned_minus_1_eq_mask mask_eq_exp_minus_1)

lemma not_max_u64: "(a :: u64) \<noteq> - 1 \<longleftrightarrow> unat a + 1 < 2 ^ 64"
  using unat_u64_less [of a] by (auto simp: word_unat_eq_iff unat_max_u64)

lemma sint_sub_u64:
  fixes a b :: u64
  assumes "\<bar>uint a - uint b\<bar> < 2 ^ 63"
  shows "sint (a - b) = uint a - uint b"
proof -
  have "sint (a - b) = signed_take_bit 63 (uint a - uint b)"
    by (simp only: sint_uint uint_word_arith_bintrs signed_take_bit_take_bit) simp
  also have "\<dots> = uint a - uint b"
    using assms by (intro signed_take_bit_int_eq_self) auto
  finally show ?thesis .
qed

end
