(* ===== verification/GoStd.thy ===== *)
theory GoStd
  imports Prelude
begin

text \<open>
  The parts of Go's standard library that the sources call: \<open>strconv.ParseUint\<close> and
  \<open>strconv.Atoi\<close>, the decimal verbs of \<open>fmt\<close>, \<open>encoding/binary.LittleEndian\<close>, and the
  functions of \<open>strings\<close>. A Go string is a list of bytes (\<open>char\<close>). The functions of
  \<open>strings\<close> that work on runes (\<open>Fields\<close>, \<open>TrimSpace\<close>, \<open>ToLower\<close>, \<open>Map\<close>) are modelled on
  their ASCII paths.
\<close>

section \<open>Decimal numbers\<close>

definition is_digit :: "char \<Rightarrow> bool" where
  "is_digit c \<longleftrightarrow> 48 \<le> (of_char c :: nat) \<and> (of_char c :: nat) \<le> 57"

definition digit_val :: "char \<Rightarrow> nat" where
  "digit_val c = of_char c - 48"

definition digit_char :: "nat \<Rightarrow> char" where
  "digit_char d = char_of (48 + d)"

datatype parse_error = ErrSyntax | ErrRange

text \<open>\<open>strconv.ParseUint(s, 10, 64)\<close>: the loop checks each digit, then the range.\<close>

fun parseUint_loop :: "nat \<Rightarrow> string \<Rightarrow> parse_error + nat" where
  "parseUint_loop n [] = Inr n"
| "parseUint_loop n (c # cs) =
     (if \<not> is_digit c then Inl ErrSyntax
      else let n1 = 10 * n + digit_val c
           in if 2 ^ 64 \<le> n1 then Inl ErrRange else parseUint_loop n1 cs)"

definition strconv_ParseUint :: "string \<Rightarrow> parse_error + u64" where
  "strconv_ParseUint s =
     (if s = [] then Inl ErrSyntax else map_sum id of_nat (parseUint_loop 0 s))"

text \<open>\<open>strconv.Atoi(s)\<close>: an optional sign, then digits, in the range of a 64-bit \<open>int\<close>.\<close>

definition atoi_unsigned :: "bool \<Rightarrow> string \<Rightarrow> parse_error + int" where
  "atoi_unsigned neg s =
     (if s = [] then Inl ErrSyntax
      else case parseUint_loop 0 s of
        Inl e \<Rightarrow> Inl e
      | Inr n \<Rightarrow>
          if \<not> neg \<and> 2 ^ 63 \<le> n then Inl ErrRange
          else if neg \<and> 2 ^ 63 < n then Inl ErrRange
          else Inr (if neg then - int n else int n))"

definition strconv_Atoi :: "string \<Rightarrow> parse_error + int" where
  "strconv_Atoi s =
     (case s of
        [] \<Rightarrow> Inl ErrSyntax
      | c # cs \<Rightarrow>
          if c = CHR ''+'' then atoi_unsigned False cs
          else if c = CHR ''-'' then atoi_unsigned True cs
          else atoi_unsigned False s)"

text \<open>The verb \<open>%d\<close> on an unsigned integer, and \<open>%016d\<close>: zero padding to a minimal width.\<close>

fun show_nat :: "nat \<Rightarrow> string" where
  "show_nat n = (if n < 10 then [digit_char n] else show_nat (n div 10) @ [digit_char (n mod 10)])"

declare show_nat.simps [simp del]

definition pad_left_zero :: "nat \<Rightarrow> string \<Rightarrow> string" where
  "pad_left_zero w s = replicate (w - length s) (CHR ''0'') @ s"

definition show_bool :: "bool \<Rightarrow> string" where
  "show_bool b = (if b then ''true'' else ''false'')"

section \<open>encoding/binary, little endian\<close>

fun le_nat :: "bytes \<Rightarrow> nat" where
  "le_nat [] = 0"
| "le_nat (b # bs) = unat b + 256 * le_nat bs"

fun le_bytes :: "nat \<Rightarrow> nat \<Rightarrow> bytes" where
  "le_bytes 0 n = []"
| "le_bytes (Suc k) n = of_nat (n mod 256) # le_bytes k (n div 256)"

definition LittleEndian_Uint16 :: "bytes \<Rightarrow> u16" where
  "LittleEndian_Uint16 bs = of_nat (le_nat (take 2 bs))"

definition LittleEndian_Uint32 :: "bytes \<Rightarrow> u32" where
  "LittleEndian_Uint32 bs = of_nat (le_nat (take 4 bs))"

definition LittleEndian_Uint64 :: "bytes \<Rightarrow> u64" where
  "LittleEndian_Uint64 bs = of_nat (le_nat (take 8 bs))"

section \<open>strings\<close>

definition HasPrefix :: "string \<Rightarrow> string \<Rightarrow> bool" where
  "HasPrefix s p \<longleftrightarrow> take (length p) s = p"

definition HasSuffix :: "string \<Rightarrow> string \<Rightarrow> bool" where
  "HasSuffix s p \<longleftrightarrow> length p \<le> length s \<and> drop (length s - length p) s = p"

definition TrimPrefix :: "string \<Rightarrow> string \<Rightarrow> string" where
  "TrimPrefix s p = (if HasPrefix s p then drop (length p) s else s)"

definition TrimSuffix :: "string \<Rightarrow> string \<Rightarrow> string" where
  "TrimSuffix s p = (if HasSuffix s p then take (length s - length p) s else s)"

fun Contains :: "string \<Rightarrow> string \<Rightarrow> bool" where
  "Contains [] p = HasPrefix [] p"
| "Contains (c # cs) p = (HasPrefix (c # cs) p \<or> Contains cs p)"

definition Trim :: "(char \<Rightarrow> bool) \<Rightarrow> string \<Rightarrow> string" where
  "Trim inCut s = rev (dropWhile inCut (rev (dropWhile inCut s)))"

text \<open>ASCII white space: tab, newline, vertical tab, form feed, carriage return, blank.\<close>

definition is_space :: "char \<Rightarrow> bool" where
  "is_space c \<longleftrightarrow> (of_char c :: nat) \<in> {9, 10, 11, 12, 13, 32}"

definition TrimSpace :: "string \<Rightarrow> string" where
  "TrimSpace s = Trim is_space s"

fun fields_loop :: "string \<Rightarrow> string \<Rightarrow> string list" where
  "fields_loop cur [] = (if cur = [] then [] else [rev cur])"
| "fields_loop cur (c # cs) =
     (if is_space c then (if cur = [] then fields_loop [] cs else rev cur # fields_loop [] cs)
      else fields_loop (c # cur) cs)"

definition Fields :: "string \<Rightarrow> string list" where
  "Fields s = fields_loop [] s"

definition to_lower_char :: "char \<Rightarrow> char" where
  "to_lower_char c =
     (if 65 \<le> (of_char c :: nat) \<and> (of_char c :: nat) \<le> 90 then char_of (of_char c + 32 :: nat) else c)"

definition ToLower :: "string \<Rightarrow> string" where
  "ToLower s = map to_lower_char s"

text \<open>\<open>strings.SplitN(s, sep, 2)\<close> for a one-byte separator: split at its first occurrence.\<close>

definition SplitN2 :: "string \<Rightarrow> char \<Rightarrow> string list" where
  "SplitN2 s sep =
     (if sep \<in> set s
      then [takeWhile (\<lambda>c. c \<noteq> sep) s, tl (dropWhile (\<lambda>c. c \<noteq> sep) s)]
      else [s])"

section \<open>Lemmas on decimal numbers\<close>

lemma digit_char_eval [simp]:
  "digit_char 0 = CHR ''0''" "digit_char (Suc 0) = CHR ''1''" "digit_char 1 = CHR ''1''"
  "digit_char 2 = CHR ''2''" "digit_char 3 = CHR ''3''" "digit_char 4 = CHR ''4''"
  "digit_char 5 = CHR ''5''" "digit_char 6 = CHR ''6''" "digit_char 7 = CHR ''7''"
  "digit_char 8 = CHR ''8''" "digit_char 9 = CHR ''9''"
  by (simp_all add: digit_char_def char_of_def bit_0)

lemma of_char_digit_char [simp]: "d < 10 \<Longrightarrow> (of_char (digit_char d) :: nat) = 48 + d"
  by (simp add: digit_char_def)

lemma is_digit_digit_char [simp]: "d < 10 \<Longrightarrow> is_digit (digit_char d)"
  by (simp add: is_digit_def)

lemma digit_val_digit_char [simp]: "d < 10 \<Longrightarrow> digit_val (digit_char d) = d"
  by (simp add: digit_val_def)

lemma show_nat_digits: "\<forall>c \<in> set (show_nat n). is_digit c"
proof (induction n rule: show_nat.induct)
  case (1 n)
  then show ?case by (cases "n < 10") (auto simp: show_nat.simps [of n])
qed

lemma show_nat_nonempty [simp]: "show_nat n \<noteq> []"
  by (subst show_nat.simps) simp

lemma show_nat_no_char: "\<not> is_digit c \<Longrightarrow> c \<notin> set (show_nat n)"
  using show_nat_digits by blast

lemma parseUint_loop_append:
  "parseUint_loop n (xs @ ys) =
     (case parseUint_loop n xs of Inl e \<Rightarrow> Inl e | Inr m \<Rightarrow> parseUint_loop m ys)"
  by (induction xs arbitrary: n) (auto simp: Let_def)

lemma parseUint_loop_show: "n < 2 ^ 64 \<Longrightarrow> parseUint_loop 0 (show_nat n) = Inr n"
proof (induction n rule: show_nat.induct)
  case (1 n)
  show ?case
  proof (cases "n < 10")
    case True
    then show ?thesis by (simp add: show_nat.simps [of n])
  next
    case False
    with 1 have "parseUint_loop 0 (show_nat (n div 10)) = Inr (n div 10)" by simp
    with False "1.prems" show ?thesis
      by (simp add: show_nat.simps [of n] parseUint_loop_append)
  qed
qed

lemma show_nat_inject_bounded: "m < 2 ^ 64 \<Longrightarrow> n < 2 ^ 64 \<Longrightarrow> show_nat m = show_nat n \<Longrightarrow> m = n"
  by (metis Inr_inject parseUint_loop_show)

lemma show_u64_inject [simp]: "show_nat (unat (a :: u64)) = show_nat (unat b) \<longleftrightarrow> a = b"
  using show_nat_inject_bounded [of "unat a" "unat b"] unat_u64_less [of a] unat_u64_less [of b]
  by (auto simp: word_unat_eq_iff)

lemma show_u32_inject [simp]: "show_nat (unat (a :: u32)) = show_nat (unat b) \<longleftrightarrow> a = b"
  using show_nat_inject_bounded [of "unat a" "unat b"] unat_u32_less [of a] unat_u32_less [of b]
  by (auto simp: word_unat_eq_iff)

text \<open>Printing a \<open>uint64\<close> in decimal and parsing it gives it back.\<close>

lemma ParseUint_show [simp]: "strconv_ParseUint (show_nat (unat (a :: u64))) = Inr a"
  using parseUint_loop_show [of "unat a"] unat_u64_less [of a]
  by (simp add: strconv_ParseUint_def)

lemma parseUint_loop_bound: "n < 2 ^ 64 \<Longrightarrow> parseUint_loop n s = Inr m \<Longrightarrow> m < 2 ^ 64"
  by (induction n s rule: parseUint_loop.induct) (auto simp: Let_def split: if_splits)

lemma parseUint_loop_all_digits: "parseUint_loop n s = Inr m \<Longrightarrow> \<forall>c \<in> set s. is_digit c"
  by (induction n s rule: parseUint_loop.induct) (auto simp: Let_def split: if_splits)

section \<open>Lemmas on little-endian bytes\<close>

lemma length_le_bytes [simp]: "length (le_bytes k n) = k"
  by (induction k arbitrary: n) auto

lemma le_nat_le_bytes: "le_nat (le_bytes k n) = n mod 256 ^ k"
proof (induction k arbitrary: n)
  case (Suc k)
  have "unat (of_nat (n mod 256) :: u8) = n mod 256"
    by (simp add: unat_of_nat)
  with Suc show ?case by (simp add: mod_mult2_eq)
qed simp

lemma le_nat_bound: "le_nat bs < 256 ^ length bs"
proof (induction bs)
  case (Cons b bs)
  have "unat b < 256" using unsigned_less [of b] by simp
  with Cons show ?case by simp
qed simp

lemma Uint64_le_bytes [simp]: "LittleEndian_Uint64 (le_bytes 8 (unat (a :: u64))) = a"
  using unat_u64_less [of a] by (simp add: LittleEndian_Uint64_def le_nat_le_bytes)

lemma Uint32_le_bytes [simp]: "LittleEndian_Uint32 (le_bytes 4 (unat (a :: u32))) = a"
  using unat_u32_less [of a] by (simp add: LittleEndian_Uint32_def le_nat_le_bytes)

lemma Uint16_le_bytes [simp]: "LittleEndian_Uint16 (le_bytes 2 (unat (a :: u16))) = a"
  using unat_u16_less [of a] by (simp add: LittleEndian_Uint16_def le_nat_le_bytes)

section \<open>Lemmas on strings\<close>

lemma HasPrefix_append [simp]: "HasPrefix (p @ s) p"
  by (simp add: HasPrefix_def)

lemma HasPrefix_iff: "HasPrefix s p \<longleftrightarrow> (\<exists>t. s = p @ t)"
  by (metis HasPrefix_append HasPrefix_def append_take_drop_id)

lemma HasSuffix_append [simp]: "HasSuffix (s @ p) p"
  by (simp add: HasSuffix_def)

lemma HasSuffix_iff: "HasSuffix s p \<longleftrightarrow> (\<exists>t. s = t @ p)"
  by (metis HasSuffix_append HasSuffix_def append_take_drop_id)

lemma Contains_iff: "Contains s p \<longleftrightarrow> (\<exists>u v. s = u @ p @ v)"
proof (induction s)
  case Nil
  then show ?case by (auto simp: HasPrefix_iff)
next
  case (Cons c cs)
  have "(\<exists>u v. c # cs = u @ p @ v) \<longleftrightarrow> (\<exists>v. c # cs = p @ v) \<or> (\<exists>u v. cs = u @ p @ v)"
    by (metis append_Cons append_Nil list.exhaust list.inject)
  with Cons show ?case by (simp add: HasPrefix_iff)
qed

text \<open>Two strings that agree up to their first separator.\<close>

lemma sep_inject:
  assumes "a @ sep # s = b @ sep # t" and "sep \<notin> set a" and "sep \<notin> set b"
  shows "a = b \<and> s = t"
  using assms
proof (induction a arbitrary: b)
  case Nil
  then show ?case by (cases b) auto
next
  case (Cons x a)
  then show ?case by (cases b) auto
qed

lemma sep_inject_rev:
  assumes "s @ sep # a = t @ sep # b" and "sep \<notin> set a" and "sep \<notin> set b"
  shows "s = t \<and> a = b"
proof -
  have "rev a @ sep # rev s = rev b @ sep # rev t"
    using arg_cong [OF assms(1), of rev] by simp
  with assms(2,3) have "rev a = rev b \<and> rev s = rev t"
    by (intro sep_inject) auto
  then show ?thesis by simp
qed

lemma SplitN2_sep: "sep \<notin> set a \<Longrightarrow> SplitN2 (a @ sep # b) sep = [a, b]"
proof -
  assume "sep \<notin> set a"
  then have "\<And>x. x \<in> set a \<Longrightarrow> x \<noteq> sep" by blast
  then show ?thesis by (simp add: SplitN2_def)
qed

end
