(* ===== verification/Dex.thy ===== *)
theory Dex
  imports GoStd
begin

text \<open>
  The message types that travel through the system. The canonical \<open>dex.sol.v1\<close> messages
  (\<open>gen/go/dex/sol/v1/core.pb.go\<close>) are records with one field per protobuf field; \<open>zero_\<close>
  values are the messages with every field unset, so that a Go composite literal is a record
  update of the zero value. The Yellowstone messages, which a third-party module declares, are
  records of exactly the fields the sources read; a message that may be \<open>nil\<close> is an \<open>option\<close>.
\<close>

section \<open>dex.sol.v1\<close>

record U128 =
  u128_Hi :: u64
  u128_Lo :: u64

record BlockHead =
  bh_ChainId :: u64
  bh_Slot :: u64
  bh_TsSec :: u64
  bh_Status :: string

record TxMeta =
  tm_ChainId :: u64
  tm_Slot :: u64
  tm_Sig :: string
  tm_Success :: bool
  tm_CuUsed :: u64
  tm_CuPrice :: u64
  tm_LogMsgs :: "string list"

record SwapEvent =
  se_ChainId :: u64
  se_Slot :: u64
  se_Sig :: string
  se_Index :: u32
  se_ProgramId :: string
  se_PoolId :: string
  se_MintBase :: string
  se_MintQuote :: string
  se_DecBase :: u32
  se_DecQuote :: u32
  se_BaseIn :: u64
  se_BaseOut :: u64
  se_QuoteIn :: u64
  se_QuoteOut :: u64
  se_SqrtPriceQ64Pre :: u64
  se_SqrtPriceQ64Post :: u64
  se_ReservesBase :: u64
  se_ReservesQuote :: u64
  se_FeeBps :: u32
  se_Provisional :: bool
  se_IsUndo :: bool

record PoolSnapshot =
  ps_ChainId :: u64
  ps_Slot :: u64
  ps_PoolId :: string
  ps_MintBase :: string
  ps_MintQuote :: string
  ps_SqrtPriceQ64 :: u64
  ps_ReservesBase :: u64
  ps_ReservesQuote :: u64
  ps_FeeBps :: u32
  ps_Liquidity :: u64

record Candle =
  cd_ChainId :: u64
  cd_PairId :: string
  cd_PoolId :: string
  cd_Timeframe :: string
  cd_WindowStart :: u64
  cd_Provisional :: bool
  cd_IsCorrection :: bool
  cd_OpenPxQ32 :: i64
  cd_HighPxQ32 :: i64
  cd_LowPxQ32 :: i64
  cd_ClosePxQ32 :: i64
  cd_VwapNum :: "U128 option"
  cd_VwapDen :: "U128 option"
  cd_VolBase :: "U128 option"
  cd_VolQuote :: "U128 option"
  cd_Trades :: u32

datatype dex_message =
    MsgBlockHead BlockHead
  | MsgTxMeta TxMeta
  | MsgSwap SwapEvent
  | MsgPoolSnapshot PoolSnapshot
  | MsgCandle Candle

definition zero_SwapEvent :: SwapEvent where
  "zero_SwapEvent = \<lparr>se_ChainId = 0, se_Slot = 0, se_Sig = [], se_Index = 0, se_ProgramId = [],
     se_PoolId = [], se_MintBase = [], se_MintQuote = [], se_DecBase = 0, se_DecQuote = 0,
     se_BaseIn = 0, se_BaseOut = 0, se_QuoteIn = 0, se_QuoteOut = 0, se_SqrtPriceQ64Pre = 0,
     se_SqrtPriceQ64Post = 0, se_ReservesBase = 0, se_ReservesQuote = 0, se_FeeBps = 0,
     se_Provisional = False, se_IsUndo = False\<rparr>"

section \<open>Yellowstone messages read by the sources\<close>

record UiTokenAmount =
  ui_Amount :: string
  ui_Decimals :: u32

record TokenBalance =
  tb_AccountIndex :: u32
  tb_Mint :: string
  tb_Owner :: string
  tb_UiTokenAmount :: "UiTokenAmount option"

record CompiledInstruction =
  ci_ProgramIdIndex :: u32
  ci_Accounts :: bytes
  ci_Data :: bytes

record PbMessage =
  msg_AccountKeys :: "bytes list"
  msg_Instructions :: "CompiledInstruction list"

record PbTransaction =
  ptx_Signatures :: "bytes list"
  ptx_Message :: "PbMessage option"

record TransactionStatusMeta =
  tsm_HasErr :: bool
  tsm_PreTokenBalances :: "TokenBalance list"
  tsm_PostTokenBalances :: "TokenBalance list"
  tsm_LogMessages :: "string list"
  tsm_ComputeUnitsConsumed :: u64

record SubscribeUpdateTransactionInfo =
  sti_Signature :: bytes
  sti_Transaction :: "PbTransaction option"
  sti_Meta :: "TransactionStatusMeta option"
  sti_Index :: u64

record SubscribeUpdateTransaction =
  sut_Transaction :: "SubscribeUpdateTransactionInfo option"
  sut_Slot :: u64

record SubscribeUpdateBlockMeta =
  sbm_Slot :: u64
  sbm_BlockTime :: "i64 option"

record SubscribeUpdateAccountInfo =
  sai_Pubkey :: bytes
  sai_Owner :: bytes
  sai_Data :: bytes

record SubscribeUpdateAccount =
  sua_Slot :: u64
  sua_Account :: "SubscribeUpdateAccountInfo option"

datatype SlotStatus =
    SLOT_PROCESSED | SLOT_CONFIRMED | SLOT_FINALIZED | SLOT_FIRST_SHRED_RECEIVED
  | SLOT_COMPLETED | SLOT_CREATED_BANK | SLOT_DEAD

record SubscribeUpdateSlot =
  sus_Slot :: u64
  sus_Status :: SlotStatus

text \<open>The wrapped message of a \<open>oneof\<close> arm may itself be \<open>nil\<close>; \<open>U_Other\<close> is any other arm.\<close>

datatype SubscribeUpdate =
    U_Transaction "SubscribeUpdateTransaction option"
  | U_BlockMeta "SubscribeUpdateBlockMeta option"
  | U_Account "SubscribeUpdateAccount option"
  | U_Slot "SubscribeUpdateSlot option"
  | U_Block "u64 option"
  | U_Other

end
