(* ===== verification/Publisher.thy ===== *)
theory Publisher
  imports Dex
begin

text \<open>
  The JetStream publisher: \<open>sinks/nats/config.go\<close> and \<open>sinks/nats/publisher.go\<close>. The protobuf
  encoder is the parameter \<open>marshal\<close> (\<open>None\<close> is an encoding error). The JetStream server is the
  parameter \<open>js\<close>: it answers a message according to everything published before, so the world is
  the list of attempts, each with its answer. The interface \<open>SwapPublisher\<close> that the ingestors use
  is the locale \<open>swap_publisher\<close>, interpreted on this publisher.
\<close>

section \<open>sinks/nats/config.go\<close>

text \<open>A \<open>time.Duration\<close> is a signed 64-bit count of nanoseconds.\<close>

type_synonym duration = i64

definition time_Second :: duration where "time_Second = 1000000000"

definition time_Millisecond :: duration where "time_Millisecond = 1000000"

record NatsConfig =
  nc_URL :: string
  nc_Stream :: string
  nc_SubjectRoot :: string
  nc_PublishTimeout :: duration

definition Nats_DefaultConfig :: NatsConfig where
  "Nats_DefaultConfig = \<lparr>nc_URL = [], nc_Stream = [], nc_SubjectRoot = ''dex.sol'',
     nc_PublishTimeout = 5 * time_Second\<rparr>"

datatype nats_config_error =
    URLRequired | StreamRequired | SubjectRootEmpty | TimeoutNotPositive | InvalidTimeout parse_error

definition Nats_Validate :: "NatsConfig \<Rightarrow> nats_config_error option" where
  "Nats_Validate c =
     (if nc_URL c = [] then Some URLRequired
      else if nc_Stream c = [] then Some StreamRequired
      else if nc_SubjectRoot c = [] then Some SubjectRootEmpty
      else if nc_PublishTimeout c \<le>s 0 then Some TimeoutNotPositive
      else None)"

text \<open>The environment maps a name to its value, the empty string when it is not set.\<close>

type_synonym environ = "string \<Rightarrow> string"

definition Nats_FromEnv :: "environ \<Rightarrow> nats_config_error + NatsConfig" where
  "Nats_FromEnv env =
     (let getenv = (\<lambda>name old. if env name \<noteq> [] then env name else old);
          cfg = Nats_DefaultConfig\<lparr>
            nc_URL := getenv ''NATS_URL'' (nc_URL Nats_DefaultConfig),
            nc_Stream := getenv ''NATS_STREAM'' (nc_Stream Nats_DefaultConfig),
            nc_SubjectRoot := getenv ''NATS_SUBJECT_ROOT'' (nc_SubjectRoot Nats_DefaultConfig)\<rparr>;
          with_timeout =
            (if env ''NATS_PUBLISH_TIMEOUT_MS'' \<noteq> [] then
               (case strconv_Atoi (env ''NATS_PUBLISH_TIMEOUT_MS'') of
                  Inl err \<Rightarrow> Inl (InvalidTimeout err)
                | Inr ms \<Rightarrow> Inr (cfg\<lparr>nc_PublishTimeout := word_of_int ms * time_Millisecond\<rparr>))
             else Inr cfg)
      in case with_timeout of
           Inl err \<Rightarrow> Inl err
         | Inr c \<Rightarrow> (case Nats_Validate c of Some err \<Rightarrow> Inl err | None \<Rightarrow> Inr c))"

section \<open>sinks/nats/publisher.go: messages\<close>

record nats_msg =
  nm_Subject :: string
  nm_Header :: "(string, string) gomap"
  nm_Data :: bytes

definition programSubjectAliases :: "(string, string) gomap" where
  "programSubjectAliases =
     [(''CAMMCzo5YL8w4VFF8KVHrK22GGUsp5VTaW7grrKgrWqK'', ''raydium''),
      (''whirLbMiicVdio4qvUfM5KAg6Ct8VwpYzGff3uctyCc'', ''orca''),
      (''METoRa111111111111111111111111111111111111111'', ''meteora'')]"

definition programSegment :: "string \<Rightarrow> string" where
  "programSegment programID =
     (if programID = [] then ''unknown''
      else case map_get programSubjectAliases programID of
        Some alias \<Rightarrow> alias
      | None \<Rightarrow>
          let cleaned = filter (\<lambda>r. r \<notin> {CHR ''.'', CHR '' '', CHR ''*'', CHR ''>''}) programID
          in ToLower (if length cleaned > 16 then take 16 cleaned else cleaned))"

definition swap_subject :: "NatsConfig \<Rightarrow> SwapEvent \<Rightarrow> string" where
  "swap_subject cfg event = nc_SubjectRoot cfg @ ''.'' @ programSegment (se_ProgramId event) @ ''.swap''"

definition swap_msgID :: "SwapEvent \<Rightarrow> string" where
  "swap_msgID event = ''501:'' @ show_nat (unat (se_Slot event)) @ '':'' @ se_Sig event @ '':'' @ show_nat (unat (se_Index event))"

definition head_msgID :: "BlockHead \<Rightarrow> string" where
  "head_msgID head = ''501:'' @ show_nat (unat (bh_Slot head))"

definition tx_msgID :: "TxMeta \<Rightarrow> string" where
  "tx_msgID meta = ''501:'' @ show_nat (unat (tm_Slot meta)) @ '':'' @ tm_Sig meta"

definition snapshot_msgID :: "PoolSnapshot \<Rightarrow> string" where
  "snapshot_msgID snap = ''501:'' @ show_nat (unat (ps_Slot snap)) @ '':'' @ ps_PoolId snap"

definition candle_subject :: "NatsConfig \<Rightarrow> Candle \<Rightarrow> string" where
  "candle_subject cfg candle =
     (let scope = (if cd_PoolId candle \<noteq> [] then ''pool'' else ''pair'')
      in nc_SubjectRoot cfg @ ''.candle.'' @ scope @ ''.'' @ cd_Timeframe candle)"

definition candle_msgID :: "Candle \<Rightarrow> string" where
  "candle_msgID candle = ''501:'' @ cd_PairId candle @ '':'' @ cd_PoolId candle @ '':''
     @ show_nat (unat (cd_WindowStart candle)) @ '':'' @ show_bool (cd_Provisional candle)"

section \<open>sinks/nats/publisher.go: publishing\<close>

text \<open>A context is what the publisher reads of it: whether it already has a deadline.\<close>

record go_context =
  ctx_Deadline :: "duration option"

definition ensureTimeout :: "NatsConfig \<Rightarrow> go_context option \<Rightarrow> go_context" where
  "ensureTimeout cfg parent_ptr =
     (let parent = (case parent_ptr of None \<Rightarrow> \<lparr>ctx_Deadline = None\<rparr> | Some p \<Rightarrow> p)
      in if ctx_Deadline parent \<noteq> None \<or> nc_PublishTimeout cfg \<le>s 0 then parent
         else \<lparr>ctx_Deadline = Some (nc_PublishTimeout cfg)\<rparr>)"

text \<open>The server answers with an error or with an acknowledgement that may name a stream.\<close>

datatype js_reply = JsErr | JsAck "string option"

record attempt =
  at_Message :: dex_message
  at_Msg :: nats_msg
  at_Reply :: js_reply

type_synonym world = "attempt list"

type_synonym js_server = "world \<Rightarrow> go_context \<Rightarrow> nats_msg \<Rightarrow> string \<Rightarrow> js_reply"

datatype publish_error =
    NilMessage
  | MarshalFailed
  | PublishFailed string
  | UnexpectedStream string string

text \<open>What the publisher makes of an answer.\<close>

definition reply_error :: "NatsConfig \<Rightarrow> string \<Rightarrow> js_reply \<Rightarrow> publish_error option" where
  "reply_error cfg subject reply =
     (case reply of
        JsErr \<Rightarrow> Some (PublishFailed subject)
      | JsAck None \<Rightarrow> None
      | JsAck (Some stream) \<Rightarrow>
          if stream \<noteq> [] \<and> stream \<noteq> nc_Stream cfg then Some (UnexpectedStream stream (nc_Stream cfg))
          else None)"

definition build_msg :: "string \<Rightarrow> bytes \<Rightarrow> string \<Rightarrow> nats_msg" where
  "build_msg subject data msgID =
     \<lparr>nm_Subject = subject,
      nm_Header = map_set ''Content-Type'' ''application/protobuf''
        (if msgID \<noteq> [] then map_set ''Nats-Msg-Id'' msgID [] else []),
      nm_Data = data\<rparr>"

definition publish ::
  "(dex_message \<Rightarrow> bytes option) \<Rightarrow> js_server \<Rightarrow> NatsConfig \<Rightarrow> go_context option \<Rightarrow> string \<Rightarrow>
   dex_message \<Rightarrow> string \<Rightarrow> world \<Rightarrow> world \<times> publish_error option" where
  "publish marshal js cfg parent subject message msgID w =
     (case marshal message of
        None \<Rightarrow> (w, Some MarshalFailed)
      | Some data \<Rightarrow>
          let msg = build_msg subject data msgID;
              ctx = ensureTimeout cfg parent;
              reply = js w ctx msg (nc_Stream cfg)
          in (w @ [\<lparr>at_Message = message, at_Msg = msg, at_Reply = reply\<rparr>], reply_error cfg subject reply))"

definition PublishSwap ::
  "(dex_message \<Rightarrow> bytes option) \<Rightarrow> js_server \<Rightarrow> NatsConfig \<Rightarrow> go_context option \<Rightarrow>
   SwapEvent option \<Rightarrow> world \<Rightarrow> world \<times> publish_error option" where
  "PublishSwap marshal js cfg ctx event_ptr w =
     (case event_ptr of None \<Rightarrow> (w, Some NilMessage)
      | Some event \<Rightarrow> publish marshal js cfg ctx (swap_subject cfg event) (MsgSwap event) (swap_msgID event) w)"

definition PublishBlockHead ::
  "(dex_message \<Rightarrow> bytes option) \<Rightarrow> js_server \<Rightarrow> NatsConfig \<Rightarrow> go_context option \<Rightarrow>
   BlockHead option \<Rightarrow> world \<Rightarrow> world \<times> publish_error option" where
  "PublishBlockHead marshal js cfg ctx head_ptr w =
     (case head_ptr of None \<Rightarrow> (w, Some NilMessage)
      | Some head \<Rightarrow> publish marshal js cfg ctx (nc_SubjectRoot cfg @ ''.blocks.head'') (MsgBlockHead head) (head_msgID head) w)"

definition PublishTxMeta ::
  "(dex_message \<Rightarrow> bytes option) \<Rightarrow> js_server \<Rightarrow> NatsConfig \<Rightarrow> go_context option \<Rightarrow>
   TxMeta option \<Rightarrow> world \<Rightarrow> world \<times> publish_error option" where
  "PublishTxMeta marshal js cfg ctx meta_ptr w =
     (case meta_ptr of None \<Rightarrow> (w, Some NilMessage)
      | Some meta \<Rightarrow> publish marshal js cfg ctx (nc_SubjectRoot cfg @ ''.tx.meta'') (MsgTxMeta meta) (tx_msgID meta) w)"

definition PublishPoolSnapshot ::
  "(dex_message \<Rightarrow> bytes option) \<Rightarrow> js_server \<Rightarrow> NatsConfig \<Rightarrow> go_context option \<Rightarrow>
   PoolSnapshot option \<Rightarrow> world \<Rightarrow> world \<times> publish_error option" where
  "PublishPoolSnapshot marshal js cfg ctx snap_ptr w =
     (case snap_ptr of None \<Rightarrow> (w, Some NilMessage)
      | Some snap \<Rightarrow> publish marshal js cfg ctx (nc_SubjectRoot cfg @ ''.pool.snapshot'') (MsgPoolSnapshot snap) (snapshot_msgID snap) w)"

definition PublishCandle ::
  "(dex_message \<Rightarrow> bytes option) \<Rightarrow> js_server \<Rightarrow> NatsConfig \<Rightarrow> go_context option \<Rightarrow>
   Candle option \<Rightarrow> world \<Rightarrow> world \<times> publish_error option" where
  "PublishCandle marshal js cfg ctx candle_ptr w =
     (case candle_ptr of None \<Rightarrow> (w, Some NilMessage)
      | Some candle \<Rightarrow> publish marshal js cfg ctx (candle_subject cfg candle) (MsgCandle candle) (candle_msgID candle) w)"

section \<open>The SwapPublisher interface\<close>

text \<open>
  \<open>sent\<close> are the messages the publisher has reported as published. A call that succeeds has
  published exactly its message, a call that fails has published nothing.
\<close>

record ('w, 'e) SwapPublisher =
  sp_PublishSwap :: "go_context option \<Rightarrow> SwapEvent option \<Rightarrow> 'w \<Rightarrow> 'w \<times> 'e option"
  sp_PublishBlockHead :: "go_context option \<Rightarrow> BlockHead option \<Rightarrow> 'w \<Rightarrow> 'w \<times> 'e option"
  sp_PublishTxMeta :: "go_context option \<Rightarrow> TxMeta option \<Rightarrow> 'w \<Rightarrow> 'w \<times> 'e option"

locale swap_publisher =
  fixes P :: "('w, 'e) SwapPublisher" and sent :: "'w \<Rightarrow> dex_message list"
  assumes swap_ok: "sp_PublishSwap P ctx (Some ev) w = (w', None) \<Longrightarrow> sent w' = sent w @ [MsgSwap ev]"
    and swap_err: "sp_PublishSwap P ctx ev_ptr w = (w', Some e) \<Longrightarrow> sent w' = sent w"
    and head_ok: "sp_PublishBlockHead P ctx (Some h) w = (w', None) \<Longrightarrow> sent w' = sent w @ [MsgBlockHead h]"
    and head_err: "sp_PublishBlockHead P ctx h_ptr w = (w', Some e) \<Longrightarrow> sent w' = sent w"
    and tx_ok: "sp_PublishTxMeta P ctx (Some m) w = (w', None) \<Longrightarrow> sent w' = sent w @ [MsgTxMeta m]"
    and tx_err: "sp_PublishTxMeta P ctx m_ptr w = (w', Some e) \<Longrightarrow> sent w' = sent w"

definition natsx_sent :: "NatsConfig \<Rightarrow> world \<Rightarrow> dex_message list" where
  "natsx_sent cfg w =
     map at_Message (filter (\<lambda>a. reply_error cfg (nm_Subject (at_Msg a)) (at_Reply a) = None) w)"

definition natsx_Publisher ::
  "(dex_message \<Rightarrow> bytes option) \<Rightarrow> js_server \<Rightarrow> NatsConfig \<Rightarrow> (world, publish_error) SwapPublisher" where
  "natsx_Publisher marshal js cfg =
     \<lparr>sp_PublishSwap = PublishSwap marshal js cfg, sp_PublishBlockHead = PublishBlockHead marshal js cfg,
      sp_PublishTxMeta = PublishTxMeta marshal js cfg\<rparr>"

lemma publish_sent:
  "publish marshal js cfg ctx subject m i w = (w', r) \<Longrightarrow>
     natsx_sent cfg w' = (if r = None then natsx_sent cfg w @ [m] else natsx_sent cfg w)"
  by (auto simp: publish_def natsx_sent_def build_msg_def Let_def split: option.splits)

interpretation np: swap_publisher "natsx_Publisher marshal js cfg" "natsx_sent cfg" for marshal js cfg
  by unfold_locales
    (auto simp: natsx_Publisher_def PublishSwap_def PublishBlockHead_def PublishTxMeta_def
      dest!: publish_sent split: option.splits)

section \<open>Lemmas\<close>

lemma no_colon: "CHR '':'' \<notin> set (show_nat n)"
  by (rule show_nat_no_char) (simp add: is_digit_def)

lemma swap_msgID_iff:
  "swap_msgID a = swap_msgID b \<longleftrightarrow> se_Slot a = se_Slot b \<and> se_Sig a = se_Sig b \<and> se_Index a = se_Index b"
proof
  assume "swap_msgID a = swap_msgID b"
  then have "show_nat (unat (se_Slot a)) @ CHR '':'' # (se_Sig a @ CHR '':'' # show_nat (unat (se_Index a)))
      = show_nat (unat (se_Slot b)) @ CHR '':'' # (se_Sig b @ CHR '':'' # show_nat (unat (se_Index b)))"
    by (simp add: swap_msgID_def)
  from sep_inject [OF this no_colon no_colon]
  have slot: "se_Slot a = se_Slot b"
    and "se_Sig a @ CHR '':'' # show_nat (unat (se_Index a)) = se_Sig b @ CHR '':'' # show_nat (unat (se_Index b))"
    by simp_all
  from sep_inject_rev [OF this(2) no_colon no_colon] slot
  show "se_Slot a = se_Slot b \<and> se_Sig a = se_Sig b \<and> se_Index a = se_Index b" by simp
qed (simp add: swap_msgID_def)

lemma tx_msgID_iff: "tx_msgID a = tx_msgID b \<longleftrightarrow> tm_Slot a = tm_Slot b \<and> tm_Sig a = tm_Sig b"
proof
  assume "tx_msgID a = tx_msgID b"
  then have "show_nat (unat (tm_Slot a)) @ CHR '':'' # tm_Sig a = show_nat (unat (tm_Slot b)) @ CHR '':'' # tm_Sig b"
    by (simp add: tx_msgID_def)
  from sep_inject [OF this no_colon no_colon] show "tm_Slot a = tm_Slot b \<and> tm_Sig a = tm_Sig b" by simp
qed (simp add: tx_msgID_def)

lemma head_msgID_iff: "head_msgID a = head_msgID b \<longleftrightarrow> bh_Slot a = bh_Slot b"
  by (simp add: head_msgID_def)

lemma head_id_not_longer: "head_msgID h \<noteq> swap_msgID e" "head_msgID h \<noteq> tx_msgID m"
  using no_colon by (auto simp: head_msgID_def swap_msgID_def tx_msgID_def) (metis in_set_conv_decomp)+

definition msg_id :: "nats_msg \<Rightarrow> string option" where
  "msg_id m = map_get (nm_Header m) ''Nats-Msg-Id''"

lemma msg_id_build: "i \<noteq> [] \<Longrightarrow> msg_id (build_msg subject data i) = Some i"
  by (simp add: msg_id_def build_msg_def)

text \<open>
  A stream with a duplicate window. \<open>stored w\<close> is what the stream has stored after the publish attempts
  \<open>w\<close>, with the times; the \<open>n\<close>-th attempt reaches the server at time \<open>clock n\<close>. A message is a duplicate when a
  message with its \<open>Nats-Msg-Id\<close> was stored less than the window before. A duplicate is acknowledged and
  not stored; any other message that is acknowledged is stored; one whose answer is an error may or
  may not be.
\<close>

definition is_duplicate :: "nat \<Rightarrow> nat \<Rightarrow> (nat \<times> nats_msg) list \<Rightarrow> nats_msg \<Rightarrow> bool" where
  "is_duplicate window now log msg \<longleftrightarrow>
     list_ex (\<lambda>(t, m). msg_id m \<noteq> None \<and> msg_id m = msg_id msg \<and> now < t + window) log"

definition duplicate_window_law ::
  "nat \<Rightarrow> (nat \<Rightarrow> nat) \<Rightarrow> js_server \<Rightarrow> (world \<Rightarrow> (nat \<times> nats_msg) list) \<Rightarrow> bool" where
  "duplicate_window_law window clock js stored \<longleftrightarrow> stored [] = [] \<and>
     (\<forall>w a. if is_duplicate window (clock (length w)) (stored w) (at_Msg a) then stored (w @ [a]) = stored w
        else if at_Reply a = JsErr then stored (w @ [a]) \<in> {stored w, stored w @ [(clock (length w), at_Msg a)]}
        else stored (w @ [a]) = stored w @ [(clock (length w), at_Msg a)]) \<and>
     (\<forall>w ctx msg stream. is_duplicate window (clock (length w)) (stored w) msg \<longrightarrow> js w ctx msg stream = JsAck (Some stream))"

lemma stored_step:
  assumes "duplicate_window_law window clock js stored"
  shows "if is_duplicate window (clock (length w)) (stored w) (at_Msg a) then stored (w @ [a]) = stored w
     else if at_Reply a = JsErr then stored (w @ [a]) \<in> {stored w, stored w @ [(clock (length w), at_Msg a)]}
     else stored (w @ [a]) = stored w @ [(clock (length w), at_Msg a)]"
  using assms unfolding duplicate_window_law_def by (elim conjE allE)

lemma duplicate_acked:
  "duplicate_window_law window clock js stored \<Longrightarrow> is_duplicate window (clock (length w)) (stored w) msg \<Longrightarrow>
     js w ctx msg stream = JsAck (Some stream)"
  unfolding duplicate_window_law_def by blast

lemma stored_grows:
  assumes "duplicate_window_law window clock js stored"
  shows "set (stored w) \<subseteq> set (stored (w @ later))"
proof (induction later rule: rev_induct)
  case (snoc a later)
  with stored_step [OF assms, of "w @ later" a] show ?case by (auto split: if_splits)
qed simp

lemma to_lower_char_separator:
  "to_lower_char c \<in> {CHR ''.'', CHR '' '', CHR ''*'', CHR ''>''} \<longleftrightarrow> c \<in> {CHR ''.'', CHR '' '', CHR ''*'', CHR ''>''}"
proof (cases "65 \<le> (of_char c :: nat) \<and> (of_char c :: nat) \<le> 90")
  case True
  then have "(of_char (to_lower_char c) :: nat) \<ge> 97" by (simp add: to_lower_char_def)
  with True show ?thesis by (auto simp del: of_char_Char) auto
next
  case False
  then have "to_lower_char c = c" unfolding to_lower_char_def by (rule if_not_P)
  then show ?thesis by simp
qed

section \<open>Properties\<close>

text \<open>
  Message identifiers: two swaps have the same identifier exactly when slot, signature and
  index agree, two transactions exactly when slot and signature agree, two block heads exactly
  when the slot agrees; and a block head never has the identifier of a swap or a transaction.
\<close>

theorem message_ids_identify:
  "(swap_msgID a = swap_msgID b) = (se_Slot a = se_Slot b \<and> se_Sig a = se_Sig b \<and> se_Index a = se_Index b)
   \<and> (tx_msgID s = tx_msgID t) = (tm_Slot s = tm_Slot t \<and> tm_Sig s = tm_Sig t)
   \<and> (head_msgID g = head_msgID h) = (bh_Slot g = bh_Slot h)
   \<and> head_msgID h \<noteq> swap_msgID a \<and> head_msgID h \<noteq> tx_msgID s"
  by (simp add: swap_msgID_iff tx_msgID_iff head_msgID_iff head_id_not_longer)

text \<open>
  (C32) On a stream with a duplicate window, take a swap whose slot, signature and index are new to the
  stream and which was accepted. Whatever is published after it, as long as the window has not passed,
  publishing the swap again with other content (finalized, or an undo) is acknowledged, so the
  publisher reports success, but the stream does not store it.
\<close>

theorem later_status_discarded:
  assumes "duplicate_window_law window clock js stored"
    and "\<not> list_ex (\<lambda>(t, m). msg_id m = Some (swap_msgID ev)) (stored w)"
    and "PublishSwap marshal js cfg ctx (Some ev) w = (w1, None)"
    and "clock (length (w1 @ later)) < clock (length w) + window"
    and "se_Slot ev' = se_Slot ev" and "se_Sig ev' = se_Sig ev" and "se_Index ev' = se_Index ev"
    and "marshal (MsgSwap ev') \<noteq> None"
  shows "\<exists>w2. PublishSwap marshal js cfg ctx' (Some ev') (w1 @ later) = (w2, None) \<and> stored w2 = stored (w1 @ later)"
proof -
  have ids: "swap_msgID ev' = swap_msgID ev" using assms by (simp add: swap_msgID_def)
  have nonempty: "swap_msgID ev \<noteq> []" by (simp add: swap_msgID_def)
  obtain data a where w1: "w1 = w @ [a]" and a: "at_Msg a = build_msg (swap_subject cfg ev) data (swap_msgID ev)"
      "at_Reply a \<noteq> JsErr"
    using assms(3) by (auto simp: PublishSwap_def publish_def reply_error_def Let_def split: option.splits js_reply.splits)
  have "\<not> is_duplicate window (clock (length w)) (stored w) (at_Msg a)"
    using assms(2) by (auto simp: is_duplicate_def list_ex_iff a msg_id_build [OF nonempty])
  then have "(clock (length w), at_Msg a) \<in> set (stored w1)"
    using stored_step [OF assms(1), of w a] a(2) by (simp add: w1)
  then have "(clock (length w), at_Msg a) \<in> set (stored (w1 @ later))"
    using stored_grows [OF assms(1)] by blast
  then have dup: "is_duplicate window (clock (length (w1 @ later))) (stored (w1 @ later)) (build_msg subject d (swap_msgID ev'))"
    for subject d
    using assms(4) by (auto simp: is_duplicate_def list_ex_iff a msg_id_build [OF nonempty] ids intro!: bexI)
  obtain d where d: "marshal (MsgSwap ev') = Some d" using assms(8) by blast
  let ?msg = "build_msg (swap_subject cfg ev') d (swap_msgID ev')"
  have "js (w1 @ later) ctx'' ?msg stream = JsAck (Some stream)" for ctx'' stream
    by (rule duplicate_acked [OF assms(1) dup])
  moreover have "stored ((w1 @ later) @ [\<lparr>at_Message = MsgSwap ev', at_Msg = ?msg, at_Reply = r\<rparr>]) = stored (w1 @ later)" for r
    using stored_step [OF assms(1), of "w1 @ later" "\<lparr>at_Message = MsgSwap ev', at_Msg = ?msg, at_Reply = r\<rparr>"] dup
    by (simp del: append_assoc)
  ultimately show ?thesis
    by (simp add: PublishSwap_def publish_def reply_error_def d Let_def)
qed

fun sample_stored_rev :: "nat \<Rightarrow> attempt list \<Rightarrow> (nat \<times> nats_msg) list" where
  "sample_stored_rev window [] = []"
| "sample_stored_rev window (a # as) =
     (let log = sample_stored_rev window as
      in if at_Reply a = JsErr \<or> is_duplicate window (length as) log (at_Msg a) then log
         else log @ [(length as, at_Msg a)])"

definition sample_stored :: "nat \<Rightarrow> world \<Rightarrow> (nat \<times> nats_msg) list" where
  "sample_stored window w = sample_stored_rev window (rev w)"

lemma sample_stored_law: "duplicate_window_law window id (\<lambda>_ _ _ stream. JsAck (Some stream)) (sample_stored window)"
  by (simp add: duplicate_window_law_def sample_stored_def Let_def)

text \<open>The property at a provisional swap, a block head after it and then the finalized copy, on a server
  that acknowledges everything and has a window of 120 ticks.\<close>

theorem later_status_discarded_witness:
  "let js = (\<lambda>_ _ _ stream. JsAck (Some stream));
       other = \<lparr>at_Message = MsgBlockHead \<lparr>bh_ChainId = 501, bh_Slot = 0, bh_TsSec = 0, bh_Status = ''confirmed''\<rparr>,
         at_Msg = build_msg ''dex.sol.blocks.head'' [] ''501:0'', at_Reply = JsAck None\<rparr>
   in \<exists>w1 w2. PublishSwap (\<lambda>_. Some []) js Nats_DefaultConfig None (Some (zero_SwapEvent\<lparr>se_Provisional := True\<rparr>)) [] = (w1, None)
     \<and> length (sample_stored 120 w1) = 1
     \<and> PublishSwap (\<lambda>_. Some []) js Nats_DefaultConfig None (Some zero_SwapEvent) (w1 @ [other]) = (w2, None)
     \<and> sample_stored 120 w2 = sample_stored 120 (w1 @ [other])"
proof -
  let ?js = "\<lambda>_ _ _ stream. JsAck (Some stream)"
  obtain w1 where w1: "PublishSwap (\<lambda>_. Some []) ?js Nats_DefaultConfig None
      (Some (zero_SwapEvent\<lparr>se_Provisional := True\<rparr>)) [] = (w1, None)" and one: "length (sample_stored 120 w1) = 1" "length w1 = 1"
    by (simp add: PublishSwap_def publish_def reply_error_def sample_stored_def is_duplicate_def Let_def)
  have fresh: "\<not> list_ex (\<lambda>(t, m). msg_id m = Some i) (sample_stored 120 [])" for i
    by (simp add: sample_stored_def)
  show ?thesis
    using later_status_discarded [OF sample_stored_law fresh w1, of _ zero_SwapEvent None] w1 one
    by (simp add: Let_def)
qed

text \<open>
  A configuration read from the environment is valid: it names a server and a stream and its
  publish timeout is positive; and with a valid configuration every publish call runs under a
  deadline, its own or the configured one.
\<close>

theorem publish_has_deadline:
  assumes "Nats_FromEnv env = Inr cfg"
  shows "nc_URL cfg \<noteq> [] \<and> nc_Stream cfg \<noteq> [] \<and> nc_SubjectRoot cfg \<noteq> [] \<and> 0 <s nc_PublishTimeout cfg
    \<and> ctx_Deadline (ensureTimeout cfg parent) =
        (case Option.bind parent ctx_Deadline of Some t \<Rightarrow> Some t | None \<Rightarrow> Some (nc_PublishTimeout cfg))"
proof -
  have "Nats_Validate cfg = None"
    using assms by (auto simp: Nats_FromEnv_def Let_def split: if_splits sum.splits option.splits)
  then show ?thesis
    by (auto simp: Nats_Validate_def ensureTimeout_def word_sle_eq word_sless_alt Let_def
        split: if_splits option.splits)
qed

definition sample_env :: environ where
  "sample_env name = (if name = ''NATS_URL'' then ''nats://localhost:4222'' else if name = ''NATS_STREAM'' then ''DEX''
     else if name = ''NATS_PUBLISH_TIMEOUT_MS'' then ''250'' else [])"

text \<open>The property at an environment with a timeout of 250 milliseconds.\<close>

theorem publish_has_deadline_witness:
  "\<exists>cfg. Nats_FromEnv sample_env = Inr cfg \<and> ctx_Deadline (ensureTimeout cfg None) = Some 250000000"
proof -
  obtain cfg where cfg: "Nats_FromEnv sample_env = Inr cfg" and t: "nc_PublishTimeout cfg = 250000000"
    by (simp add: Nats_FromEnv_def sample_env_def Nats_DefaultConfig_def Nats_Validate_def strconv_Atoi_def
        atoi_unsigned_def is_digit_def digit_val_def time_Millisecond_def word_sle_eq Let_def)
  with publish_has_deadline [OF cfg, of None] show ?thesis by auto
qed

text \<open>
  The program segment of a swap subject is one token of a subject: whatever the program id, it has
  at most 16 characters and none of them is a token separator, a blank or a wildcard.
\<close>

theorem programSegment_token:
  "length (programSegment p) \<le> 16 \<and> set (programSegment p) \<inter> {CHR ''.'', CHR '' '', CHR ''*'', CHR ''>''} = {}"
proof (cases "map_get programSubjectAliases p")
  case None
  let ?bad = "{CHR ''.'', CHR '' '', CHR ''*'', CHR ''>''}"
  let ?cleaned = "filter (\<lambda>r. r \<notin> ?bad) p"
  have "set (ToLower (if length ?cleaned > 16 then take 16 ?cleaned else ?cleaned)) \<inter> ?bad = {}"
    using to_lower_char_separator by (fastforce simp: ToLower_def dest: in_set_takeD split: if_splits)
  with None show ?thesis by (auto simp: programSegment_def ToLower_def Let_def)
next
  case (Some seg)
  then have "seg \<in> {''raydium'', ''orca'', ''meteora''}"
    by (auto simp: programSubjectAliases_def map_get_def split: if_splits)
  with Some show ?thesis by (auto simp: programSegment_def)
qed

end
