(* ===== verification/Orchestrator.thy ===== *)
theory Orchestrator
  imports Publisher
begin

text \<open>
  The backfill orchestrator: \<open>backfill/orchestrator\<close> (\<open>config.go\<close>, \<open>orchestrator.go\<close>). The
  producer's loop body is a function of the current start slot; \<open>Run\<close> is a step relation in which
  the producer, the workers and cancellation interleave freely over an unbuffered channel.
\<close>

section \<open>backfill/orchestrator/config.go\<close>

text \<open>\<open>Concurrency\<close> is a Go \<open>int\<close>; it is only compared with zero and counted up to.\<close>

record BackfillConfig =
  bc_StartSlot :: u64
  bc_EndSlot :: u64
  bc_BatchSize :: u64
  bc_Concurrency :: int

definition Backfill_DefaultConfig :: BackfillConfig where
  "Backfill_DefaultConfig = \<lparr>bc_StartSlot = 0, bc_EndSlot = 0, bc_BatchSize = 10000, bc_Concurrency = 4\<rparr>"

datatype backfill_error =
    StartNotBeforeEnd | BatchSizeZero | ConcurrencyNotPositive
  | BadEnvUint string parse_error | BadEnvInt string parse_error

definition Backfill_Validate :: "BackfillConfig \<Rightarrow> backfill_error option" where
  "Backfill_Validate c =
     (if bc_EndSlot c \<noteq> 0 \<and> bc_StartSlot c \<ge> bc_EndSlot c then Some StartNotBeforeEnd
      else if bc_BatchSize c = 0 then Some BatchSizeZero
      else if bc_Concurrency c \<le> 0 then Some ConcurrencyNotPositive
      else None)"

definition env_uint :: "environ \<Rightarrow> string \<Rightarrow> u64 \<Rightarrow> backfill_error + u64" where
  "env_uint env name old =
     (if env name = [] then Inr old
      else case strconv_ParseUint (env name) of Inl err \<Rightarrow> Inl (BadEnvUint name err) | Inr v \<Rightarrow> Inr v)"

definition Backfill_FromEnv :: "environ \<Rightarrow> backfill_error + BackfillConfig" where
  "Backfill_FromEnv env =
     (let cfg = Backfill_DefaultConfig in
      case env_uint env ''BACKFILL_START_SLOT'' (bc_StartSlot cfg) of Inl err \<Rightarrow> Inl err | Inr startSlot \<Rightarrow>
      case env_uint env ''BACKFILL_END_SLOT'' (bc_EndSlot cfg) of Inl err \<Rightarrow> Inl err | Inr endSlot \<Rightarrow>
      case env_uint env ''BACKFILL_BATCH_SIZE'' (bc_BatchSize cfg) of Inl err \<Rightarrow> Inl err | Inr batchSize \<Rightarrow>
      case (if env ''BACKFILL_CONCURRENCY'' = [] then Inr (bc_Concurrency cfg)
            else case strconv_Atoi (env ''BACKFILL_CONCURRENCY'') of
              Inl err \<Rightarrow> Inl (BadEnvInt ''BACKFILL_CONCURRENCY'' err) | Inr conc \<Rightarrow> Inr conc) of
        Inl err \<Rightarrow> Inl err | Inr conc \<Rightarrow>
      let c = \<lparr>bc_StartSlot = startSlot, bc_EndSlot = endSlot, bc_BatchSize = batchSize, bc_Concurrency = conc\<rparr>
      in case Backfill_Validate c of Some err \<Rightarrow> Inl err | None \<Rightarrow> Inr c)"

section \<open>backfill/orchestrator/orchestrator.go: ranges\<close>

record Range =
  rg_StartSlot :: u64
  rg_EndSlot :: u64

definition Range_valid :: "Range \<Rightarrow> bool" where
  "Range_valid r \<longleftrightarrow> rg_EndSlot r > rg_StartSlot r"

definition MaxUint64 :: u64 where "MaxUint64 = - 1"

definition addWithOverflow :: "u64 \<Rightarrow> u64 \<Rightarrow> u64 \<times> bool" where
  "addWithOverflow start delta =
     (if delta = 0 then (start, False)
      else if MaxUint64 - start < delta then (MaxUint64, True)
      else (start + delta, False))"

text \<open>One iteration of the producer's loop after the cancellation check.\<close>

datatype producer_action =
    ProducerReturn
  | ProducerError u64 u64
  | ProducerSend Range bool

definition producer_body :: "BackfillConfig \<Rightarrow> u64 \<Rightarrow> producer_action" where
  "producer_body cfg start =
     (let limit = bc_EndSlot cfg; hasLimit = (limit \<noteq> 0) in
      if hasLimit \<and> start \<ge> limit then ProducerReturn
      else
        let (batchEnd0, overflow) = addWithOverflow start (bc_BatchSize cfg);
            batchEnd = (if hasLimit \<and> batchEnd0 > limit then limit else batchEnd0);
            rng = \<lparr>rg_StartSlot = start, rg_EndSlot = batchEnd\<rparr>
        in if \<not> Range_valid rng then
             (if overflow then ProducerReturn else ProducerError start batchEnd)
           else ProducerSend rng (\<not> hasLimit \<and> overflow))"

text \<open>
  The whole loop when nothing is cancelled: the ranges it sends, and the error it returns with.
  It ends because every range it sends moves the start slot up.
\<close>

lemma producer_body_send:
  assumes "producer_body cfg start = ProducerSend rng stop"
  shows "rg_StartSlot rng = start" and "start < rg_EndSlot rng"
  using assms by (auto simp: producer_body_def Range_valid_def Let_def split: if_splits prod.splits)

function producer_loop :: "BackfillConfig \<Rightarrow> u64 \<Rightarrow> Range list \<times> (u64 \<times> u64) option" where
  "producer_loop cfg start =
     (case producer_body cfg start of
        ProducerReturn \<Rightarrow> ([], None)
      | ProducerError s e \<Rightarrow> ([], Some (s, e))
      | ProducerSend rng stop \<Rightarrow>
          if stop then ([rng], None)
          else (case producer_loop cfg (rg_EndSlot rng) of (rs, err) \<Rightarrow> (rng # rs, err)))"
  by pat_completeness auto

termination
proof (relation "measure (\<lambda>(cfg, start). 2 ^ 64 - unat start)")
  fix cfg start rng stop
  assume "producer_body cfg start = ProducerSend rng stop"
  then have "unat start < unat (rg_EndSlot rng)"
    by (auto dest: producer_body_send simp: word_less_nat_alt)
  then show "((cfg, rg_EndSlot rng), (cfg, start)) \<in> measure (\<lambda>(cfg, start). 2 ^ 64 - unat start)"
    using unat_u64_less [of "rg_EndSlot rng"] by auto
qed simp

declare producer_loop.simps [simp del]

section \<open>backfill/orchestrator/orchestrator.go: Run\<close>

datatype producer_status = Producing u64 | ProducerDone

datatype worker = Idle | Busy Range | Stopped

datatype 'e run_error = CtxCanceled | InvalidRange u64 u64 | RangeFailed Range 'e

record 'e run_state =
  rn_producer :: producer_status
  rn_workers :: "worker list"
  rn_canceled :: bool
  rn_err :: "'e run_error option"
  rn_done :: "Range list"

definition run_init :: "BackfillConfig \<Rightarrow> 'e run_state" where
  "run_init cfg = \<lparr>rn_producer = Producing (bc_StartSlot cfg),
     rn_workers = replicate (nat (bc_Concurrency cfg)) Idle, rn_canceled = False, rn_err = None, rn_done = []\<rparr>"

text \<open>A goroutine of the group that returns an error: the first one is kept, the context is cancelled.\<close>

definition group_fail :: "'e run_error \<Rightarrow> 'e run_state \<Rightarrow> 'e run_state" where
  "group_fail err s = s\<lparr>rn_canceled := True, rn_err := (case rn_err s of None \<Rightarrow> Some err | Some e \<Rightarrow> Some e)\<rparr>"

inductive run_step :: "BackfillConfig \<Rightarrow> 'e run_state \<Rightarrow> 'e run_state \<Rightarrow> bool" for cfg where
  parent_cancel: "run_step cfg s (s\<lparr>rn_canceled := True\<rparr>)"
| producer_canceled: "rn_producer s = Producing start \<Longrightarrow> rn_canceled s \<Longrightarrow>
    run_step cfg s (group_fail CtxCanceled (s\<lparr>rn_producer := ProducerDone\<rparr>))"
| producer_return: "rn_producer s = Producing start \<Longrightarrow> producer_body cfg start = ProducerReturn \<Longrightarrow>
    run_step cfg s (s\<lparr>rn_producer := ProducerDone\<rparr>)"
| producer_error: "rn_producer s = Producing start \<Longrightarrow> producer_body cfg start = ProducerError a b \<Longrightarrow>
    run_step cfg s (group_fail (InvalidRange a b) (s\<lparr>rn_producer := ProducerDone\<rparr>))"
| send: "rn_producer s = Producing start \<Longrightarrow> producer_body cfg start = ProducerSend rng stop \<Longrightarrow>
    i < length (rn_workers s) \<Longrightarrow> rn_workers s ! i = Idle \<Longrightarrow>
    run_step cfg s (s\<lparr>rn_workers := (rn_workers s)[i := Busy rng],
      rn_producer := (if stop then ProducerDone else Producing (rg_EndSlot rng))\<rparr>)"
| worker_ok: "i < length (rn_workers s) \<Longrightarrow> rn_workers s ! i = Busy rng \<Longrightarrow>
    run_step cfg s (s\<lparr>rn_workers := (rn_workers s)[i := Idle], rn_done := rn_done s @ [rng]\<rparr>)"
| worker_fail: "i < length (rn_workers s) \<Longrightarrow> rn_workers s ! i = Busy rng \<Longrightarrow>
    run_step cfg s (group_fail (RangeFailed rng e) (s\<lparr>rn_workers := (rn_workers s)[i := Stopped]\<rparr>))"
| worker_exit: "i < length (rn_workers s) \<Longrightarrow> rn_workers s ! i = Idle \<Longrightarrow> rn_producer s = ProducerDone \<Longrightarrow>
    run_step cfg s (s\<lparr>rn_workers := (rn_workers s)[i := Stopped]\<rparr>)"

definition run_finished :: "'e run_state \<Rightarrow> bool" where
  "run_finished s \<longleftrightarrow> rn_producer s = ProducerDone \<and> list_all (\<lambda>w. w = Stopped) (rn_workers s)"

inductive_cases run_stepE: "run_step cfg s s'"

section \<open>Lemmas on the producer\<close>

text \<open>Consecutive ranges from \<open>a\<close> to \<open>b\<close>, none empty and none longer than the batch size.\<close>

fun contiguous :: "u64 \<Rightarrow> u64 \<Rightarrow> Range list \<Rightarrow> u64 \<Rightarrow> bool" where
  "contiguous batch a [] b \<longleftrightarrow> a = b"
| "contiguous batch a (r # rs) b \<longleftrightarrow>
     rg_StartSlot r = a \<and> a < rg_EndSlot r \<and> rg_EndSlot r - a \<le> batch \<and> contiguous batch (rg_EndSlot r) rs b"

definition span_end :: "BackfillConfig \<Rightarrow> u64" where
  "span_end cfg = (if bc_EndSlot cfg = 0 then MaxUint64 else bc_EndSlot cfg)"

lemma addWithOverflow_cases:
  assumes "delta \<noteq> 0"
  shows "addWithOverflow a delta =
    (if unat a + unat delta < 2 ^ 64 then (a + delta, False) else (MaxUint64, True))"
proof -
  have "unat (MaxUint64 - a) = 2 ^ 64 - 1 - unat a"
    using unat_sub [of a "- 1"] unat_max_u64 by (simp add: MaxUint64_def)
  then have "MaxUint64 - a < delta \<longleftrightarrow> \<not> unat a + unat delta < 2 ^ 64"
    using unat_u64_less [of a] by (auto simp: word_less_nat_alt)
  then show ?thesis using assms by (simp add: addWithOverflow_def)
qed

lemma le_max_u64: "(a :: u64) \<le> MaxUint64"
  by (simp add: MaxUint64_def)

lemma unat_MaxUint64: "unat MaxUint64 = 2 ^ 64 - 1"
  by (simp add: MaxUint64_def unat_max_u64)

definition batch_end :: "BackfillConfig \<Rightarrow> u64 \<Rightarrow> u64" where
  "batch_end cfg a = (let e0 = fst (addWithOverflow a (bc_BatchSize cfg))
     in if bc_EndSlot cfg \<noteq> 0 \<and> e0 > bc_EndSlot cfg then bc_EndSlot cfg else e0)"

lemma producer_body_batch:
  "producer_body cfg a =
     (if bc_EndSlot cfg \<noteq> 0 \<and> a \<ge> bc_EndSlot cfg then ProducerReturn
      else if \<not> a < batch_end cfg a then
        (if snd (addWithOverflow a (bc_BatchSize cfg)) then ProducerReturn else ProducerError a (batch_end cfg a))
      else ProducerSend \<lparr>rg_StartSlot = a, rg_EndSlot = batch_end cfg a\<rparr>
        (bc_EndSlot cfg = 0 \<and> snd (addWithOverflow a (bc_BatchSize cfg))))"
  by (simp add: producer_body_def batch_end_def Range_valid_def Let_def split: prod.split)

lemma unat_batch_end:
  assumes "bc_BatchSize cfg \<noteq> 0"
  shows "unat (batch_end cfg a) = min (unat a + unat (bc_BatchSize cfg)) (unat (span_end cfg))"
proof -
  have e0: "unat (fst (addWithOverflow a (bc_BatchSize cfg))) = min (unat a + unat (bc_BatchSize cfg)) (2 ^ 64 - 1)"
    by (auto simp: addWithOverflow_cases [OF assms] unat_MaxUint64 unat_word_ariths)
  have "unat (bc_EndSlot cfg) \<le> 2 ^ 64 - 1"
    using unat_u64_less [of "bc_EndSlot cfg"] by simp
  then show ?thesis
    using e0 by (auto simp: batch_end_def span_end_def unat_MaxUint64 word_less_nat_alt Let_def)
qed

lemma producer_body_cases:
  assumes "bc_BatchSize cfg \<noteq> 0" and "a \<le> span_end cfg"
  shows "if a = span_end cfg then producer_body cfg a = ProducerReturn
    else \<exists>r stop. producer_body cfg a = ProducerSend r stop \<and> rg_StartSlot r = a \<and> a < rg_EndSlot r
      \<and> rg_EndSlot r \<le> span_end cfg \<and> rg_EndSlot r - a \<le> bc_BatchSize cfg
      \<and> (stop \<longrightarrow> rg_EndSlot r = span_end cfg)"
proof (cases "a = span_end cfg")
  case True
  have "snd (addWithOverflow a (bc_BatchSize cfg))" if "bc_EndSlot cfg = 0"
    using that True assms(1) by (simp add: addWithOverflow_cases span_end_def unat_MaxUint64 unat_gt_0)
  moreover have "\<not> a < batch_end cfg a"
    using unat_batch_end [OF assms(1), of a] True by (simp add: word_less_nat_alt)
  ultimately show ?thesis using True by (auto simp: producer_body_batch span_end_def)
next
  case False
  have "0 < unat (bc_BatchSize cfg)" using assms(1) by (simp add: unat_gt_0)
  then have less: "a < batch_end cfg a" and le: "batch_end cfg a \<le> span_end cfg"
    using unat_batch_end [OF assms(1), of a] False assms(2) by (auto simp: word_less_nat_alt word_le_nat_alt word_unat_eq_iff)
  have "batch_end cfg a - a \<le> bc_BatchSize cfg"
    using unat_batch_end [OF assms(1), of a] unat_sub [OF less_imp_le [OF less]]
    by (simp add: word_le_nat_alt)
  moreover have "\<not> (bc_EndSlot cfg \<noteq> 0 \<and> a \<ge> bc_EndSlot cfg)"
    using False assms(2) by (auto simp: span_end_def)
  moreover have "batch_end cfg a = span_end cfg" if "bc_EndSlot cfg = 0" "snd (addWithOverflow a (bc_BatchSize cfg))"
    using that assms(1) by (auto simp: batch_end_def span_end_def addWithOverflow_cases split: if_splits)
  ultimately show ?thesis
    using False less le by (simp add: producer_body_batch)
qed

lemma producer_loop_contiguous:
  assumes "bc_BatchSize cfg \<noteq> 0" and "a \<le> span_end cfg"
  shows "snd (producer_loop cfg a) = None \<and> contiguous (bc_BatchSize cfg) a (fst (producer_loop cfg a)) (span_end cfg)"
  using assms
proof (induction cfg a rule: producer_loop.induct)
  case (1 cfg a)
  show ?case
  proof (cases "a = span_end cfg")
    case True
    then show ?thesis using producer_body_cases [OF "1.prems"] by (simp add: producer_loop.simps)
  next
    case False
    then obtain r stop where body: "producer_body cfg a = ProducerSend r stop"
      and r: "rg_StartSlot r = a" "a < rg_EndSlot r" "rg_EndSlot r \<le> span_end cfg"
        "rg_EndSlot r - a \<le> bc_BatchSize cfg" "stop \<longrightarrow> rg_EndSlot r = span_end cfg"
      using producer_body_cases [OF "1.prems"] by auto
    show ?thesis
    proof (cases stop)
      case True
      then show ?thesis using body r by (simp add: producer_loop.simps [of cfg a])
    next
      case False
      from "1.IH" [OF body False "1.prems"(1) r(3)] False show ?thesis
        using body r by (auto simp: producer_loop.simps [of cfg a] split: prod.splits)
    qed
  qed
qed

text \<open>Contiguous ranges cover every slot of the span exactly once.\<close>

definition in_range :: "u64 \<Rightarrow> Range \<Rightarrow> bool" where
  "in_range slot r \<longleftrightarrow> rg_StartSlot r \<le> slot \<and> slot < rg_EndSlot r"

lemma contiguous_le: "contiguous batch a rs b \<Longrightarrow> a \<le> b"
  by (induction rs arbitrary: a) (auto intro: order.trans less_imp_le)

lemma contiguous_cover:
  "contiguous batch a rs b \<Longrightarrow> length (filter (in_range slot) rs) = (if a \<le> slot \<and> slot < b then 1 else 0)"
proof (induction rs arbitrary: a)
  case (Cons r rs)
  from Cons.prems have rest: "contiguous batch (rg_EndSlot r) rs b" and r: "rg_StartSlot r = a" "a < rg_EndSlot r"
    by simp_all
  from contiguous_le [OF rest] Cons.IH [OF rest] r show ?case
    by (auto simp: in_range_def)
qed auto

section \<open>Lemmas on Run\<close>

definition worker_ranges :: "worker \<Rightarrow> Range multiset" where
  "worker_ranges w = (case w of Busy r \<Rightarrow> {#r#} | _ \<Rightarrow> {#})"

definition in_flight :: "worker list \<Rightarrow> Range multiset" where
  "in_flight ws = sum_list (map worker_ranges ws)"

definition to_send :: "BackfillConfig \<Rightarrow> producer_status \<Rightarrow> Range list" where
  "to_send cfg ps = (case ps of Producing a \<Rightarrow> fst (producer_loop cfg a) | ProducerDone \<Rightarrow> [])"

lemma in_flight_update:
  assumes "i < length ws"
  shows "in_flight (ws[i := w]) + worker_ranges (ws ! i) = in_flight ws + worker_ranges w"
  using assms
proof (induction ws arbitrary: i)
  case (Cons v ws)
  then show ?case
    by (cases i) (auto simp: in_flight_def nth_Cons' add.assoc add.commute add.left_commute)
qed simp

text \<open>
  While nothing has failed, the ranges done, the ranges being worked on and the ranges still to be
  sent make up exactly what the producer's loop produces; a worker has stopped only when the
  producer has finished or something has failed.
\<close>

definition run_inv :: "BackfillConfig \<Rightarrow> 'e run_state \<Rightarrow> bool" where
  "run_inv cfg s \<longleftrightarrow>
     length (rn_workers s) = nat (bc_Concurrency cfg)
     \<and> (rn_err s \<noteq> None \<longrightarrow> rn_canceled s)
     \<and> (rn_err s = None \<longrightarrow>
          mset (rn_done s) + in_flight (rn_workers s) + mset (to_send cfg (rn_producer s))
            = mset (fst (producer_loop cfg (bc_StartSlot cfg))))
     \<and> (Stopped \<in> set (rn_workers s) \<longrightarrow> rn_producer s = ProducerDone \<or> rn_canceled s)"

lemma in_flight_replicate [simp]: "in_flight (replicate n Idle) = {#}"
  by (induction n) (auto simp: in_flight_def worker_ranges_def)

lemma in_flight_stopped: "list_all (\<lambda>w. w = Stopped) ws \<Longrightarrow> in_flight ws = {#}"
  by (induction ws) (auto simp: in_flight_def worker_ranges_def)

lemma run_inv_init: "run_inv cfg (run_init cfg)"
  by (simp add: run_inv_def run_init_def to_send_def)

lemma to_send_body:
  "producer_body cfg a = ProducerReturn \<Longrightarrow> to_send cfg (Producing a) = []"
  "producer_body cfg a = ProducerSend r stop \<Longrightarrow>
     to_send cfg (Producing a) = r # to_send cfg (if stop then ProducerDone else Producing (rg_EndSlot r))"
  by (simp_all add: to_send_def producer_loop.simps [of cfg a] split: prod.splits)

lemma set_update_Stopped: "Stopped \<in> set (ws[i := w]) \<Longrightarrow> w = Stopped \<or> Stopped \<in> set ws"
  using set_update_subset_insert [of ws i w] by auto

lemma run_inv_step: "run_step cfg s s' \<Longrightarrow> run_inv cfg s \<Longrightarrow> run_inv cfg s'"
proof (induction rule: run_step.induct)
  case (send s start rng stop i)
  have "in_flight ((rn_workers s)[i := Busy rng]) = in_flight (rn_workers s) + {#rng#}"
    using in_flight_update [OF send(3), of "Busy rng"] send(4) by (simp add: worker_ranges_def)
  with send to_send_body(2) [OF send(2)] show ?case
    by (auto simp: run_inv_def dest: set_update_Stopped)
next
  case (worker_ok i s rng)
  have "in_flight (rn_workers s) = add_mset rng (in_flight ((rn_workers s)[i := Idle]))"
    using in_flight_update [OF worker_ok(1), of Idle] worker_ok(2) by (simp add: worker_ranges_def)
  with worker_ok show ?case
    by (auto simp: run_inv_def dest: set_update_Stopped)
next
  case (worker_exit i s)
  have "in_flight ((rn_workers s)[i := Stopped]) = in_flight (rn_workers s)"
    using in_flight_update [OF worker_exit(1), of Stopped] worker_exit(2) by (simp add: worker_ranges_def)
  with worker_exit show ?case by (auto simp: run_inv_def)
next
  case (producer_return s start)
  with to_send_body(1) [OF producer_return(2)] show ?case by (auto simp: run_inv_def to_send_def)
qed (auto simp: run_inv_def group_fail_def split: option.splits)

lemma run_inv_reachable: "(run_step cfg)\<^sup>*\<^sup>* (run_init cfg) s \<Longrightarrow> run_inv cfg s"
  by (induction rule: rtranclp_induct) (auto intro: run_inv_init run_inv_step)

text \<open>Progress: a weight that every step but a cancellation from outside decreases.\<close>

definition worker_weight :: "worker \<Rightarrow> nat" where
  "worker_weight w = (case w of Idle \<Rightarrow> 1 | Busy _ \<Rightarrow> 2 | Stopped \<Rightarrow> 0)"

definition run_weight :: "BackfillConfig \<Rightarrow> 'e run_state \<Rightarrow> nat" where
  "run_weight cfg s = 2 * length (to_send cfg (rn_producer s))
     + (case rn_producer s of Producing _ \<Rightarrow> 1 | ProducerDone \<Rightarrow> 0)
     + sum_list (map worker_weight (rn_workers s))"

lemma weight_update:
  assumes "i < length ws"
  shows "sum_list (map worker_weight (ws[i := w])) + worker_weight (ws ! i) = sum_list (map worker_weight ws) + worker_weight w"
  using assms
proof (induction ws arbitrary: i)
  case (Cons v ws)
  then show ?case by (cases i) auto
qed simp

lemma run_weight_step:
  "run_step cfg s s' \<Longrightarrow> s' = s\<lparr>rn_canceled := True\<rparr> \<or> run_weight cfg s' < run_weight cfg s"
proof (induction rule: run_step.induct)
  case (send s start rng stop i)
  then show ?case
    using weight_update [OF send(3), of "Busy rng"] to_send_body(2) [OF send(2)]
    by (auto simp: run_weight_def worker_weight_def)
next
  case (worker_ok i s rng)
  then show ?case using weight_update [OF worker_ok(1), of Idle] by (auto simp: run_weight_def worker_weight_def)
next
  case (worker_fail i s rng e)
  then show ?case using weight_update [OF worker_fail(1), of Stopped]
    by (auto simp: run_weight_def worker_weight_def group_fail_def)
next
  case (worker_exit i s)
  then show ?case using weight_update [OF worker_exit(1), of Stopped] by (auto simp: run_weight_def worker_weight_def)
qed (auto simp: run_weight_def group_fail_def to_send_def)

lemma producing_step:
  assumes "rn_producer s = Producing start" and "i < length (rn_workers s)" and "rn_workers s ! i = Idle"
  shows "\<exists>s'. run_step cfg s s' \<and> s' \<noteq> s\<lparr>rn_canceled := True\<rparr>"
proof (cases "producer_body cfg start")
  case ProducerReturn
  from producer_return [OF assms(1) this] assms(1) show ?thesis
    by (intro exI conjI) (assumption, auto dest: arg_cong [where f = rn_producer])
next
  case (ProducerError a b)
  from producer_error [OF assms(1) this] assms(1) show ?thesis
    by (intro exI conjI) (assumption, auto simp: group_fail_def dest: arg_cong [where f = rn_producer])
next
  case (ProducerSend rng stop)
  from send [OF assms(1) this assms(2,3)] assms(2,3) show ?thesis
    by (intro exI conjI) (assumption, auto dest: arg_cong [where f = "\<lambda>s. rn_workers s ! i"])
qed

lemma unfinished_step:
  assumes "run_inv cfg s" and "0 < bc_Concurrency cfg" and "\<not> run_finished s"
    and no_busy: "\<And>i r. i < length (rn_workers s) \<Longrightarrow> rn_workers s ! i \<noteq> Busy r"
  shows "\<exists>s'. run_step cfg s s' \<and> s' \<noteq> s\<lparr>rn_canceled := True\<rparr>"
proof (cases "rn_producer s")
  case ProducerDone
  then obtain i where "i < length (rn_workers s)" "rn_workers s ! i \<noteq> Stopped"
    using assms(3) by (auto simp: run_finished_def list_all_length)
  with no_busy have i: "i < length (rn_workers s)" "rn_workers s ! i = Idle" by (metis worker.exhaust)+
  from worker_exit [OF this ProducerDone] i show ?thesis
    by (intro exI conjI) (assumption, auto dest: arg_cong [where f = "\<lambda>s. rn_workers s ! i"])
next
  case (Producing start)
  show ?thesis
  proof (cases "\<exists>i < length (rn_workers s). rn_workers s ! i = Idle")
    case True
    then show ?thesis using producing_step [OF Producing] by blast
  next
    case False
    have "0 < length (rn_workers s)" using assms by (simp add: run_inv_def)
    with False no_busy have "Stopped \<in> set (rn_workers s)" by (metis nth_mem worker.exhaust)
    with assms(1) Producing have "rn_canceled s" by (auto simp: run_inv_def)
    from producer_canceled [OF Producing this] Producing show ?thesis
      by (intro exI conjI) (assumption, auto simp: group_fail_def dest: arg_cong [where f = rn_producer])
  qed
qed

lemma run_progress:
  assumes "run_inv cfg s" and "0 < bc_Concurrency cfg" and "\<not> run_finished s"
  shows "\<exists>s'. run_step cfg s s' \<and> run_weight cfg s' < run_weight cfg s"
proof -
  have "\<exists>s'. run_step cfg s s' \<and> s' \<noteq> s\<lparr>rn_canceled := True\<rparr>"
  proof (cases "\<exists>i r. i < length (rn_workers s) \<and> rn_workers s ! i = Busy r")
    case True
    then obtain i r where "i < length (rn_workers s)" "rn_workers s ! i = Busy r" by blast
    from worker_ok [OF this] show ?thesis by (intro exI conjI) (assumption, auto dest: arg_cong [where f = rn_done])
  next
    case False
    then show ?thesis using unfinished_step [OF assms] by blast
  qed
  then show ?thesis using run_weight_step by blast
qed

lemma valid_span:
  "Backfill_Validate cfg = None \<Longrightarrow> bc_BatchSize cfg \<noteq> 0 \<and> bc_StartSlot cfg \<le> span_end cfg \<and> 0 < bc_Concurrency cfg"
  using le_max_u64 by (auto simp: Backfill_Validate_def span_end_def split: if_splits)

section \<open>Properties\<close>

text \<open>
  (C10) With a valid configuration the producer's loop ends without an error, and the ranges it
  produces cut the span from the start slot to the end slot (to the largest slot number when there
  is no end slot) into consecutive, non-empty pieces of at most the batch size: every slot of the
  span is in exactly one range, no other slot in any.
\<close>

theorem producer_partitions_span:
  assumes "Backfill_Validate cfg = None"
  shows "snd (producer_loop cfg (bc_StartSlot cfg)) = None
    \<and> contiguous (bc_BatchSize cfg) (bc_StartSlot cfg) (fst (producer_loop cfg (bc_StartSlot cfg))) (span_end cfg)
    \<and> length (filter (in_range slot) (fst (producer_loop cfg (bc_StartSlot cfg)))) =
        (if bc_StartSlot cfg \<le> slot \<and> slot < span_end cfg then 1 else 0)"
  using producer_loop_contiguous contiguous_cover valid_span [OF assms] by blast

definition sample_backfill :: BackfillConfig where
  "sample_backfill = \<lparr>bc_StartSlot = 100, bc_EndSlot = 125, bc_BatchSize = 10, bc_Concurrency = 2\<rparr>"

text \<open>The property at the slots 100 to 125 in batches of 10: slot 117 is in exactly one range.\<close>

theorem producer_partitions_span_witness:
  "Backfill_Validate sample_backfill = None
   \<and> length (filter (in_range 117) (fst (producer_loop sample_backfill 100))) = 1"
proof -
  have valid: "Backfill_Validate sample_backfill = None"
    by (simp add: Backfill_Validate_def sample_backfill_def)
  show ?thesis
    using producer_partitions_span [OF valid, of 117] valid by (simp add: sample_backfill_def span_end_def)
qed

text \<open>
  (C2) Whatever the interleaving of the producer, the workers and cancellation: when all goroutines
  have ended and no error was recorded, the ranges processed are exactly the ranges of the span,
  each one once; so every slot of the span was processed exactly once.
\<close>

theorem run_processes_span_once:
  assumes "Backfill_Validate cfg = None" and "(run_step cfg)\<^sup>*\<^sup>* (run_init cfg) s"
    and "run_finished s" and "rn_err s = None"
  shows "mset (rn_done s) = mset (fst (producer_loop cfg (bc_StartSlot cfg)))
    \<and> length (filter (in_range slot) (rn_done s)) =
        (if bc_StartSlot cfg \<le> slot \<and> slot < span_end cfg then 1 else 0)"
proof -
  have eq: "mset (rn_done s) = mset (fst (producer_loop cfg (bc_StartSlot cfg)))"
    using run_inv_reachable [OF assms(2)] assms(3,4) by (auto simp: run_inv_def run_finished_def to_send_def in_flight_stopped)
  have "length (filter (in_range slot) (rn_done s)) = length (filter (in_range slot) (fst (producer_loop cfg (bc_StartSlot cfg))))"
    using arg_cong [OF eq, of "\<lambda>m. size (filter_mset (in_range slot) m)"] by (simp flip: mset_filter)
  moreover have "contiguous (bc_BatchSize cfg) (bc_StartSlot cfg) (fst (producer_loop cfg (bc_StartSlot cfg))) (span_end cfg)"
    using producer_loop_contiguous valid_span [OF assms(1)] by blast
  ultimately show ?thesis using eq contiguous_cover by metis
qed

definition small_backfill :: BackfillConfig where
  "small_backfill = \<lparr>bc_StartSlot = 0, bc_EndSlot = 5, bc_BatchSize = 10, bc_Concurrency = 1\<rparr>"

definition small_final :: "nat run_state" where
  "small_final = \<lparr>rn_producer = ProducerDone, rn_workers = [Stopped], rn_canceled = False, rn_err = None,
     rn_done = [\<lparr>rg_StartSlot = 0, rg_EndSlot = 5\<rparr>]\<rparr>"

lemma small_run: "(run_step small_backfill)\<^sup>*\<^sup>* (run_init small_backfill) small_final"
proof -
  let ?r = "\<lparr>rg_StartSlot = 0, rg_EndSlot = 5\<rparr>"
  let ?s = "\<lambda>p ws d. \<lparr>rn_producer = p, rn_workers = ws, rn_canceled = False, rn_err = None, rn_done = d\<rparr> :: nat run_state"
  have body: "producer_body small_backfill 0 = ProducerSend ?r False" "producer_body small_backfill 5 = ProducerReturn"
    by (simp_all add: producer_body_def small_backfill_def addWithOverflow_def MaxUint64_def Range_valid_def)
  have "run_step small_backfill (?s (Producing 0) [Idle] []) (?s (Producing 5) [Busy ?r] [])"
    using send [of "?s (Producing 0) [Idle] []" 0 small_backfill ?r False 0] body by simp
  moreover have "run_step small_backfill (?s (Producing 5) [Busy ?r] []) (?s (Producing 5) [Idle] [?r])"
    using worker_ok [of 0 "?s (Producing 5) [Busy ?r] []" ?r small_backfill] by simp
  moreover have "run_step small_backfill (?s (Producing 5) [Idle] [?r]) (?s ProducerDone [Idle] [?r])"
    using producer_return [of "?s (Producing 5) [Idle] [?r]" 5 small_backfill] body by simp
  moreover have "run_step small_backfill (?s ProducerDone [Idle] [?r]) small_final"
    using worker_exit [of 0 "?s ProducerDone [Idle] [?r]" small_backfill] by (simp add: small_final_def)
  moreover have "run_init small_backfill = ?s (Producing 0) [Idle] []"
    by (simp add: run_init_def small_backfill_def)
  ultimately show ?thesis by (metis (no_types, lifting) rtranclp.rtrancl_refl rtranclp.rtrancl_into_rtrancl)
qed

text \<open>The property at the run that backfills the slots 0 to 5 with one worker.\<close>

theorem run_processes_span_once_witness:
  "rn_err small_final = None \<and> length (filter (in_range 3) (rn_done small_final)) = 1"
proof -
  have valid: "Backfill_Validate small_backfill = None" by (simp add: Backfill_Validate_def small_backfill_def)
  have fin: "run_finished small_final" "rn_err small_final = None" by (simp_all add: run_finished_def small_final_def)
  from run_processes_span_once [OF valid small_run fin, of 3] fin show ?thesis
    by (simp add: small_backfill_def span_end_def)
qed

text \<open>
  (C34) \<open>Run\<close> never gets stuck and always ends: with a valid configuration, every reachable state in
  which some goroutine has not ended has a step that lowers the weight of the state, and every
  step either lowers the weight or is a cancellation from outside.
\<close>

theorem run_makes_progress:
  assumes "Backfill_Validate cfg = None" and "(run_step cfg)\<^sup>*\<^sup>* (run_init cfg) s"
  shows "(run_finished s \<or> (\<exists>s'. run_step cfg s s' \<and> run_weight cfg s' < run_weight cfg s))
    \<and> (\<forall>s'. \<not> run_step cfg s s' \<or> s' = s\<lparr>rn_canceled := True\<rparr> \<or> run_weight cfg s' < run_weight cfg s)"
  using run_progress [OF run_inv_reachable [OF assms(2)]] valid_span [OF assms(1)] run_weight_step by blast

text \<open>The property at the initial state of the sample configuration.\<close>

theorem run_makes_progress_witness:
  "\<exists>s'. run_step sample_backfill (run_init sample_backfill :: nat run_state) s'
     \<and> run_weight sample_backfill s' < run_weight sample_backfill (run_init sample_backfill :: nat run_state)"
proof -
  have valid: "Backfill_Validate sample_backfill = None"
    by (simp add: Backfill_Validate_def sample_backfill_def)
  have "\<not> run_finished (run_init sample_backfill :: nat run_state)"
    by (simp add: run_finished_def run_init_def)
  with run_makes_progress [OF valid rtranclp.rtrancl_refl] show ?thesis by blast
qed

end
