(* ===== verification/SlotCache.thy ===== *)
theory SlotCache
  imports Dex
begin

text \<open>
  The slot-to-time cache of \<open>ingestor/common/slot_cache.go\<close>: \<open>MemorySlotTimeCache\<close> and every
  method of the \<open>SlotTimeCache\<close> interface. Each method holds the mutex for its whole body, so
  it is one atomic step. The interface's laws are the locale \<open>slot_time_cache\<close>.
\<close>

section \<open>State and operations\<close>

record MemorySlotTimeCache =
  slots :: "(u64, gotime) gomap"
  replayMarker :: u64

datatype cache_error = SlotNotFound u64

definition NewMemorySlotTimeCache :: MemorySlotTimeCache where
  "NewMemorySlotTimeCache = \<lparr>slots = [], replayMarker = 0\<rparr>"

definition Cache_Get :: "MemorySlotTimeCache \<Rightarrow> u64 \<Rightarrow> cache_error + gotime" where
  "Cache_Get c slot =
     (case map_get (slots c) slot of None \<Rightarrow> Inl (SlotNotFound slot) | Some ts \<Rightarrow> Inr ts)"

definition Cache_Set :: "MemorySlotTimeCache \<Rightarrow> u64 \<Rightarrow> gotime \<Rightarrow> MemorySlotTimeCache" where
  "Cache_Set c slot timestamp = c\<lparr>slots := map_set slot timestamp (slots c)\<rparr>"

text \<open>
  The loop \<open>for slot := startSlot; slot <= endSlot; slot++\<close> on \<open>uint64\<close>: the increment wraps,
  so the loop need not end; \<open>None\<close> is a loop that never returns.
\<close>

partial_function (option) getRange_loop ::
  "(u64, gotime) gomap \<Rightarrow> u64 \<Rightarrow> u64 \<Rightarrow> (u64, gotime) gomap \<Rightarrow> (u64, gotime) gomap option" where
  "getRange_loop m slot endSlot result =
     (if slot \<le> endSlot then
        getRange_loop m (slot + 1) endSlot
          (case map_get m slot of Some ts \<Rightarrow> map_set slot ts result | None \<Rightarrow> result)
      else Some result)"

definition Cache_GetRange :: "MemorySlotTimeCache \<Rightarrow> u64 \<Rightarrow> u64 \<Rightarrow> (u64, gotime) gomap option" where
  "Cache_GetRange c startSlot endSlot = getRange_loop (slots c) startSlot endSlot []"

definition Cache_SetReplayMarker :: "MemorySlotTimeCache \<Rightarrow> u64 \<Rightarrow> MemorySlotTimeCache" where
  "Cache_SetReplayMarker c slot = c\<lparr>replayMarker := slot\<rparr>"

definition Cache_GetReplayMarker :: "MemorySlotTimeCache \<Rightarrow> u64" where
  "Cache_GetReplayMarker c = replayMarker c"

definition Cache_IsReplaySlot :: "MemorySlotTimeCache \<Rightarrow> u64 \<Rightarrow> bool" where
  "Cache_IsReplaySlot c slot \<longleftrightarrow> replayMarker c > 0 \<and> slot \<ge> replayMarker c"

definition Cache_Clear :: "MemorySlotTimeCache \<Rightarrow> MemorySlotTimeCache" where
  "Cache_Clear c = c\<lparr>slots := [], replayMarker := 0\<rparr>"

definition Cache_Size :: "MemorySlotTimeCache \<Rightarrow> nat" where
  "Cache_Size c = length (slots c)"

fun prune_loop ::
  "u64 \<Rightarrow> (u64, gotime) gomap \<Rightarrow> nat \<Rightarrow> u64 list \<Rightarrow> (u64, gotime) gomap \<times> nat" where
  "prune_loop slot m pruned [] = (m, pruned)"
| "prune_loop slot m pruned (s # ss) =
     (if s < slot then prune_loop slot (map_del s m) (pruned + 1) ss
      else prune_loop slot m pruned ss)"

definition Cache_PruneBeforeSlot :: "MemorySlotTimeCache \<Rightarrow> u64 \<Rightarrow> MemorySlotTimeCache \<times> nat" where
  "Cache_PruneBeforeSlot c slot =
     (case prune_loop slot (slots c) 0 (map fst (slots c)) of
        (m, pruned) \<Rightarrow> (c\<lparr>slots := m\<rparr>, pruned))"

definition cache_inv :: "MemorySlotTimeCache \<Rightarrow> bool" where
  "cache_inv c \<longleftrightarrow> map_ok (slots c)"

section \<open>The SlotTimeCache interface\<close>

locale slot_time_cache =
  fixes get :: "'c \<Rightarrow> u64 \<Rightarrow> cache_error + gotime" and set :: "'c \<Rightarrow> u64 \<Rightarrow> gotime \<Rightarrow> 'c"
  assumes get_set: "get (set c s t) s' = (if s' = s then Inr t else get c s')"
begin

text \<open>What a client that stores a list of block times reads back: the last time stored.\<close>

lemma get_after_sets:
  "get (fold (\<lambda>(s, t) c. set c s t) xs c) s =
     (case map_of (rev xs) s of Some t \<Rightarrow> Inr t | None \<Rightarrow> get c s)"
proof (induction xs arbitrary: c)
  case (Cons x xs)
  then show ?case
    by (cases x) (auto simp: get_set map_add_def split: option.splits)
qed simp

end

interpretation stc: slot_time_cache Cache_Get Cache_Set
  by unfold_locales (auto simp: Cache_Get_def Cache_Set_def)

section \<open>Lemmas\<close>

lemma cache_inv_ops:
  "cache_inv NewMemorySlotTimeCache"
  "cache_inv c \<Longrightarrow> cache_inv (Cache_Set c s t)"
  "cache_inv c \<Longrightarrow> cache_inv (Cache_SetReplayMarker c s)"
  "cache_inv (Cache_Clear c)"
  by (auto simp: cache_inv_def NewMemorySlotTimeCache_def Cache_Set_def Cache_SetReplayMarker_def
      Cache_Clear_def)

text \<open>The range loop, for an end slot that is not the largest \<open>uint64\<close>.\<close>

lemma getRange_loop_total:
  assumes "endSlot \<noteq> - 1" and "n = unat endSlot + 1 - unat slot"
  shows "\<exists>r. getRange_loop m slot endSlot acc = Some r \<and>
     (\<forall>k. map_get r k =
        (if slot \<le> k \<and> k \<le> endSlot \<and> map_get m k \<noteq> None then map_get m k else map_get acc k))"
  using assms(2)
proof (induction n arbitrary: slot acc)
  case 0
  then have "\<not> slot \<le> endSlot" by (simp add: word_le_nat_alt)
  then show ?case by (subst getRange_loop.simps) auto
next
  case (Suc n)
  let ?acc = "case map_get m slot of Some ts \<Rightarrow> map_set slot ts acc | None \<Rightarrow> acc"
  from Suc.prems have le: "slot \<le> endSlot" by (simp add: word_le_nat_alt)
  then have inc: "unat (slot + 1) = unat slot + 1"
    using assms(1) by (intro unat_inc_u64) (simp add: not_max_u64 word_le_nat_alt)
  with Suc.prems have "n = unat endSlot + 1 - unat (slot + 1)" by simp
  then obtain r where r: "getRange_loop m (slot + 1) endSlot ?acc = Some r"
    and get: "\<And>k. map_get r k =
      (if slot + 1 \<le> k \<and> k \<le> endSlot \<and> map_get m k \<noteq> None then map_get m k else map_get ?acc k)"
    using Suc.IH [of "slot + 1" ?acc] by blast
  have step: "slot \<le> k \<longleftrightarrow> k = slot \<or> slot + 1 \<le> k" for k
    using inc by (auto simp: word_le_nat_alt word_unat_eq_iff)
  have "getRange_loop m slot endSlot acc = Some r"
    using r le by (subst getRange_loop.simps) simp
  moreover have "map_get r k =
      (if slot \<le> k \<and> k \<le> endSlot \<and> map_get m k \<noteq> None then map_get m k else map_get acc k)" for k
    using get [of k] le by (auto simp: step [of k] split: option.splits)
  ultimately show ?case by blast
qed

text \<open>When the end slot is the largest \<open>uint64\<close> the loop condition never fails.\<close>

lemma getRange_loop_diverges: "getRange_loop m slot (- 1) acc = None"
proof (rule ccontr)
  assume "getRange_loop m slot (- 1) acc \<noteq> None"
  then obtain r where ret: "getRange_loop m slot (- 1) acc = Some r" by blast
  have "(- 1 :: u64) = - 1 \<longrightarrow> False"
  proof (rule getRange_loop.raw_induct [where P = "\<lambda>m s e acc r. e = - 1 \<longrightarrow> False", OF _ ret])
    fix f m s e acc r
    assume IH: "\<And>m s e acc r. f m s e acc = Some r \<Longrightarrow> e = (- 1 :: u64) \<longrightarrow> False"
      and eq: "(if s \<le> e then f m (s + 1) e (case map_get m s of Some ts \<Rightarrow> map_set s ts acc | None \<Rightarrow> acc)
        else Some acc) = Some r"
    show "e = - 1 \<longrightarrow> False"
      using eq IH by (auto split: if_splits)
  qed
  then show False by simp
qed

lemma prune_loop_spec:
  assumes "prune_loop slot m n ss = (m', n')" and "distinct ss"
  shows "map_get m' k = (if k \<in> set ss \<and> k < slot then None else map_get m k)"
    and "n' = n + length (filter (\<lambda>s. s < slot) ss)"
  using assms by (induction slot m n ss rule: prune_loop.induct) (auto split: if_splits)

lemma prune_loop_entries:
  assumes "prune_loop slot m n ss = (m', n')"
  shows "m' = filter (\<lambda>(k, _). \<not> (k \<in> set ss \<and> k < slot)) m"
  using assms
proof (induction slot m n ss rule: prune_loop.induct)
  case (1 slot m n)
  then show ?case by simp
next
  case (2 slot m n s ss)
  then show ?case
    by (auto simp: map_del_def AList.delete_eq intro!: filter_cong split: if_splits)
qed

section \<open>Properties\<close>

text \<open>
  (C37) \<open>GetRange\<close> returns, for every end slot below the largest \<open>uint64\<close>, exactly the cached
  entries with \<open>startSlot <= slot <= endSlot\<close>; for the largest \<open>uint64\<close> as end slot the
  increment wraps to 0 and the call never returns, whatever the cache holds.
\<close>

theorem GetRange_correct_or_diverges:
  "if endSlot = - 1 then Cache_GetRange c startSlot endSlot = None
   else \<exists>r. Cache_GetRange c startSlot endSlot = Some r \<and>
     (\<forall>k. map_get r k = (if startSlot \<le> k \<and> k \<le> endSlot then map_get (slots c) k else None))"
proof (cases "endSlot = - 1")
  case True
  then show ?thesis by (simp add: Cache_GetRange_def getRange_loop_diverges)
next
  case False
  then obtain r where "getRange_loop (slots c) startSlot endSlot [] = Some r"
    and "\<And>k. map_get r k = (if startSlot \<le> k \<and> k \<le> endSlot \<and> map_get (slots c) k \<noteq> None
      then map_get (slots c) k else map_get [] k)"
    using getRange_loop_total [OF False refl] by blast
  with False show ?thesis by (auto simp: Cache_GetRange_def)
qed

text \<open>
  \<open>PruneBeforeSlot\<close> removes exactly the entries below the given slot, keeps the replay
  marker, and returns by how many entries the cache shrank.
\<close>

theorem PruneBeforeSlot_spec:
  assumes "cache_inv c" and "Cache_PruneBeforeSlot c slot = (c', pruned)"
  shows "cache_inv c' \<and> replayMarker c' = replayMarker c
    \<and> Cache_Size c = Cache_Size c' + pruned
    \<and> (\<forall>s. Cache_Get c' s = (if s < slot then Inl (SlotNotFound s) else Cache_Get c s))"
proof -
  obtain m where loop: "prune_loop slot (slots c) 0 (map fst (slots c)) = (m, pruned)"
    and c': "c' = c\<lparr>slots := m\<rparr>"
    using assms(2) by (auto simp: Cache_PruneBeforeSlot_def split: prod.splits)
  have dist: "distinct (map fst (slots c))"
    using assms(1) by (simp add: cache_inv_def map_ok_def)
  have m: "m = filter (\<lambda>(k, _). \<not> k < slot) (slots c)"
    using prune_loop_entries [OF loop] by (force intro: filter_cong)
  have n: "pruned = length (filter (\<lambda>(k, _). k < slot) (slots c))"
    using prune_loop_spec(2) [OF loop dist] by (simp add: filter_map o_def case_prod_unfold)
  have get: "map_get m s = (if s < slot then None else map_get (slots c) s)" for s
    using prune_loop_spec(1) [OF loop dist, of s]
    by (auto simp: map_get_def dest: map_of_SomeD split: if_splits)
       (metis image_eqI map_of_eq_None_iff fst_conv)
  have "map_ok m" using dist by (simp add: m map_ok_def distinct_map_filter)
  moreover have "length (slots c) = length m + pruned"
    using sum_length_filter_compl [of "\<lambda>(k, _). k < slot" "slots c"]
    by (simp add: m n case_prod_unfold)
  ultimately show ?thesis
    by (simp add: c' cache_inv_def Cache_Size_def Cache_Get_def get)
qed

text \<open>The property at a cache of three slots pruned below the second.\<close>

theorem PruneBeforeSlot_spec_witness:
  "let c = Cache_Set (Cache_Set (Cache_Set NewMemorySlotTimeCache 7 70) 8 80) 9 90
   in Cache_PruneBeforeSlot c 8 = (\<lparr>slots = [(8, 80), (9, 90)], replayMarker = 0\<rparr>, 1)
     \<and> Cache_Get (fst (Cache_PruneBeforeSlot c 8)) 7 = Inl (SlotNotFound 7)
     \<and> Cache_Get (fst (Cache_PruneBeforeSlot c 8)) 9 = Inr 90"
proof -
  let ?c = "Cache_Set (Cache_Set (Cache_Set NewMemorySlotTimeCache 7 70) 8 80) 9 90"
  have inv: "cache_inv ?c" by (intro cache_inv_ops)
  have run: "Cache_PruneBeforeSlot ?c 8 = (\<lparr>slots = [(8, 80), (9, 90)], replayMarker = 0\<rparr>, 1)"
    by code_simp
  have "\<forall>s. Cache_Get \<lparr>slots = [(8, 80), (9, 90)], replayMarker = 0\<rparr> s =
      (if s < 8 then Inl (SlotNotFound s) else Cache_Get ?c s)"
    using PruneBeforeSlot_spec [OF inv run] by blast
  then show ?thesis
    by (simp add: run stc.get_set)
qed

end
