(* ===== verification/Pools.thy ===== *)
theory Pools
  imports Dex
begin

text \<open>
  Account layouts of \<open>ingestor/internal/pools\<close>: the Raydium CLMM pool and \<open>AmmConfig\<close>
  accounts (\<open>raydium.go\<close>) and the Orca Whirlpool account (\<open>orca.go\<close>). The base58 encoder is a
  third-party module and therefore a parameter, \<open>b58\<close>.
\<close>

section \<open>ingestor/internal/pools/raydium.go\<close>

definition poolHeaderLen :: nat where
  "poolHeaderLen = 8"

definition poolConfigOffset :: nat where
  "poolConfigOffset = poolHeaderLen + 1"

definition poolConfigEnd :: nat where
  "poolConfigEnd = poolConfigOffset + 32"

definition ammHeaderLen :: nat where
  "ammHeaderLen = 8"

definition ammTradeFeeOffset :: nat where
  "ammTradeFeeOffset = ammHeaderLen + 1 + 2 + 32 + 4"

definition ammRequiredLength :: nat where
  "ammRequiredLength = ammTradeFeeOffset + 4"

definition ApproxConfigAccountMax :: nat where
  "ApproxConfigAccountMax = 256"

definition ammConfigDiscriminator :: bytes where
  "ammConfigDiscriminator = [218, 244, 33, 104, 203, 203, 43, 111]"

definition poolStateDiscriminator :: bytes where
  "poolStateDiscriminator = [247, 237, 227, 245, 215, 195, 222, 70]"

fun equalDiscriminator :: "bytes \<Rightarrow> bytes \<Rightarrow> bool" where
  "equalDiscriminator [] [] = True"
| "equalDiscriminator (a # as) (b # bs) = (a = b \<and> equalDiscriminator as bs)"
| "equalDiscriminator _ _ = False"

definition HasAmmConfigDiscriminator :: "bytes \<Rightarrow> bool" where
  "HasAmmConfigDiscriminator data \<longleftrightarrow>
     length data \<ge> 8 \<and> equalDiscriminator (take 8 data) ammConfigDiscriminator"

definition HasPoolDiscriminator :: "bytes \<Rightarrow> bool" where
  "HasPoolDiscriminator data \<longleftrightarrow>
     length data \<ge> 8 \<and> equalDiscriminator (take 8 data) poolStateDiscriminator"

datatype account_error = AccountTooShort nat nat

definition DecodeRaydiumPool :: "bytes \<Rightarrow> account_error + bytes" where
  "DecodeRaydiumPool data =
     (if length data < poolConfigEnd then Inl (AccountTooShort (length data) poolConfigEnd)
      else Inr (slice poolConfigOffset poolConfigEnd data))"

definition DecodeAmmConfig :: "bytes \<Rightarrow> account_error + u32" where
  "DecodeAmmConfig data =
     (if length data < ammRequiredLength then Inl (AccountTooShort (length data) ammRequiredLength)
      else Inr (LittleEndian_Uint32 (slice ammTradeFeeOffset (ammTradeFeeOffset + 4) data)))"

section \<open>ingestor/internal/pools/orca.go\<close>

definition orcaConfigOffset :: nat where
  "orcaConfigOffset = 8"

definition orcaFeeRateOffset :: nat where
  "orcaFeeRateOffset = orcaConfigOffset + 32 + 1 + 2 + 2"

definition orcaProtocolFeeOffset :: nat where
  "orcaProtocolFeeOffset = orcaFeeRateOffset + 2"

definition orcaLiquidityOffset :: nat where
  "orcaLiquidityOffset = orcaProtocolFeeOffset + 2"

definition orcaTokenMintAOffset :: nat where
  "orcaTokenMintAOffset = orcaLiquidityOffset + 16 + 16 + 4 + 8 + 8"

definition orcaTokenVaultAOffset :: nat where
  "orcaTokenVaultAOffset = orcaTokenMintAOffset + 32"

definition orcaTokenMintBOffset :: nat where
  "orcaTokenMintBOffset = orcaTokenVaultAOffset + 32 + 16"

definition orcaTokenVaultBOffset :: nat where
  "orcaTokenVaultBOffset = orcaTokenMintBOffset + 32"

definition orcaRequiredLength :: nat where
  "orcaRequiredLength = orcaTokenVaultBOffset + 32"

lemmas pool_offsets = poolHeaderLen_def poolConfigOffset_def poolConfigEnd_def ammHeaderLen_def
  ammTradeFeeOffset_def ammRequiredLength_def ApproxConfigAccountMax_def orcaConfigOffset_def
  orcaFeeRateOffset_def orcaProtocolFeeOffset_def orcaLiquidityOffset_def
  orcaTokenMintAOffset_def orcaTokenVaultAOffset_def orcaTokenMintBOffset_def
  orcaTokenVaultBOffset_def orcaRequiredLength_def

record OrcaPoolInfo =
  op_Config :: string
  op_FeeRate :: u16
  op_ProtocolFee :: u16
  op_TokenMintA :: string
  op_TokenMintB :: string
  op_TokenVaultA :: string
  op_TokenVaultB :: string

definition DecodeOrcaPool :: "(bytes \<Rightarrow> string) \<Rightarrow> bytes \<Rightarrow> account_error + OrcaPoolInfo" where
  "DecodeOrcaPool b58 data =
     (if length data < orcaRequiredLength then Inl (AccountTooShort (length data) orcaRequiredLength)
      else Inr \<lparr>
        op_Config = b58 (slice orcaConfigOffset (orcaConfigOffset + 32) data),
        op_FeeRate = LittleEndian_Uint16 (slice orcaFeeRateOffset (orcaFeeRateOffset + 2) data),
        op_ProtocolFee =
          LittleEndian_Uint16 (slice orcaProtocolFeeOffset (orcaProtocolFeeOffset + 2) data),
        op_TokenMintA = b58 (slice orcaTokenMintAOffset (orcaTokenMintAOffset + 32) data),
        op_TokenMintB = b58 (slice orcaTokenMintBOffset (orcaTokenMintBOffset + 32) data),
        op_TokenVaultA = b58 (slice orcaTokenVaultAOffset (orcaTokenVaultAOffset + 32) data),
        op_TokenVaultB = b58 (slice orcaTokenVaultBOffset (orcaTokenVaultBOffset + 32) data)\<rparr>)"

section \<open>Reference layouts\<close>

text \<open>
  The on-chain layouts the offsets stand for, written as the concatenation of their fields.
  Fields the decoders skip are lists of the field's size.
\<close>

record whirlpool_fields =
  wf_config :: bytes
  wf_bump_tick :: bytes
  wf_fee_rate :: u16
  wf_protocol_fee :: u16
  wf_liquidity_to_fees :: bytes
  wf_mint_a :: bytes
  wf_vault_a :: bytes
  wf_fee_growth_a :: bytes
  wf_mint_b :: bytes
  wf_vault_b :: bytes

definition whirlpool_wf :: "whirlpool_fields \<Rightarrow> bool" where
  "whirlpool_wf w \<longleftrightarrow> length (wf_config w) = 32 \<and> length (wf_bump_tick w) = 5
     \<and> length (wf_liquidity_to_fees w) = 52 \<and> length (wf_mint_a w) = 32
     \<and> length (wf_vault_a w) = 32 \<and> length (wf_fee_growth_a w) = 16
     \<and> length (wf_mint_b w) = 32 \<and> length (wf_vault_b w) = 32"

definition whirlpool_layout :: "bytes \<Rightarrow> whirlpool_fields \<Rightarrow> bytes \<Rightarrow> bytes" where
  "whirlpool_layout disc w rest =
     disc @ wf_config w @ wf_bump_tick w @ le_bytes 2 (unat (wf_fee_rate w))
     @ le_bytes 2 (unat (wf_protocol_fee w)) @ wf_liquidity_to_fees w @ wf_mint_a w
     @ wf_vault_a w @ wf_fee_growth_a w @ wf_mint_b w @ wf_vault_b w @ rest"

text \<open>\<open>AmmConfig\<close>: bump, index, owner, protocol fee rate, then the trade fee rate.\<close>

definition amm_config_layout :: "bytes \<Rightarrow> bytes \<Rightarrow> u32 \<Rightarrow> bytes \<Rightarrow> bytes" where
  "amm_config_layout disc skipped trade_fee_rate rest =
     disc @ skipped @ le_bytes 4 (unat trade_fee_rate) @ rest"

section \<open>Lemmas\<close>

lemma equalDiscriminator_iff [simp]: "equalDiscriminator a b \<longleftrightarrow> a = b"
  by (induction a b rule: equalDiscriminator.induct) auto

lemma discriminators_exclusive: "HasPoolDiscriminator data \<Longrightarrow> \<not> HasAmmConfigDiscriminator data"
  by (simp add: HasPoolDiscriminator_def HasAmmConfigDiscriminator_def poolStateDiscriminator_def
      ammConfigDiscriminator_def)

lemma DecodeRaydiumPool_layout:
  assumes "length disc = 8" and "length cfg = 32"
  shows "DecodeRaydiumPool (disc @ [bump] @ cfg @ rest) = Inr cfg"
  using assms by (simp add: DecodeRaydiumPool_def pool_offsets slice_def)

lemma DecodeAmmConfig_layout:
  assumes "length disc = 8" and "length skipped = 39"
  shows "DecodeAmmConfig (amm_config_layout disc skipped rate rest) = Inr rate"
  using assms by (simp add: DecodeAmmConfig_def amm_config_layout_def pool_offsets slice_def)

lemma DecodeAmmConfig_ok_iff: "(\<exists>r. DecodeAmmConfig data = Inr r) \<longleftrightarrow> 51 \<le> length data"
  by (auto simp: DecodeAmmConfig_def pool_offsets)

lemma DecodeRaydiumPool_ok_iff: "(\<exists>r. DecodeRaydiumPool data = Inr r) \<longleftrightarrow> 41 \<le> length data"
  by (auto simp: DecodeRaydiumPool_def pool_offsets)

section \<open>Properties\<close>

text \<open>
  Decoding a Whirlpool account laid out field by field gives back every field the swap
  decoder uses, whatever the skipped fields and the trailing bytes hold; the sum of the field
  sizes is the length the decoder requires.
\<close>

theorem DecodeOrcaPool_layout:
  assumes "length disc = 8" and "whirlpool_wf w"
  shows "DecodeOrcaPool b58 (whirlpool_layout disc w rest) =
    Inr \<lparr>op_Config = b58 (wf_config w), op_FeeRate = wf_fee_rate w,
      op_ProtocolFee = wf_protocol_fee w, op_TokenMintA = b58 (wf_mint_a w),
      op_TokenMintB = b58 (wf_mint_b w), op_TokenVaultA = b58 (wf_vault_a w),
      op_TokenVaultB = b58 (wf_vault_b w)\<rparr>
    \<and> length (whirlpool_layout disc w []) = orcaRequiredLength"
  using assms
  by (simp add: DecodeOrcaPool_def whirlpool_layout_def whirlpool_wf_def pool_offsets slice_def)

definition sample_whirlpool :: whirlpool_fields where
  "sample_whirlpool = \<lparr>wf_config = replicate 32 1, wf_bump_tick = replicate 5 9,
     wf_fee_rate = 3000, wf_protocol_fee = 300, wf_liquidity_to_fees = replicate 52 7,
     wf_mint_a = replicate 32 2, wf_vault_a = replicate 32 3, wf_fee_growth_a = replicate 16 8,
     wf_mint_b = replicate 32 4, wf_vault_b = replicate 32 5\<rparr>"

theorem DecodeOrcaPool_layout_witness:
  "whirlpool_wf sample_whirlpool \<and>
   DecodeOrcaPool (map (\<lambda>b. char_of (unat b))) (whirlpool_layout (replicate 8 0) sample_whirlpool [0, 0]) =
     Inr \<lparr>op_Config = replicate 32 (char_of (1 :: nat)), op_FeeRate = 3000, op_ProtocolFee = 300,
       op_TokenMintA = replicate 32 (char_of (2 :: nat)), op_TokenMintB = replicate 32 (char_of (4 :: nat)),
       op_TokenVaultA = replicate 32 (char_of (3 :: nat)), op_TokenVaultB = replicate 32 (char_of (5 :: nat))\<rparr>"
proof -
  have disc: "length (replicate 8 (0 :: u8)) = 8" by simp
  have wf: "whirlpool_wf sample_whirlpool"
    by (simp add: whirlpool_wf_def sample_whirlpool_def)
  show ?thesis
    using wf DecodeOrcaPool_layout [OF disc wf, of "map (\<lambda>b. char_of (unat b))" "[0, 0]"]
    by (simp add: sample_whirlpool_def)
qed

end
