(* ===== verification/Pair.thy ===== *)
theory Pair
  imports GoStd
begin

text \<open>
  Canonical base/quote ordering of a token pair: \<open>decoder/common/pair.go\<close> and
  \<open>decoder/common/mint_metadata.go\<close>. The package-level maps \<open>knownTokens\<close> and
  \<open>quotePriority\<close>, which \<open>RegisterToken\<close> and \<open>SetQuotePriority\<close> change, are the record
  \<open>pair_registry\<close>; the in-memory metadata provider is a map from addresses to metadata. The
  locale \<open>pair_orientation\<close> states what both orderings promise, and is interpreted on both.
\<close>

section \<open>decoder/common/pair.go\<close>

record pair_registry =
  quotePriority :: "(string, int) gomap"
  knownTokens :: "(string, string) gomap"

definition initial_registry :: pair_registry where
  "initial_registry = \<lparr>
     quotePriority =
       [(''USDC'', 100), (''USDT'', 90), (''SOL'', 80), (''WSOL'', 75), (''ETH'', 70),
        (''WETH'', 65), (''BTC'', 60), (''WBTC'', 55), (''default'', 0)],
     knownTokens =
       [(''EPjFWdd5AufqSSqeM2qN1xzybapC8G4wEGGkZwyTDt1v'', ''USDC''),
        (''Es9vMFrzaCERmJfrF4H2FYD4KCoNkY11McCe8BenwNYB'', ''USDT''),
        (''So11111111111111111111111111111111111111112'', ''SOL''),
        (''So11111111111111111111111111111111111111111'', ''WSOL'')]\<rparr>"

record CanonicalPair =
  cp_BaseToken :: string
  cp_BaseMint :: string
  cp_QuoteToken :: string
  cp_QuoteMint :: string
  cp_Inverted :: bool

definition resolveTokenSymbol :: "pair_registry \<Rightarrow> string \<Rightarrow> string" where
  "resolveTokenSymbol reg mint =
     (case map_get (knownTokens reg) mint of
        Some symbol \<Rightarrow> symbol
      | None \<Rightarrow> if length mint > 8 then take 8 mint else mint)"

definition getQuotePriority :: "pair_registry \<Rightarrow> string \<Rightarrow> int" where
  "getQuotePriority reg symbol =
     (case map_get (quotePriority reg) symbol of
        Some priority \<Rightarrow> priority
      | None \<Rightarrow> (case map_get (quotePriority reg) ''default'' of Some p \<Rightarrow> p | None \<Rightarrow> 0))"

datatype pair_error = EmptyMint

definition ResolvePair :: "pair_registry \<Rightarrow> string \<Rightarrow> string \<Rightarrow> pair_error + CanonicalPair" where
  "ResolvePair reg mintA mintB =
     (if mintA = [] \<or> mintB = [] then Inl EmptyMint
      else
        let symbolA = resolveTokenSymbol reg mintA;
            symbolB = resolveTokenSymbol reg mintB;
            priorityA = getQuotePriority reg symbolA;
            priorityB = getQuotePriority reg symbolB
        in
        if priorityA = priorityB then
          (if mintA \<le> mintB then
             Inr \<lparr>cp_BaseToken = symbolA, cp_BaseMint = mintA,
                  cp_QuoteToken = symbolB, cp_QuoteMint = mintB, cp_Inverted = False\<rparr>
           else
             Inr \<lparr>cp_BaseToken = symbolB, cp_BaseMint = mintB,
                  cp_QuoteToken = symbolA, cp_QuoteMint = mintA, cp_Inverted = True\<rparr>)
        else if priorityA > priorityB then
          Inr \<lparr>cp_BaseToken = symbolB, cp_BaseMint = mintB,
               cp_QuoteToken = symbolA, cp_QuoteMint = mintA, cp_Inverted = True\<rparr>
        else
          Inr \<lparr>cp_BaseToken = symbolA, cp_BaseMint = mintA,
               cp_QuoteToken = symbolB, cp_QuoteMint = mintB, cp_Inverted = False\<rparr>)"

definition CanonicalPair_Symbol :: "CanonicalPair \<Rightarrow> string" where
  "CanonicalPair_Symbol p = cp_BaseToken p @ ''/'' @ cp_QuoteToken p"

definition IsStablecoinPair :: "CanonicalPair \<Rightarrow> bool" where
  "IsStablecoinPair p =
     (let stablecoins = [''USDC'', ''USDT'', ''BUSD'', ''DAI'', ''UST'', ''FRAX'']
      in cp_BaseToken p \<in> set stablecoins \<and> cp_QuoteToken p \<in> set stablecoins)"

definition RegisterToken :: "string \<Rightarrow> string \<Rightarrow> pair_registry \<Rightarrow> pair_registry" where
  "RegisterToken mint symbol reg = reg\<lparr>knownTokens := map_set mint symbol (knownTokens reg)\<rparr>"

definition SetQuotePriority :: "string \<Rightarrow> int \<Rightarrow> pair_registry \<Rightarrow> pair_registry" where
  "SetQuotePriority symbol priority reg =
     reg\<lparr>quotePriority := map_set symbol priority (quotePriority reg)\<rparr>"

section \<open>decoder/common/mint_metadata.go\<close>

record MintMetadata =
  mm_Address :: string
  mm_Symbol :: string
  mm_Decimals :: u8
  mm_Name :: string

type_synonym mint_provider = "(string, MintMetadata) gomap"

datatype mint_error = MintNotFound string

definition commonMints :: "MintMetadata list" where
  "commonMints =
     [\<lparr>mm_Address = ''So11111111111111111111111111111111111111112'', mm_Symbol = ''SOL'',
       mm_Decimals = 9, mm_Name = ''Wrapped SOL''\<rparr>,
      \<lparr>mm_Address = ''EPjFWdd5AufqSSqeM2qN1xzybapC8G4wEGGkZwyTDt1v'', mm_Symbol = ''USDC'',
       mm_Decimals = 6, mm_Name = ''USD Coin''\<rparr>,
      \<lparr>mm_Address = ''Es9vMFrzaCERmJfrF4H2FYD4KCoNkY11McCe8BenwNYB'', mm_Symbol = ''USDT'',
       mm_Decimals = 6, mm_Name = ''USDT''\<rparr>,
      \<lparr>mm_Address = ''7vfCXTUXx5WJV5JADk17DUJ4ksgau7utNKj4b963voxs'', mm_Symbol = ''ORCA'',
       mm_Decimals = 6, mm_Name = ''Orca''\<rparr>]"

definition NewInMemoryMintMetadataProvider :: mint_provider where
  "NewInMemoryMintMetadataProvider = fold (\<lambda>mint. map_set (mm_Address mint) mint) commonMints []"

definition GetMintMetadata :: "mint_provider \<Rightarrow> string \<Rightarrow> mint_error + MintMetadata" where
  "GetMintMetadata p mintAddress =
     (case map_get p mintAddress of
        None \<Rightarrow> Inl (MintNotFound mintAddress)
      | Some metadata \<Rightarrow> Inr metadata)"

definition GetDecimals :: "mint_provider \<Rightarrow> string \<Rightarrow> mint_error + u8" where
  "GetDecimals p mintAddress =
     (case GetMintMetadata p mintAddress of
        Inl err \<Rightarrow> Inl err
      | Inr metadata \<Rightarrow> Inr (mm_Decimals metadata))"

definition CacheMintMetadata :: "string list \<Rightarrow> mint_provider \<Rightarrow> mint_provider" where
  "CacheMintMetadata mintAddresses p = p"

definition AddMintMetadata :: "MintMetadata \<Rightarrow> mint_provider \<Rightarrow> mint_provider" where
  "AddMintMetadata metadata p = map_set (mm_Address metadata) metadata p"

definition canonicalPriority :: "(string, int) gomap" where
  "canonicalPriority = [(''USDC'', 100), (''USDT'', 90), (''SOL'', 80), (''default'', 0)]"

definition getPriority :: "string \<Rightarrow> int" where
  "getPriority symbol =
     (case map_get canonicalPriority symbol of
        Some priority \<Rightarrow> priority
      | None \<Rightarrow> (case map_get canonicalPriority ''default'' of Some p \<Rightarrow> p | None \<Rightarrow> 0))"

text \<open>
  \<open>DetermineBaseQuote\<close> takes the provider as an interface value; here it is the lookup
  function \<open>GetMintMetadata\<close> of that value.
\<close>

definition DetermineBaseQuote ::
  "(string \<Rightarrow> mint_error + MintMetadata) \<Rightarrow> string \<Rightarrow> string \<Rightarrow> mint_error + (string \<times> string)" where
  "DetermineBaseQuote getMeta mintA mintB =
     (case getMeta mintA of
        Inl err \<Rightarrow> Inl err
      | Inr metadataA \<Rightarrow>
          (case getMeta mintB of
             Inl err \<Rightarrow> Inl err
           | Inr metadataB \<Rightarrow>
               let priorityA = getPriority (mm_Symbol metadataA);
                   priorityB = getPriority (mm_Symbol metadataB)
               in if priorityA = priorityB then
                    (if mintA \<le> mintB then Inr (mintA, mintB) else Inr (mintB, mintA))
                  else if priorityA > priorityB then Inr (mintB, mintA)
                  else Inr (mintA, mintB)))"

section \<open>The contract of a pair ordering\<close>

text \<open>
  Both orderings put the mint of higher priority last, and break a tie by the byte order of
  the addresses; \<open>known\<close> says for which mints the ordering answers at all.
\<close>

locale pair_orientation =
  fixes known :: "string \<Rightarrow> bool" and prio :: "string \<Rightarrow> int"
    and orient :: "string \<Rightarrow> string \<Rightarrow> (string \<times> string) option"
  assumes orient_unknown: "\<not> (known a \<and> known b) \<Longrightarrow> orient a b = None"
    and orient_known: "known a \<Longrightarrow> known b \<Longrightarrow>
      orient a b = Some (if prio a < prio b \<or> prio a = prio b \<and> a \<le> b then (a, b) else (b, a))"
begin

lemma orient_sym: "orient a b = orient b a"
proof (cases "known a \<and> known b")
  case True
  then show ?thesis by (auto simp: orient_known)
next
  case False
  then show ?thesis using orient_unknown [of a b] orient_unknown [of b a] by auto
qed

lemma orient_defined_iff: "(\<exists>p. orient a b = Some p) \<longleftrightarrow> known a \<and> known b"
  by (metis option.distinct(1) orient_known orient_unknown)

lemma orient_quote_max:
  "orient a b = Some (base, quote) \<Longrightarrow> prio base \<le> prio quote \<and> (base, quote) \<in> {(a, b), (b, a)}"
  by (cases "known a \<and> known b") (auto simp: orient_known orient_unknown split: if_splits)

lemma orient_idem: "orient a b = Some (base, quote) \<Longrightarrow> orient base quote = Some (base, quote)"
  by (cases "known a \<and> known b") (auto simp: orient_known orient_unknown split: if_splits)

end

definition mint_priority :: "pair_registry \<Rightarrow> string \<Rightarrow> int" where
  "mint_priority reg m = getQuotePriority reg (resolveTokenSymbol reg m)"

definition resolved_mints :: "pair_registry \<Rightarrow> string \<Rightarrow> string \<Rightarrow> (string \<times> string) option" where
  "resolved_mints reg a b =
     (case ResolvePair reg a b of Inl _ \<Rightarrow> None | Inr p \<Rightarrow> Some (cp_BaseMint p, cp_QuoteMint p))"

interpretation rp: pair_orientation "\<lambda>m. m \<noteq> []" "mint_priority reg" "resolved_mints reg" for reg
  by unfold_locales (auto simp: resolved_mints_def ResolvePair_def Let_def mint_priority_def)

definition provided :: "(string \<Rightarrow> mint_error + MintMetadata) \<Rightarrow> string \<Rightarrow> bool" where
  "provided getMeta m = (case getMeta m of Inl _ \<Rightarrow> False | Inr _ \<Rightarrow> True)"

definition provided_priority :: "(string \<Rightarrow> mint_error + MintMetadata) \<Rightarrow> string \<Rightarrow> int" where
  "provided_priority getMeta m = (case getMeta m of Inl _ \<Rightarrow> 0 | Inr md \<Rightarrow> getPriority (mm_Symbol md))"

definition determined_mints ::
  "(string \<Rightarrow> mint_error + MintMetadata) \<Rightarrow> string \<Rightarrow> string \<Rightarrow> (string \<times> string) option" where
  "determined_mints getMeta a b =
     (case DetermineBaseQuote getMeta a b of Inl _ \<Rightarrow> None | Inr p \<Rightarrow> Some p)"

interpretation dbq: pair_orientation "provided getMeta" "provided_priority getMeta"
  "determined_mints getMeta" for getMeta
  by unfold_locales
    (auto simp: determined_mints_def DetermineBaseQuote_def provided_def provided_priority_def Let_def
      split: sum.splits)

section \<open>Lemmas on ResolvePair\<close>

lemma ResolvePair_error_iff: "ResolvePair reg a b = Inl e \<longleftrightarrow> e = EmptyMint \<and> (a = [] \<or> b = [])"
  by (cases e) (auto simp: ResolvePair_def Let_def)

lemma ResolvePair_tokens:
  "ResolvePair reg a b = Inr p \<Longrightarrow>
     cp_BaseToken p = resolveTokenSymbol reg (cp_BaseMint p) \<and>
     cp_QuoteToken p = resolveTokenSymbol reg (cp_QuoteMint p)"
  by (auto simp: ResolvePair_def Let_def split: if_splits)

lemma ResolvePair_mints:
  "ResolvePair reg a b = Inr p \<Longrightarrow>
     (cp_BaseMint p, cp_QuoteMint p) = (if cp_Inverted p then (b, a) else (a, b))"
  by (auto simp: ResolvePair_def Let_def split: if_splits)

lemma ResolvePair_inverted_iff:
  "ResolvePair reg a b = Inr p \<Longrightarrow>
     cp_Inverted p \<longleftrightarrow> mint_priority reg b < mint_priority reg a
       \<or> mint_priority reg a = mint_priority reg b \<and> b < a"
  by (auto simp: ResolvePair_def Let_def mint_priority_def split: if_splits)

lemma ResolvePair_resolved:
  "ResolvePair reg a b = Inr p \<Longrightarrow> resolved_mints reg a b = Some (cp_BaseMint p, cp_QuoteMint p)"
  by (simp add: resolved_mints_def)

lemma ResolvePair_again:
  "ResolvePair reg a b = Inr p \<Longrightarrow>
     ResolvePair reg (cp_BaseMint p) (cp_QuoteMint p) = Inr (p\<lparr>cp_Inverted := False\<rparr>)"
  by (auto simp: ResolvePair_def Let_def split: if_splits)

lemma getQuotePriority_set_same [simp]:
  "getQuotePriority (SetQuotePriority s n reg) s = n"
  by (simp add: getQuotePriority_def SetQuotePriority_def)

lemma resolveTokenSymbol_register [simp]:
  "resolveTokenSymbol (RegisterToken m s reg) m' = (if m' = m then s else resolveTokenSymbol reg m')"
  by (simp add: resolveTokenSymbol_def RegisterToken_def)

lemma resolveTokenSymbol_setPriority [simp]:
  "resolveTokenSymbol (SetQuotePriority s n reg) m = resolveTokenSymbol reg m"
  by (simp add: resolveTokenSymbol_def SetQuotePriority_def)

section \<open>The tables of the sources\<close>

abbreviation USDC_mint :: string where
  "USDC_mint \<equiv> ''EPjFWdd5AufqSSqeM2qN1xzybapC8G4wEGGkZwyTDt1v''"

abbreviation USDT_mint :: string where
  "USDT_mint \<equiv> ''Es9vMFrzaCERmJfrF4H2FYD4KCoNkY11McCe8BenwNYB''"

abbreviation SOL_mint :: string where
  "SOL_mint \<equiv> ''So11111111111111111111111111111111111111112''"

abbreviation ORCA_mint :: string where
  "ORCA_mint \<equiv> ''7vfCXTUXx5WJV5JADk17DUJ4ksgau7utNKj4b963voxs''"

lemma initial_symbols:
  "resolveTokenSymbol initial_registry USDC_mint = ''USDC''"
  "resolveTokenSymbol initial_registry USDT_mint = ''USDT''"
  "resolveTokenSymbol initial_registry SOL_mint = ''SOL''"
  "resolveTokenSymbol initial_registry ORCA_mint = ''7vfCXTUX''"
  by (simp_all add: resolveTokenSymbol_def initial_registry_def map_get_def)

lemma initial_priority:
  "getQuotePriority initial_registry s =
     (if s = ''USDC'' then 100 else if s = ''USDT'' then 90 else if s = ''SOL'' then 80
      else if s = ''WSOL'' then 75 else if s = ''ETH'' then 70 else if s = ''WETH'' then 65
      else if s = ''BTC'' then 60 else if s = ''WBTC'' then 55 else 0)"
  by (simp add: getQuotePriority_def initial_registry_def map_get_def)

lemma initial_priority_bounds:
  "100 \<le> getQuotePriority initial_registry s \<longleftrightarrow> s = ''USDC''"
  "90 \<le> getQuotePriority initial_registry s \<longleftrightarrow> s = ''USDC'' \<or> s = ''USDT''"
  "80 \<le> getQuotePriority initial_registry s \<longleftrightarrow> s = ''USDC'' \<or> s = ''USDT'' \<or> s = ''SOL''"
  by (simp_all add: initial_priority)

lemma getPriority_table:
  "getPriority s = (if s = ''USDC'' then 100 else if s = ''USDT'' then 90 else if s = ''SOL'' then 80 else 0)"
  by (simp add: getPriority_def canonicalPriority_def map_get_def)

lemma builtin_symbols:
  "map_option mm_Symbol (map_get NewInMemoryMintMetadataProvider SOL_mint) = Some ''SOL''"
  "map_option mm_Symbol (map_get NewInMemoryMintMetadataProvider USDC_mint) = Some ''USDC''"
  "map_option mm_Symbol (map_get NewInMemoryMintMetadataProvider USDT_mint) = Some ''USDT''"
  "map_option mm_Symbol (map_get NewInMemoryMintMetadataProvider ORCA_mint) = Some ''ORCA''"
  by (simp_all add: NewInMemoryMintMetadataProvider_def commonMints_def)

lemma provided_by_symbol:
  assumes "map_option mm_Symbol (map_get p m) = Some s"
  shows "provided (GetMintMetadata p) m" and "provided_priority (GetMintMetadata p) m = getPriority s"
  using assms by (auto simp: provided_def provided_priority_def GetMintMetadata_def)

lemma builtin_priorities:
  assumes "m \<in> {SOL_mint, USDC_mint, USDT_mint, ORCA_mint}"
  shows "provided (GetMintMetadata NewInMemoryMintMetadataProvider) m"
    and "provided_priority (GetMintMetadata NewInMemoryMintMetadataProvider) m =
      mint_priority initial_registry m"
proof -
  have "getPriority ''SOL'' = getQuotePriority initial_registry ''SOL''"
    "getPriority ''USDC'' = getQuotePriority initial_registry ''USDC''"
    "getPriority ''USDT'' = getQuotePriority initial_registry ''USDT''"
    "getPriority ''ORCA'' = getQuotePriority initial_registry ''7vfCXTUX''"
    by (simp_all add: getPriority_table initial_priority)
  then show "provided (GetMintMetadata NewInMemoryMintMetadataProvider) m"
    and "provided_priority (GetMintMetadata NewInMemoryMintMetadataProvider) m =
      mint_priority initial_registry m"
    using assms builtin_symbols [THEN provided_by_symbol(1)]
      builtin_symbols [THEN provided_by_symbol(2)] initial_symbols
    unfolding mint_priority_def by (elim insertE emptyE; simp only:)+
qed

section \<open>Properties\<close>

text \<open>
  (C29) The canonical pair does not depend on the order in which the two mints are given: both
  calls succeed or fail together, with the same base and quote token and mint, and for two
  different mints exactly one of the two calls reports an inversion. The quote mint never has
  the lower priority.
\<close>

theorem ResolvePair_canonical:
  assumes "ResolvePair reg a b = Inr p"
  shows "\<exists>p'. ResolvePair reg b a = Inr p'
    \<and> (cp_BaseToken p', cp_BaseMint p', cp_QuoteToken p', cp_QuoteMint p') =
        (cp_BaseToken p, cp_BaseMint p, cp_QuoteToken p, cp_QuoteMint p)
    \<and> (a \<noteq> b \<longrightarrow> cp_Inverted p' = (\<not> cp_Inverted p))
    \<and> {cp_BaseMint p, cp_QuoteMint p} = {a, b}
    \<and> mint_priority reg (cp_BaseMint p) \<le> mint_priority reg (cp_QuoteMint p)"
proof -
  from assms have "a \<noteq> []" "b \<noteq> []"
    by (auto simp: ResolvePair_def split: if_splits)
  then obtain p' where p': "ResolvePair reg b a = Inr p'"
    by (cases "ResolvePair reg b a") (auto simp: ResolvePair_error_iff)
  have mints: "cp_BaseMint p' = cp_BaseMint p" "cp_QuoteMint p' = cp_QuoteMint p"
    using rp.orient_sym [of reg a b] ResolvePair_resolved [OF assms] ResolvePair_resolved [OF p']
    by simp_all
  have flip: "a \<noteq> b \<longrightarrow> cp_Inverted p' = (\<not> cp_Inverted p)"
    unfolding ResolvePair_inverted_iff [OF assms] ResolvePair_inverted_iff [OF p']
    using less_linear [of a b] by fastforce
  have prio: "mint_priority reg (cp_BaseMint p) \<le> mint_priority reg (cp_QuoteMint p)"
    and sets: "(cp_BaseMint p, cp_QuoteMint p) \<in> {(a, b), (b, a)}"
    using rp.orient_quote_max [OF ResolvePair_resolved [OF assms]] by auto
  show ?thesis
    using p' mints flip prio sets ResolvePair_tokens [OF assms] ResolvePair_tokens [OF p'] by auto
qed

text \<open>The property at the pair USDC, SOL.\<close>

theorem ResolvePair_canonical_witness:
  "\<exists>p. ResolvePair initial_registry USDC_mint SOL_mint = Inr p \<and> cp_Inverted p
     \<and> (\<exists>p'. ResolvePair initial_registry SOL_mint USDC_mint = Inr p' \<and> \<not> cp_Inverted p'
          \<and> cp_QuoteMint p' = USDC_mint)"
proof -
  have run: "ResolvePair initial_registry USDC_mint SOL_mint =
      Inr \<lparr>cp_BaseToken = ''SOL'', cp_BaseMint = SOL_mint, cp_QuoteToken = ''USDC'',
           cp_QuoteMint = USDC_mint, cp_Inverted = True\<rparr>"
    by (simp add: ResolvePair_def initial_symbols initial_priority)
  show ?thesis
    using run ResolvePair_canonical [OF run] by auto
qed

text \<open>
  The documented quote rules hold for the initial tables: a pair with USDC is quoted in
  USDC, otherwise a pair with USDT in USDT, otherwise a pair with SOL in SOL, and a pair of two
  tokens of equal priority has the mint of smaller address as base.
\<close>

theorem ResolvePair_quote_rules:
  assumes "ResolvePair initial_registry a b = Inr p"
    and "syms = {resolveTokenSymbol initial_registry a, resolveTokenSymbol initial_registry b}"
  shows "(''USDC'' \<in> syms \<longrightarrow> cp_QuoteToken p = ''USDC'')
    \<and> (''USDC'' \<notin> syms \<and> ''USDT'' \<in> syms \<longrightarrow> cp_QuoteToken p = ''USDT'')
    \<and> (''USDC'' \<notin> syms \<and> ''USDT'' \<notin> syms \<and> ''SOL'' \<in> syms \<longrightarrow> cp_QuoteToken p = ''SOL'')
    \<and> (mint_priority initial_registry a = mint_priority initial_registry b \<longrightarrow>
         cp_BaseMint p = min a b \<and> cp_QuoteMint p = max a b)"
proof -
  have prio: "mint_priority initial_registry (cp_BaseMint p) \<le> mint_priority initial_registry (cp_QuoteMint p)"
    and mints: "(cp_BaseMint p, cp_QuoteMint p) \<in> {(a, b), (b, a)}"
    using rp.orient_quote_max [OF ResolvePair_resolved [OF assms(1)]] by auto
  have syms: "syms = {cp_BaseToken p, cp_QuoteToken p}"
    using mints ResolvePair_tokens [OF assms(1)] by (auto simp: assms(2))
  have le: "getQuotePriority initial_registry (cp_BaseToken p) \<le> getQuotePriority initial_registry (cp_QuoteToken p)"
    using prio ResolvePair_tokens [OF assms(1)] by (simp add: mint_priority_def)
  have rules: "n \<le> getQuotePriority initial_registry (cp_QuoteToken p)"
    if "n \<le> getQuotePriority initial_registry (cp_BaseToken p)" for n
    using that le by simp
  have tie: "mint_priority initial_registry a = mint_priority initial_registry b \<longrightarrow>
      cp_BaseMint p = min a b \<and> cp_QuoteMint p = max a b"
    using ResolvePair_mints [OF assms(1)] ResolvePair_inverted_iff [OF assms(1)]
    by (auto simp: min_def max_def split: if_splits)
  show ?thesis
    using rules [of 100] rules [of 90] rules [of 80] tie
    unfolding syms initial_priority_bounds insert_iff empty_iff by metis
qed

text \<open>
  The two base/quote orderings of the code base agree: for every pair of mints of the
  built-in metadata provider, \<open>DetermineBaseQuote\<close> (used by the Orca decoder) returns the base
  and quote mint that \<open>ResolvePair\<close> (used by the Raydium and Meteora decoders) returns.
\<close>

theorem orderings_agree:
  assumes "m1 \<in> set (map mm_Address commonMints)" and "m2 \<in> set (map mm_Address commonMints)"
  shows "\<exists>p. ResolvePair initial_registry m1 m2 = Inr p
    \<and> DetermineBaseQuote (GetMintMetadata NewInMemoryMintMetadataProvider) m1 m2 =
        Inr (cp_BaseMint p, cp_QuoteMint p)"
proof -
  let ?get = "GetMintMetadata NewInMemoryMintMetadataProvider"
  have mem: "m1 \<in> {SOL_mint, USDC_mint, USDT_mint, ORCA_mint}" "m2 \<in> {SOL_mint, USDC_mint, USDT_mint, ORCA_mint}"
    using assms by (auto simp: commonMints_def)
  then have ne: "m1 \<noteq> []" "m2 \<noteq> []" by blast+
  have "determined_mints ?get m1 m2 = resolved_mints initial_registry m1 m2"
    by (simp only: dbq.orient_known rp.orient_known [OF ne] builtin_priorities [OF mem(1)]
        builtin_priorities [OF mem(2)])
  moreover obtain p where "ResolvePair initial_registry m1 m2 = Inr p"
    using ne by (cases "ResolvePair initial_registry m1 m2") (auto simp: ResolvePair_error_iff)
  ultimately show ?thesis
    by (auto simp: determined_mints_def resolved_mints_def split: sum.splits)
qed

theorem orderings_agree_witness:
  "USDT_mint \<in> set (map mm_Address commonMints) \<and>
   (\<exists>p. ResolvePair initial_registry USDT_mint ORCA_mint = Inr p
      \<and> DetermineBaseQuote (GetMintMetadata NewInMemoryMintMetadataProvider) USDT_mint ORCA_mint =
          Inr (cp_BaseMint p, cp_QuoteMint p))"
proof -
  have m: "USDT_mint \<in> set (map mm_Address commonMints)" "ORCA_mint \<in> set (map mm_Address commonMints)"
    by (simp_all add: commonMints_def)
  show ?thesis using m orderings_agree [OF m] by blast
qed

end
