(* ===== verification/FixedPoint.thy ===== *)
theory FixedPoint
  imports GoStd Complex_Main
begin

text \<open>
  \<open>decoder/common/fixed_point.go\<close>. The IEEE-754 operations of \<open>float64\<close>, the functions of
  \<open>math\<close> and the arbitrary-precision \<open>big.Float\<close> are not computed here: they are the fields
  of the record \<open>float_ops\<close>, a parameter of every definition, so that what is proved holds
  for every rounding. \<open>exact_ops\<close> instantiates them with real arithmetic.
\<close>

record ('f, 'b) float_ops =
  f_of_u64 :: "u64 \<Rightarrow> 'f"
  f_of_u8 :: "u8 \<Rightarrow> 'f"
  f_of_i32 :: "i32 \<Rightarrow> 'f"
  f_lit :: "rat \<Rightarrow> 'f"
  f_pow :: "'f \<Rightarrow> 'f \<Rightarrow> 'f"
  f_mul :: "'f \<Rightarrow> 'f \<Rightarrow> 'f"
  f_div :: "'f \<Rightarrow> 'f \<Rightarrow> 'f"
  f_sqrt :: "'f \<Rightarrow> 'f"
  f_log :: "'f \<Rightarrow> 'f"
  f_floor :: "'f \<Rightarrow> 'f"
  f_eq :: "'f \<Rightarrow> 'f \<Rightarrow> bool"
  f_to_u64 :: "'f \<Rightarrow> u64"
  f_to_i32 :: "'f \<Rightarrow> i32"
  b_of_int :: "int \<Rightarrow> 'b"
  b_of_f :: "'f \<Rightarrow> 'b"
  b_quo :: "'b \<Rightarrow> 'b \<Rightarrow> 'b"
  b_mul :: "'b \<Rightarrow> 'b \<Rightarrow> 'b"
  b_to_f :: "'b \<Rightarrow> 'f"
  b_int :: "'b \<Rightarrow> int"

text \<open>\<open>big.Int.SetString(s, 10)\<close>: an optional sign and at least one decimal digit.\<close>

definition digits_value :: "string \<Rightarrow> nat" where
  "digits_value s = foldl (\<lambda>n c. 10 * n + digit_val c) 0 s"

definition big_digits :: "string \<Rightarrow> nat option" where
  "big_digits s = (if s \<noteq> [] \<and> list_all is_digit s then Some (digits_value s) else None)"

definition big_SetString :: "string \<Rightarrow> int option" where
  "big_SetString s =
     (case s of
        [] \<Rightarrow> None
      | c # cs \<Rightarrow>
          if c = CHR ''+'' then map_option int (big_digits cs)
          else if c = CHR ''-'' then map_option (\<lambda>n. - int n) (big_digits cs)
          else map_option int (big_digits s))"

definition big_String :: "int \<Rightarrow> string" where
  "big_String i = (if i < 0 then CHR ''-'' # show_nat (nat (- i)) else show_nat (nat i))"

definition Q64Shift :: nat where
  "Q64Shift = 64"

definition Q64One :: int where
  "Q64One = 2 ^ Q64Shift"

datatype fixed_error = InvalidSqrtPrice string

definition SqrtPriceQ64ToFloat :: "('f, 'b) float_ops \<Rightarrow> string \<Rightarrow> fixed_error + 'f" where
  "SqrtPriceQ64ToFloat F s =
     (case big_SetString s of
        None \<Rightarrow> Inl (InvalidSqrtPrice s)
      | Some sqrtPrice \<Rightarrow>
          let q = b_quo F (b_of_int F sqrtPrice) (b_of_int F Q64One)
          in Inr (b_to_f F (b_mul F q q)))"

definition FloatToSqrtPriceQ64 :: "('f, 'b) float_ops \<Rightarrow> 'f \<Rightarrow> string" where
  "FloatToSqrtPriceQ64 F price =
     big_String (b_int F (b_mul F (b_of_f F (f_sqrt F price)) (b_of_int F Q64One)))"

definition TickIndexToSqrtPrice :: "('f, 'b) float_ops \<Rightarrow> i32 \<Rightarrow> string" where
  "TickIndexToSqrtPrice F tickIndex =
     (let exponent = f_div F (f_of_i32 F tickIndex) (f_lit F 2);
          sqrtPrice = f_pow F (f_lit F (10001 / 10000)) exponent
      in big_String (b_int F (b_mul F (b_of_f F sqrtPrice) (b_of_int F Q64One))))"

definition SqrtPriceToTickIndex :: "('f, 'b) float_ops \<Rightarrow> string \<Rightarrow> fixed_error + i32" where
  "SqrtPriceToTickIndex F s =
     (case big_SetString s of
        None \<Rightarrow> Inl (InvalidSqrtPrice s)
      | Some sqrtPrice \<Rightarrow>
          let price = b_to_f F (b_quo F (b_of_int F sqrtPrice) (b_of_int F Q64One));
              logBase = f_log F (f_lit F (10001 / 10000));
              tickIndex = f_floor F (f_mul F (f_div F (f_log F price) logBase) (f_lit F 2))
          in Inr (f_to_i32 F tickIndex))"

definition ScaleAmount :: "('f, 'b) float_ops \<Rightarrow> u64 \<Rightarrow> u8 \<Rightarrow> 'f" where
  "ScaleAmount F amount decimals =
     (let divisor = f_pow F (f_lit F 10) (f_of_u8 F decimals)
      in f_div F (f_of_u64 F amount) divisor)"

definition UnscaleAmount :: "('f, 'b) float_ops \<Rightarrow> 'f \<Rightarrow> u8 \<Rightarrow> u64" where
  "UnscaleAmount F amount decimals =
     (let multiplier = f_pow F (f_lit F 10) (f_of_u8 F decimals)
      in f_to_u64 F (f_mul F amount multiplier))"

definition CalculatePriceFromAmounts ::
  "('f, 'b) float_ops \<Rightarrow> u64 \<Rightarrow> u64 \<Rightarrow> u8 \<Rightarrow> u8 \<Rightarrow> 'f" where
  "CalculatePriceFromAmounts F amountA amountB decimalsA decimalsB =
     (if amountA = 0 then f_lit F 0
      else
        let scaledA = ScaleAmount F amountA decimalsA;
            scaledB = ScaleAmount F amountB decimalsB
        in f_div F scaledB scaledA)"

section \<open>Exact arithmetic as an instance\<close>

definition exact_ops :: "(real, real) float_ops" where
  "exact_ops = \<lparr>
     f_of_u64 = (\<lambda>a. real (unat a)), f_of_u8 = (\<lambda>a. real (unat a)),
     f_of_i32 = (\<lambda>a. real_of_int (sint a)), f_lit = of_rat,
     f_pow = (powr), f_mul = (*), f_div = (/), f_sqrt = sqrt, f_log = ln,
     f_floor = (\<lambda>x. real_of_int \<lfloor>x\<rfloor>), f_eq = (=),
     f_to_u64 = (\<lambda>x. word_of_int \<lfloor>x\<rfloor>), f_to_i32 = (\<lambda>x. word_of_int \<lfloor>x\<rfloor>),
     b_of_int = real_of_int, b_of_f = id, b_quo = (/), b_mul = (*), b_to_f = id,
     b_int = (\<lambda>x. \<lfloor>x\<rfloor>)\<rparr>"

section \<open>Lemmas\<close>

lemma digits_value_snoc [simp]: "digits_value (s @ [c]) = 10 * digits_value s + digit_val c"
  by (simp add: digits_value_def)

lemma digits_value_show [simp]: "digits_value (show_nat n) = n"
proof (induction n rule: show_nat.induct)
  case (1 n)
  show ?case
  proof (cases "n < 10")
    case True
    then show ?thesis by (simp add: show_nat.simps [of n] digits_value_def)
  next
    case False
    with 1 show ?thesis by (simp add: show_nat.simps [of n])
  qed
qed

lemma show_nat_inject [simp]: "show_nat m = show_nat n \<longleftrightarrow> m = n"
  by (metis digits_value_show)

lemma big_digits_show [simp]: "big_digits (show_nat n) = Some n"
  using show_nat_digits [of n] by (simp add: big_digits_def list_all_iff)

lemma show_nat_no_sign: "hd (show_nat n) \<noteq> CHR ''+'' \<and> hd (show_nat n) \<noteq> CHR ''-''"
proof -
  have "is_digit (hd (show_nat n))" using show_nat_digits [of n] by simp
  moreover have "\<not> is_digit (CHR ''+'')" "\<not> is_digit (CHR ''-'')"
    by (simp_all add: is_digit_def)
  ultimately show ?thesis by metis
qed

lemma big_SetString_show [simp]: "big_SetString (show_nat n) = Some (int n)"
  using show_nat_no_sign [of n]
  by (cases "show_nat n") (simp_all add: big_SetString_def flip: big_digits_show [of n])

text \<open>Printing a \<open>big.Int\<close> and reading it back.\<close>

lemma big_SetString_String: "big_SetString (big_String i) = Some i"
proof (cases "i < 0")
  case True
  then show ?thesis by (simp add: big_String_def) (simp add: big_SetString_def)
next
  case False
  then show ?thesis by (simp add: big_String_def)
qed

section \<open>Properties\<close>

text \<open>
  The conversion formula: on the decimal string of a sqrt price, with exact arithmetic,
  \<open>SqrtPriceQ64ToFloat\<close> is \<open>(sqrt_price / 2^64)^2\<close>; and for every arithmetic, it reports an
  error exactly on the strings \<open>big.Int\<close> refuses.
\<close>

theorem SqrtPriceQ64ToFloat_formula:
  "SqrtPriceQ64ToFloat exact_ops (big_String i) = Inr ((real_of_int i / 2 ^ 64) ^ 2)
   \<and> ((\<exists>e. SqrtPriceQ64ToFloat F s = Inl e) = (big_SetString s = None))"
  by (auto simp: SqrtPriceQ64ToFloat_def big_SetString_String exact_ops_def Let_def Q64One_def
      Q64Shift_def power2_eq_square split: option.splits)

end
