(* ===== verification/Raydium.thy ===== *)
theory Raydium
  imports Pair FixedPoint
begin

text \<open>
  The Raydium CLMM decoder: \<open>decoder/raydium/instruction.go\<close> and \<open>decoder/raydium/parser.go\<close>.
  Balances, deltas and amounts keep their 64 bits; a conversion \<open>int64(x)\<close> keeps the bits, so
  \<open>int64(post) - int64(pre)\<close> is the word \<open>post - pre\<close>, compared as a signed number.
\<close>

section \<open>decoder/raydium/instruction.go\<close>

definition Raydium_ProgramID :: string where
  "Raydium_ProgramID = ''CAMMCzo5YL8w4VFF8KVHrK22GGUsp5VTaW7grrKgrWqK''"

record SwapInstruction =
  si_Discriminator :: bytes
  si_Amount :: u64
  si_OtherAmountThreshold :: u64
  si_SqrtPriceLimitX64Low :: u64
  si_SqrtPriceLimitX64High :: u64
  si_IsBaseInput :: bool

record RaySwapEvent =
  rs_PoolAddress :: string
  rs_MintA :: string
  rs_MintB :: string
  rs_DecimalsA :: u8
  rs_DecimalsB :: u8
  rs_AmountIn :: u64
  rs_AmountOut :: u64
  rs_FeeBps :: u16
  rs_SqrtPriceX64Low :: u64
  rs_SqrtPriceX64High :: u64
  rs_IsBaseInput :: bool
  rs_Slot :: u64
  rs_Signature :: string
  rs_Timestamp :: i64

datatype ray_error =
    InstructionTooShort nat
  | InstructionNil
  | ContextNil
  | UnknownDirection i64 i64
  | AmountInZero
  | AmountOutZero

definition ParseSwapInstruction :: "bytes \<Rightarrow> ray_error + SwapInstruction" where
  "ParseSwapInstruction data =
     (if length data < 41 then Inl (InstructionTooShort (length data))
      else Inr \<lparr>si_Discriminator = slice 0 8 data,
        si_Amount = LittleEndian_Uint64 (slice 8 16 data),
        si_OtherAmountThreshold = LittleEndian_Uint64 (slice 16 24 data),
        si_SqrtPriceLimitX64Low = LittleEndian_Uint64 (slice 24 32 data),
        si_SqrtPriceLimitX64High = LittleEndian_Uint64 (slice 32 40 data),
        si_IsBaseInput = (data ! 40 \<noteq> 0)\<rparr>)"

definition SqrtPriceX64 :: "SwapInstruction \<Rightarrow> u64 \<times> u64" where
  "SqrtPriceX64 s = (si_SqrtPriceLimitX64Low s, si_SqrtPriceLimitX64High s)"

section \<open>decoder/raydium/parser.go\<close>

record AccountKeys =
  ak_PoolAddress :: string
  ak_TokenVaultA :: string
  ak_TokenVaultB :: string
  ak_MintA :: string
  ak_MintB :: string
  ak_UserTokenA :: string
  ak_UserTokenB :: string
  ak_TickArrayLower :: string
  ak_TickArrayUpper :: string
  ak_ObservationKey :: string

record SwapContext =
  sc_Accounts :: AccountKeys
  sc_PreTokenA :: u64
  sc_PostTokenA :: u64
  sc_PreTokenB :: u64
  sc_PostTokenB :: u64
  sc_DecimalsA :: u8
  sc_DecimalsB :: u8
  sc_FeeBps :: u16
  sc_Slot :: u64
  sc_Signature :: string
  sc_Timestamp :: i64

definition ray_event_base :: "SwapInstruction \<Rightarrow> SwapContext \<Rightarrow> RaySwapEvent" where
  "ray_event_base instr ctx = \<lparr>
     rs_PoolAddress = ak_PoolAddress (sc_Accounts ctx),
     rs_MintA = ak_MintA (sc_Accounts ctx),
     rs_MintB = ak_MintB (sc_Accounts ctx),
     rs_DecimalsA = sc_DecimalsA ctx,
     rs_DecimalsB = sc_DecimalsB ctx,
     rs_AmountIn = 0,
     rs_AmountOut = 0,
     rs_FeeBps = sc_FeeBps ctx,
     rs_SqrtPriceX64Low = si_SqrtPriceLimitX64Low instr,
     rs_SqrtPriceX64High = si_SqrtPriceLimitX64High instr,
     rs_IsBaseInput = si_IsBaseInput instr,
     rs_Slot = sc_Slot ctx,
     rs_Signature = sc_Signature ctx,
     rs_Timestamp = sc_Timestamp ctx\<rparr>"

definition ParseSwapEvent ::
  "SwapInstruction option \<Rightarrow> SwapContext option \<Rightarrow> ray_error + RaySwapEvent" where
  "ParseSwapEvent instr_ptr ctx_ptr =
     (case instr_ptr of None \<Rightarrow> Inl InstructionNil | Some instr \<Rightarrow>
      (case ctx_ptr of None \<Rightarrow> Inl ContextNil | Some ctx \<Rightarrow>
        let event = ray_event_base instr ctx;
            deltaA = sc_PostTokenA ctx - sc_PreTokenA ctx;
            deltaB = sc_PostTokenB ctx - sc_PreTokenB ctx;
            directed =
              (if 0 <s deltaA \<and> deltaB <s 0 then
                 Inr (event\<lparr>rs_AmountIn := deltaA, rs_AmountOut := - deltaB, rs_IsBaseInput := True\<rparr>)
               else if deltaA <s 0 \<and> 0 <s deltaB then
                 Inr (event\<lparr>rs_AmountIn := deltaB, rs_AmountOut := - deltaA, rs_IsBaseInput := False\<rparr>)
               else Inl (UnknownDirection deltaA deltaB))
        in case directed of
             Inl err \<Rightarrow> Inl err
           | Inr ev \<Rightarrow>
               if rs_AmountIn ev = 0 then Inl AmountInZero
               else if rs_AmountOut ev = 0 then Inl AmountOutZero
               else Inr ev))"

text \<open>The method changes its receiver in place and returns the pair: the result is both.\<close>

definition NormalizeToCanonicalPair ::
  "pair_registry \<Rightarrow> RaySwapEvent \<Rightarrow> RaySwapEvent \<times> (pair_error + CanonicalPair)" where
  "NormalizeToCanonicalPair reg e =
     (case ResolvePair reg (rs_MintA e) (rs_MintB e) of
        Inl err \<Rightarrow> (e, Inl err)
      | Inr pair \<Rightarrow>
          (if cp_Inverted pair then
             e\<lparr>rs_MintA := rs_MintB e, rs_MintB := rs_MintA e,
               rs_DecimalsA := rs_DecimalsB e, rs_DecimalsB := rs_DecimalsA e,
               rs_IsBaseInput := \<not> rs_IsBaseInput e\<rparr>
           else e, Inr pair))"

definition Ray_CalculatePrice :: "('f, 'b) float_ops \<Rightarrow> RaySwapEvent \<Rightarrow> 'f" where
  "Ray_CalculatePrice F e =
     (let baseAmount = (if rs_IsBaseInput e then ScaleAmount F (rs_AmountIn e) (rs_DecimalsA e)
            else ScaleAmount F (rs_AmountOut e) (rs_DecimalsA e));
          quoteAmount = (if rs_IsBaseInput e then ScaleAmount F (rs_AmountOut e) (rs_DecimalsB e)
            else ScaleAmount F (rs_AmountIn e) (rs_DecimalsB e))
      in if f_eq F baseAmount (f_lit F 0) then f_lit F 0 else f_div F quoteAmount baseAmount)"

definition Ray_CalculateVolume :: "RaySwapEvent \<Rightarrow> u64" where
  "Ray_CalculateVolume e = (if rs_IsBaseInput e then rs_AmountOut e else rs_AmountIn e)"

section \<open>Reference encoding of a swap instruction\<close>

definition swap_instruction_bytes :: "SwapInstruction \<Rightarrow> bytes" where
  "swap_instruction_bytes i =
     si_Discriminator i @ le_bytes 8 (unat (si_Amount i)) @ le_bytes 8 (unat (si_OtherAmountThreshold i))
     @ le_bytes 8 (unat (si_SqrtPriceLimitX64Low i)) @ le_bytes 8 (unat (si_SqrtPriceLimitX64High i))
     @ [if si_IsBaseInput i then 1 else 0]"

section \<open>Lemmas\<close>

lemma signed_pos_u64: "0 <s (d :: i64) \<longleftrightarrow> 0 < sint d"
  by (simp add: word_sless_alt)

lemma signed_neg_u64: "(d :: i64) <s 0 \<longleftrightarrow> sint d < 0"
  by (simp add: word_sless_alt)

lemma signed_nonzero: "0 <s (d :: i64) \<or> d <s 0 \<Longrightarrow> d \<noteq> 0"
  by (auto simp: signed_pos_u64 signed_neg_u64)

text \<open>The two checks for zero amounts after the direction switch can never fire.\<close>

lemma ParseSwapEvent_directions:
  "ParseSwapEvent (Some instr) (Some ctx) =
    (let deltaA = sc_PostTokenA ctx - sc_PreTokenA ctx;
         deltaB = sc_PostTokenB ctx - sc_PreTokenB ctx;
         event = ray_event_base instr ctx
     in if 0 <s deltaA \<and> deltaB <s 0 then
          Inr (event\<lparr>rs_AmountIn := deltaA, rs_AmountOut := - deltaB, rs_IsBaseInput := True\<rparr>)
        else if deltaA <s 0 \<and> 0 <s deltaB then
          Inr (event\<lparr>rs_AmountIn := deltaB, rs_AmountOut := - deltaA, rs_IsBaseInput := False\<rparr>)
        else Inl (UnknownDirection deltaA deltaB))"
  by (auto simp: ParseSwapEvent_def Let_def dest: signed_nonzero)

text \<open>Exact amounts, when no vault balance moves by \<open>2^63\<close> or more.\<close>

lemma delta_sign:
  fixes pre post :: u64
  assumes "\<bar>uint post - uint pre\<bar> < 2 ^ 63"
  shows "0 <s post - pre \<longleftrightarrow> pre < post" and "post - pre <s 0 \<longleftrightarrow> post < pre"
  unfolding signed_pos_u64 signed_neg_u64 sint_sub_u64 [OF assms] word_less_alt by auto

lemma delta_value:
  fixes pre post :: u64
  shows "pre < post \<Longrightarrow> unat pre + unat (post - pre) = unat post"
  using unat_sub [of pre post] by (simp add: word_le_nat_alt word_less_nat_alt)

section \<open>The two legs of an event\<close>

text \<open>Mint, decimals and raw amount of the A side and of the B side of an event.\<close>

definition leg_A :: "RaySwapEvent \<Rightarrow> string \<times> u8 \<times> u64" where
  "leg_A e = (rs_MintA e, rs_DecimalsA e, if rs_IsBaseInput e then rs_AmountIn e else rs_AmountOut e)"

definition leg_B :: "RaySwapEvent \<Rightarrow> string \<times> u8 \<times> u64" where
  "leg_B e = (rs_MintB e, rs_DecimalsB e, if rs_IsBaseInput e then rs_AmountOut e else rs_AmountIn e)"

definition leg_scaled :: "('f, 'b) float_ops \<Rightarrow> string \<times> u8 \<times> u64 \<Rightarrow> 'f" where
  "leg_scaled F l = ScaleAmount F (snd (snd l)) (fst (snd l))"

lemma Ray_CalculatePrice_legs:
  "Ray_CalculatePrice F e =
     (if f_eq F (leg_scaled F (leg_A e)) (f_lit F 0) then f_lit F 0
      else f_div F (leg_scaled F (leg_B e)) (leg_scaled F (leg_A e)))"
  by (simp add: Ray_CalculatePrice_def leg_scaled_def leg_A_def leg_B_def Let_def)

lemma Ray_CalculateVolume_leg: "Ray_CalculateVolume e = snd (snd (leg_B e))"
  by (simp add: Ray_CalculateVolume_def leg_B_def)

lemma Normalize_legs:
  assumes "NormalizeToCanonicalPair reg e = (e', Inr pair)"
  shows "(leg_A e', leg_B e') = (if cp_Inverted pair then (leg_B e, leg_A e) else (leg_A e, leg_B e))"
    and "(rs_MintA e', rs_MintB e') = (cp_BaseMint pair, cp_QuoteMint pair)"
    and "ResolvePair reg (rs_MintA e) (rs_MintB e) = Inr pair"
  using assms ResolvePair_mints [of reg "rs_MintA e" "rs_MintB e" pair]
  by (auto simp: NormalizeToCanonicalPair_def leg_A_def leg_B_def split: sum.splits if_splits)

section \<open>Properties\<close>

text \<open>
  Parsing the byte encoding of a swap instruction, followed by any further bytes, gives the
  instruction back; data is refused exactly when it has fewer than 41 bytes.
\<close>

theorem ParseSwapInstruction_roundtrip:
  assumes "length (si_Discriminator i) = 8"
  shows "ParseSwapInstruction (swap_instruction_bytes i @ rest) = Inr i
    \<and> ((\<exists>e. ParseSwapInstruction data = Inl e) = (length data < 41))"
  using assms
  by (auto simp: ParseSwapInstruction_def swap_instruction_bytes_def slice_def nth_append)

text \<open>The property at an instruction that swaps five units of the base token.\<close>

theorem ParseSwapInstruction_roundtrip_witness:
  "let i = \<lparr>si_Discriminator = [1, 2, 3, 4, 5, 6, 7, 8], si_Amount = 5, si_OtherAmountThreshold = 300,
        si_SqrtPriceLimitX64Low = 18446744073709551615, si_SqrtPriceLimitX64High = 0,
        si_IsBaseInput = True\<rparr>
   in length (si_Discriminator i) = 8 \<and> ParseSwapInstruction (swap_instruction_bytes i @ [9]) = Inr i"
  unfolding Let_def
  by (intro conjI ParseSwapInstruction_roundtrip [THEN conjunct1]) simp_all

text \<open>
  (C11) When neither vault balance moves by \<open>2^63\<close> or more, the decoder reports the exact balance
  changes: tokens entering vault A and leaving vault B are a base-input swap with these amounts,
  the opposite movement is a quote-input swap, and every other movement (a vault unchanged, or
  both moving the same way) is refused as an unknown direction. The flag of the instruction data
  plays no role.
\<close>

theorem ParseSwapEvent_exact:
  assumes "\<bar>uint (sc_PostTokenA ctx) - uint (sc_PreTokenA ctx)\<bar> < 2 ^ 63"
    and "\<bar>uint (sc_PostTokenB ctx) - uint (sc_PreTokenB ctx)\<bar> < 2 ^ 63"
  shows "case ParseSwapEvent (Some instr) (Some ctx) of
      Inr ev \<Rightarrow>
        (if rs_IsBaseInput ev then
           unat (sc_PreTokenA ctx) + unat (rs_AmountIn ev) = unat (sc_PostTokenA ctx)
           \<and> unat (sc_PostTokenB ctx) + unat (rs_AmountOut ev) = unat (sc_PreTokenB ctx)
         else
           unat (sc_PreTokenB ctx) + unat (rs_AmountIn ev) = unat (sc_PostTokenB ctx)
           \<and> unat (sc_PostTokenA ctx) + unat (rs_AmountOut ev) = unat (sc_PreTokenA ctx))
        \<and> rs_AmountIn ev \<noteq> 0 \<and> rs_AmountOut ev \<noteq> 0
    | Inl err \<Rightarrow>
        \<not> (sc_PreTokenA ctx < sc_PostTokenA ctx \<and> sc_PostTokenB ctx < sc_PreTokenB ctx)
        \<and> \<not> (sc_PostTokenA ctx < sc_PreTokenA ctx \<and> sc_PreTokenB ctx < sc_PostTokenB ctx)"
  using delta_value [of "sc_PreTokenA ctx" "sc_PostTokenA ctx"] delta_value [of "sc_PostTokenA ctx" "sc_PreTokenA ctx"]
    delta_value [of "sc_PreTokenB ctx" "sc_PostTokenB ctx"] delta_value [of "sc_PostTokenB ctx" "sc_PreTokenB ctx"]
  by (auto simp: ParseSwapEvent_directions Let_def delta_sign [OF assms(1)] delta_sign [OF assms(2)])

definition sample_ctx :: SwapContext where
  "sample_ctx = \<lparr>sc_Accounts = \<lparr>ak_PoolAddress = ''pool'', ak_TokenVaultA = [], ak_TokenVaultB = [],
       ak_MintA = ''mintA'', ak_MintB = ''mintB'', ak_UserTokenA = [], ak_UserTokenB = [],
       ak_TickArrayLower = [], ak_TickArrayUpper = [], ak_ObservationKey = []\<rparr>,
     sc_PreTokenA = 1000, sc_PostTokenA = 1500, sc_PreTokenB = 900, sc_PostTokenB = 880,
     sc_DecimalsA = 9, sc_DecimalsB = 6, sc_FeeBps = 0, sc_Slot = 42, sc_Signature = ''sig'',
     sc_Timestamp = 0\<rparr>"

definition sample_instruction :: SwapInstruction where
  "sample_instruction = \<lparr>si_Discriminator = replicate 8 0, si_Amount = 500, si_OtherAmountThreshold = 0,
     si_SqrtPriceLimitX64Low = 0, si_SqrtPriceLimitX64High = 0, si_IsBaseInput = False\<rparr>"

text \<open>The property at a swap of 500 units into vault A against 20 units out of vault B.\<close>

theorem ParseSwapEvent_exact_witness:
  "\<exists>ev. ParseSwapEvent (Some sample_instruction) (Some sample_ctx) = Inr ev
     \<and> rs_IsBaseInput ev \<and> unat (rs_AmountIn ev) = 500 \<and> unat (rs_AmountOut ev) = 20"
proof -
  have bounds: "\<bar>uint (sc_PostTokenA sample_ctx) - uint (sc_PreTokenA sample_ctx)\<bar> < 2 ^ 63"
    "\<bar>uint (sc_PostTokenB sample_ctx) - uint (sc_PreTokenB sample_ctx)\<bar> < 2 ^ 63"
    by (simp_all add: sample_ctx_def)
  obtain ev where ev: "ParseSwapEvent (Some sample_instruction) (Some sample_ctx) = Inr ev"
    and base: "rs_IsBaseInput ev"
    by (simp add: ParseSwapEvent_directions sample_ctx_def word_sless_alt Let_def)
  show ?thesis
    using ParseSwapEvent_exact [OF bounds, of sample_instruction] ev base
    by (simp add: sample_ctx_def)
qed

text \<open>
  Beyond that bound the \<open>int64\<close> differences wrap: with \<open>2^63\<close> tokens entering vault A and five entering
  vault B the decoder reports a swap that takes \<open>2^63\<close> tokens out of vault A.
\<close>

lemma ParseSwapEvent_wraps:
  "\<exists>ev. ParseSwapEvent (Some sample_instruction)
      (Some (sample_ctx\<lparr>sc_PreTokenA := 0, sc_PostTokenA := 2 ^ 63, sc_PreTokenB := 0, sc_PostTokenB := 5\<rparr>)) = Inr ev
     \<and> \<not> rs_IsBaseInput ev \<and> rs_AmountIn ev = 5 \<and> rs_AmountOut ev = 2 ^ 63"
  by (simp add: ParseSwapEvent_directions word_sless_alt Let_def)

text \<open>
  Normalising an event puts its two legs (mint, decimals, amount moved) in canonical order
  and changes nothing else of them: they are exchanged when the pair was inverted, so the price
  becomes the reciprocal quotient of the same two scaled amounts and the volume is the amount of
  the canonical quote mint; normalising a second time changes nothing.
\<close>

theorem Normalize_canonical:
  assumes "NormalizeToCanonicalPair reg e = (e', Inr pair)"
  shows "(leg_A e', leg_B e') = (if cp_Inverted pair then (leg_B e, leg_A e) else (leg_A e, leg_B e))
    \<and> fst (leg_A e') = cp_BaseMint pair \<and> fst (leg_B e') = cp_QuoteMint pair
    \<and> Ray_CalculateVolume e' = snd (snd (if cp_Inverted pair then leg_A e else leg_B e))
    \<and> (cp_Inverted pair \<and> \<not> f_eq F (leg_scaled F (leg_B e)) (f_lit F 0) \<longrightarrow>
        Ray_CalculatePrice F e' = f_div F (leg_scaled F (leg_A e)) (leg_scaled F (leg_B e)))
    \<and> NormalizeToCanonicalPair reg e' = (e', Inr (pair\<lparr>cp_Inverted := False\<rparr>))"
proof -
  note legs = Normalize_legs [OF assms]
  have "ResolvePair reg (rs_MintA e') (rs_MintB e') = Inr (pair\<lparr>cp_Inverted := False\<rparr>)"
    using ResolvePair_again [OF legs(3)] legs(2) by simp
  then have again: "NormalizeToCanonicalPair reg e' = (e', Inr (pair\<lparr>cp_Inverted := False\<rparr>))"
    by (simp add: NormalizeToCanonicalPair_def)
  have mints: "fst (leg_A e') = cp_BaseMint pair" "fst (leg_B e') = cp_QuoteMint pair"
    using legs(2) by (simp_all add: leg_A_def leg_B_def)
  show ?thesis
    using legs(1) again mints
    by (auto simp: Ray_CalculatePrice_legs Ray_CalculateVolume_leg)
qed

definition sample_usdc_sol :: RaySwapEvent where
  "sample_usdc_sol = (ray_event_base sample_instruction sample_ctx)
     \<lparr>rs_MintA := USDC_mint,
      rs_MintB := SOL_mint,
      rs_DecimalsA := 6, rs_DecimalsB := 9, rs_AmountIn := 25, rs_AmountOut := 1000,
      rs_IsBaseInput := True\<rparr>"

text \<open>The property at a USDC-to-SOL swap, which is inverted to SOL/USDC.\<close>

theorem Normalize_canonical_witness:
  "\<exists>e' pair. NormalizeToCanonicalPair initial_registry sample_usdc_sol = (e', Inr pair)
     \<and> cp_Inverted pair \<and> fst (leg_B e') = USDC_mint \<and> Ray_CalculateVolume e' = 25"
proof -
  have "ResolvePair initial_registry USDC_mint SOL_mint =
      Inr \<lparr>cp_BaseToken = ''SOL'', cp_BaseMint = SOL_mint, cp_QuoteToken = ''USDC'',
           cp_QuoteMint = USDC_mint, cp_Inverted = True\<rparr>"
    by (simp add: ResolvePair_def initial_symbols initial_priority)
  then obtain e' pair
    where run: "NormalizeToCanonicalPair initial_registry sample_usdc_sol = (e', Inr pair)"
    and pair: "cp_Inverted pair" "cp_QuoteMint pair = USDC_mint"
    by (simp add: NormalizeToCanonicalPair_def sample_usdc_sol_def)
  have "snd (snd (leg_A sample_usdc_sol)) = 25"
    by (simp add: leg_A_def sample_usdc_sol_def)
  then show ?thesis
    using Normalize_canonical [OF run, of exact_ops] pair run by auto
qed

end
