(* ===== verification/Orca.thy ===== *)
theory Orca
  imports Pair FixedPoint Dex
begin

text \<open>
  The Orca Whirlpool decoder: \<open>decoder/orca_whirlpool\<close> (\<open>types.go\<close>, \<open>decoder.go\<close>,
  \<open>proto.go\<close>). The metadata provider is the pair of functions the decoder calls on its
  interface value; floating-point operations are the parameter \<open>F\<close> of \<open>FixedPoint\<close>.
  Subtractions of balances and products of amounts and rates wrap at 64 bits, as in Go.
\<close>

section \<open>decoder/orca_whirlpool/types.go\<close>

definition WhirlpoolProgramID :: string where
  "WhirlpoolProgramID = ''whirLbMiicVdio4qvUfM5KAg6Ct8VwpYzGff3uctyCc''"

definition SwapInstructionDiscriminator :: u64 where
  "SwapInstructionDiscriminator = 0xf8c69e91e17587c8"

record 'f OrcaSwapEvent =
  os_Signature :: string
  os_Slot :: u64
  os_Timestamp :: gotime
  os_PoolAddress :: string
  os_MintA :: string
  os_MintB :: string
  os_AToB :: bool
  os_AmountIn :: u64
  os_AmountOut :: u64
  os_SqrtPriceQ64Pre :: string
  os_SqrtPriceQ64Post :: string
  os_TickIndexPre :: i32
  os_TickIndexPost :: i32
  os_LiquidityPre :: string
  os_LiquidityPost :: string
  os_FeeAmount :: u64
  os_ProtocolFee :: u64
  os_Price :: 'f
  os_VolumeBase :: 'f
  os_VolumeQuote :: 'f
  os_BaseAsset :: string
  os_QuoteAsset :: string

record OrcaSwapInstruction =
  oi_Amount :: u64
  oi_OtherAmountThreshold :: u64
  oi_SqrtPriceLimit :: string
  oi_AmountSpecifiedIsInput :: bool
  oi_AToB :: bool

record WhirlpoolState =
  ws_WhirlpoolAddress :: string
  ws_TokenMintA :: string
  ws_TokenMintB :: string
  ws_TokenVaultA :: string
  ws_TokenVaultB :: string
  ws_SqrtPrice :: string
  ws_TickCurrentIndex :: i32
  ws_Liquidity :: string
  ws_FeeRate :: u16
  ws_ProtocolFeeRate :: u16

section \<open>decoder/orca_whirlpool/decoder.go\<close>

definition bytesToU128String :: "bytes \<Rightarrow> string" where
  "bytesToU128String b =
     (let low = LittleEndian_Uint64 (slice 0 8 b);
          high = LittleEndian_Uint64 (slice 8 16 b)
      in if high = 0 then show_nat (unat low)
         else show_nat (unat high) @ pad_left_zero 16 (show_nat (unat low)))"

datatype orca_error =
    DataTooShort
  | NotSwapInstruction u64
  | SwapDataTooShort nat
  | InsufficientAccounts
  | PoolStatePreRequired
  | PoolStatePostRequired
  | InsufficientBalances
  | DecimalsAUnknown mint_error
  | DecimalsBUnknown mint_error
  | BaseQuoteUnknown mint_error
  | BadSqrtPrice fixed_error

definition decodeSwapInstruction :: "bytes \<Rightarrow> orca_error + OrcaSwapInstruction" where
  "decodeSwapInstruction data =
     (if length data < 34 then Inl (SwapDataTooShort (length data))
      else Inr \<lparr>oi_Amount = LittleEndian_Uint64 (slice 0 8 data),
        oi_OtherAmountThreshold = LittleEndian_Uint64 (slice 8 16 data),
        oi_SqrtPriceLimit = bytesToU128String (slice 16 32 data),
        oi_AmountSpecifiedIsInput = (data ! 32 \<noteq> 0),
        oi_AToB = (data ! 33 \<noteq> 0)\<rparr>)"

definition calculateAmounts ::
  "OrcaSwapInstruction \<Rightarrow> u64 list \<Rightarrow> u64 list \<Rightarrow> orca_error + (u64 \<times> u64)" where
  "calculateAmounts instruction preBalances postBalances =
     (if length preBalances < 7 \<or> length postBalances < 7 then Inl InsufficientBalances
      else if oi_AToB instruction then
        Inr (preBalances ! 3 - postBalances ! 3, postBalances ! 5 - preBalances ! 5)
      else
        Inr (preBalances ! 5 - postBalances ! 5, postBalances ! 3 - preBalances ! 3))"

definition calculateFeeAmount :: "u64 \<Rightarrow> u16 \<Rightarrow> u64" where
  "calculateFeeAmount amountIn feeRate = (amountIn * ucast feeRate) div 10000"

definition calculateProtocolFee :: "u64 \<Rightarrow> u16 \<Rightarrow> u64" where
  "calculateProtocolFee feeAmount protocolFeeRate = (feeAmount * ucast protocolFeeRate) div 10000"

text \<open>The volumes of the base and the quote leg: the four-way branch on direction and order.\<close>

definition orca_volumes ::
  "('f, 'b) float_ops \<Rightarrow> bool \<Rightarrow> bool \<Rightarrow> u64 \<Rightarrow> u64 \<Rightarrow> u8 \<Rightarrow> u8 \<Rightarrow> 'f \<times> 'f" where
  "orca_volumes F aToB baseIsA amountIn amountOut decimalsA decimalsB =
     (if aToB then
        (if baseIsA then (ScaleAmount F amountIn decimalsA, ScaleAmount F amountOut decimalsB)
         else (ScaleAmount F amountOut decimalsB, ScaleAmount F amountIn decimalsA))
      else
        (if baseIsA then (ScaleAmount F amountOut decimalsA, ScaleAmount F amountIn decimalsB)
         else (ScaleAmount F amountIn decimalsB, ScaleAmount F amountOut decimalsA)))"

definition DecodeSwapTransaction ::
  "('f, 'b) float_ops \<Rightarrow> (string \<Rightarrow> mint_error + MintMetadata) \<Rightarrow> (string \<Rightarrow> mint_error + u8) \<Rightarrow>
   string \<Rightarrow> u64 \<Rightarrow> gotime \<Rightarrow> bytes \<Rightarrow> string list \<Rightarrow> u64 list \<Rightarrow> u64 list \<Rightarrow>
   WhirlpoolState option \<Rightarrow> WhirlpoolState option \<Rightarrow> orca_error + 'f OrcaSwapEvent" where
  "DecodeSwapTransaction F getMeta getDecimals signature slot timestamp instructionData accounts
     preBalances postBalances poolStatePre poolStatePost =
   (if length instructionData < 8 then Inl DataTooShort
    else let discriminator = LittleEndian_Uint64 (slice 0 8 instructionData) in
    if discriminator \<noteq> SwapInstructionDiscriminator then Inl (NotSwapInstruction discriminator)
    else case decodeSwapInstruction (drop 8 instructionData) of Inl err \<Rightarrow> Inl err | Inr instruction \<Rightarrow>
    if length accounts < 3 then Inl InsufficientAccounts
    else case poolStatePre of None \<Rightarrow> Inl PoolStatePreRequired | Some pre \<Rightarrow>
    case poolStatePost of None \<Rightarrow> Inl PoolStatePostRequired | Some post \<Rightarrow>
    let mintA = ws_TokenMintA pre; mintB = ws_TokenMintB pre in
    case calculateAmounts instruction preBalances postBalances of Inl err \<Rightarrow> Inl err
      | Inr (amountIn, amountOut) \<Rightarrow>
    case getDecimals mintA of Inl err \<Rightarrow> Inl (DecimalsAUnknown err) | Inr decimalsA \<Rightarrow>
    case getDecimals mintB of Inl err \<Rightarrow> Inl (DecimalsBUnknown err) | Inr decimalsB \<Rightarrow>
    case DetermineBaseQuote getMeta mintA mintB of Inl err \<Rightarrow> Inl (BaseQuoteUnknown err)
      | Inr (baseMint, quoteMint) \<Rightarrow>
    case SqrtPriceQ64ToFloat F (ws_SqrtPrice post) of Inl err \<Rightarrow> Inl (BadSqrtPrice err)
      | Inr pricePost \<Rightarrow>
    let (volumeBase, volumeQuote) =
          orca_volumes F (oi_AToB instruction) (baseMint = mintA) amountIn amountOut decimalsA decimalsB;
        price = (if baseMint = mintA then pricePost else f_div F (f_lit F 1) pricePost);
        feeAmount = calculateFeeAmount amountIn (ws_FeeRate pre);
        protocolFee = calculateProtocolFee feeAmount (ws_ProtocolFeeRate pre)
    in Inr \<lparr>os_Signature = signature, os_Slot = slot, os_Timestamp = timestamp,
         os_PoolAddress = accounts ! 2, os_MintA = mintA, os_MintB = mintB,
         os_AToB = oi_AToB instruction, os_AmountIn = amountIn, os_AmountOut = amountOut,
         os_SqrtPriceQ64Pre = ws_SqrtPrice pre, os_SqrtPriceQ64Post = ws_SqrtPrice post,
         os_TickIndexPre = ws_TickCurrentIndex pre, os_TickIndexPost = ws_TickCurrentIndex post,
         os_LiquidityPre = ws_Liquidity pre, os_LiquidityPost = ws_Liquidity post,
         os_FeeAmount = feeAmount, os_ProtocolFee = protocolFee, os_Price = price,
         os_VolumeBase = volumeBase, os_VolumeQuote = volumeQuote,
         os_BaseAsset = baseMint, os_QuoteAsset = quoteMint\<rparr>)"

section \<open>decoder/orca_whirlpool/proto.go\<close>

definition Orca_ToProto :: "'f OrcaSwapEvent option \<Rightarrow> SwapEvent option" where
  "Orca_ToProto e_ptr =
     map_option (\<lambda>e. zero_SwapEvent\<lparr>se_ChainId := 501, se_Slot := os_Slot e, se_Sig := os_Signature e,
       se_ProgramId := WhirlpoolProgramID, se_PoolId := os_PoolAddress e,
       se_MintBase := os_BaseAsset e, se_MintQuote := os_QuoteAsset e, se_Provisional := True\<rparr>) e_ptr"

section \<open>Reference encoding of a swap instruction\<close>

definition orca_swap_bytes :: "bytes \<Rightarrow> u64 \<Rightarrow> u64 \<Rightarrow> nat \<Rightarrow> bool \<Rightarrow> bool \<Rightarrow> bytes" where
  "orca_swap_bytes disc amount threshold limit isInput aToB =
     disc @ le_bytes 8 (unat amount) @ le_bytes 8 (unat threshold) @ le_bytes 16 limit
     @ [if isInput then 1 else 0, if aToB then 1 else 0]"

section \<open>Lemmas\<close>

lemma le_bytes_split: "le_bytes (m + n) v = le_bytes m v @ le_bytes n (v div 256 ^ m)"
proof (induction m arbitrary: v)
  case (Suc m)
  then show ?case by (simp add: div_mult2_eq)
qed simp

lemma take_le_bytes: "m \<le> k \<Longrightarrow> take m (le_bytes k v) = le_bytes m v"
  using le_bytes_split [of m "k - m" v] by simp

lemma drop_le_bytes: "m \<le> k \<Longrightarrow> drop m (le_bytes k v) = le_bytes (k - m) (v div 256 ^ m)"
  using le_bytes_split [of m "k - m" v] by simp

lemma length_pad_left_zero [simp]: "length (pad_left_zero w s) = max w (length s)"
  by (simp add: pad_left_zero_def)

lemma digits_value_append: "digits_value (s @ t) = digits_value s * 10 ^ length t + digits_value t"
proof (induction t rule: rev_induct)
  case (snoc c t)
  then show ?case
    by (simp add: digits_value_snoc flip: append_assoc)
qed (simp add: digits_value_def)

lemma digits_value_zeros: "digits_value (replicate n (CHR ''0'')) = 0"
proof (induction n)
  case (Suc n)
  then show ?case
    using digits_value_append [of "[CHR ''0'']" "replicate n (CHR ''0'')"]
    by (simp add: digits_value_def digit_val_def)
qed (simp add: digits_value_def)

lemma digits_value_pad [simp]: "digits_value (pad_left_zero w s) = digits_value s"
  by (simp add: pad_left_zero_def digits_value_append digits_value_zeros)

lemma Uint64_le_bytes_nat: "n < 2 ^ 64 \<Longrightarrow> unat (LittleEndian_Uint64 (le_bytes 8 n)) = n"
  using Uint64_le_bytes [of "of_nat n"] by (simp add: unat_of_nat)

lemma u128_halves:
  assumes "v < 2 ^ 128"
  shows "unat (LittleEndian_Uint64 (slice 0 8 (le_bytes 16 v))) = v mod 2 ^ 64"
    and "unat (LittleEndian_Uint64 (slice 8 16 (le_bytes 16 v))) = v div 2 ^ 64"
proof -
  have "v div 2 ^ 64 < 2 ^ 64"
    using assms by (simp add: less_mult_imp_div_less)
  then show "unat (LittleEndian_Uint64 (slice 8 16 (le_bytes 16 v))) = v div 2 ^ 64"
    using Uint64_le_bytes_nat [of "v div 2 ^ 64"] by (simp add: slice_def drop_le_bytes)
  show "unat (LittleEndian_Uint64 (slice 0 8 (le_bytes 16 v))) = v mod 2 ^ 64"
    by (simp add: slice_def take_le_bytes LittleEndian_Uint64_def le_nat_le_bytes unat_of_nat)
qed

lemma bytesToU128String_halves:
  assumes "v < 2 ^ 128"
  shows "bytesToU128String (le_bytes 16 v) =
    (if v < 2 ^ 64 then show_nat v
     else show_nat (v div 2 ^ 64) @ pad_left_zero 16 (show_nat (v mod 2 ^ 64)))"
  using u128_halves [OF assms]
  by (simp add: bytesToU128String_def Let_def unat_eq_0 [symmetric] div_eq_0_iff)

lemma ten_power_not_u64: "(10::nat) ^ k \<noteq> 2 ^ 64"
proof (cases "k \<le> 19")
  case True
  then have "(10::nat) ^ k \<le> 10 ^ 19" by (intro power_increasing) auto
  then show ?thesis by simp
next
  case False
  then have "(10::nat) ^ 20 \<le> 10 ^ k" by (intro power_increasing) auto
  then show ?thesis by simp
qed

text \<open>Fees: a product below \<open>2^64\<close> is not wrapped, and a rate of at most 10000 takes at most the whole.\<close>

lemma fee_exact:
  fixes x :: u64 and r :: u16
  assumes "unat x * unat r < 2 ^ 64"
  shows "unat ((x * ucast r) div 10000) = unat x * unat r div 10000"
proof -
  have "unat (ucast r :: u64) = unat r"
    using unat_u16_less [of r] by (simp add: unsigned_ucast_eq take_bit_nat_eq_self)
  then have "unat (x * ucast r) = unat x * unat r"
    using assms by (simp add: unat_word_ariths)
  then show ?thesis by (simp add: unat_div)
qed

lemma rate_share_le: "(r::nat) \<le> 10000 \<Longrightarrow> x * r div 10000 \<le> x"
proof -
  assume "r \<le> 10000"
  then have "x * r \<le> x * 10000" by simp
  then have "x * r div 10000 \<le> x * 10000 div 10000" by (rule div_le_mono)
  then show ?thesis by simp
qed

section \<open>The two legs of an event\<close>

text \<open>The raw amounts of token A and of token B that an event moved.\<close>

definition orca_amount_A :: "'f OrcaSwapEvent \<Rightarrow> u64" where
  "orca_amount_A e = (if os_AToB e then os_AmountIn e else os_AmountOut e)"

definition orca_amount_B :: "'f OrcaSwapEvent \<Rightarrow> u64" where
  "orca_amount_B e = (if os_AToB e then os_AmountOut e else os_AmountIn e)"

lemma DetermineBaseQuote_Inr:
  assumes "DetermineBaseQuote getMeta a b = Inr (base, quote)"
  shows "provided_priority getMeta base \<le> provided_priority getMeta quote
    \<and> (base, quote) \<in> {(a, b), (b, a)}"
proof -
  have "determined_mints getMeta a b = Some (base, quote)"
    by (simp add: determined_mints_def assms)
  then show ?thesis by (rule dbq.orient_quote_max)
qed

lemma DetermineBaseQuote_ok_iff:
  "(\<exists>p. DetermineBaseQuote getMeta a b = Inr p) \<longleftrightarrow> provided getMeta a \<and> provided getMeta b"
  by (auto simp: DetermineBaseQuote_def provided_def Let_def split: sum.splits)

section \<open>Properties\<close>

text \<open>
  (C28) The decimal string that \<open>bytesToU128String\<close> gives for a 128-bit little-endian number is the
  number's own decimal representation exactly when the number is below \<open>2^64\<close>: above, the two
  halves are printed side by side, which never is the number.
\<close>

theorem bytesToU128String_correct_iff:
  assumes "v < 2 ^ 128"
  shows "(bytesToU128String (le_bytes 16 v) = show_nat v) = (v < 2 ^ 64)"
proof
  assume eq: "bytesToU128String (le_bytes 16 v) = show_nat v"
  show "v < 2 ^ 64"
  proof (rule ccontr)
    assume high: "\<not> v < 2 ^ 64"
    let ?k = "length (pad_left_zero 16 (show_nat (v mod 2 ^ 64)))"
    from eq high have "digits_value (show_nat v)
        = digits_value (show_nat (v div 2 ^ 64) @ pad_left_zero 16 (show_nat (v mod 2 ^ 64)))"
      by (simp only: bytesToU128String_halves [OF assms] if_False)
    then have "v = v div 2 ^ 64 * 10 ^ ?k + v mod 2 ^ 64"
      by (simp only: digits_value_append digits_value_show digits_value_pad)
    moreover have "v = v div 2 ^ 64 * 2 ^ 64 + v mod 2 ^ 64" by simp
    ultimately have "v div 2 ^ 64 * 10 ^ ?k = v div 2 ^ 64 * 2 ^ 64" by linarith
    with high have "(10::nat) ^ ?k = 2 ^ 64" by (simp add: div_eq_0_iff)
    with ten_power_not_u64 show False by blast
  qed
qed (simp add: bytesToU128String_halves [OF assms])

text \<open>The property at the sqrt price limit \<open>2^64\<close> (price one), printed as \<open>10000000000000000\<close>.\<close>

theorem bytesToU128String_correct_iff_witness:
  "(2::nat) ^ 64 < 2 ^ 128 \<and> bytesToU128String (le_bytes 16 (2 ^ 64)) \<noteq> show_nat (2 ^ 64)"
  using bytesToU128String_correct_iff [of "2 ^ 64"] by simp

text \<open>
  Decoding the byte encoding of a swap, after its eight discriminator bytes and followed by any
  bytes, gives back both amounts, both flags and, below \<open>2^64\<close>, the price limit; data is refused
  exactly when it has fewer than 34 bytes.
\<close>

theorem decodeSwapInstruction_roundtrip:
  assumes "length disc = 8"
  shows "(\<exists>i. decodeSwapInstruction (drop 8 (orca_swap_bytes disc amount threshold (unat limit) isInput aToB @ rest)) = Inr i
      \<and> i = \<lparr>oi_Amount = amount, oi_OtherAmountThreshold = threshold,
             oi_SqrtPriceLimit = show_nat (unat (limit :: u64)),
             oi_AmountSpecifiedIsInput = isInput, oi_AToB = aToB\<rparr>)
    \<and> ((\<exists>e. decodeSwapInstruction data = Inl e) = (length data < 34))"
proof -
  have "unat limit < 2 ^ 64" by (rule unat_u64_less)
  then have "unat limit < 2 ^ 128" by simp
  with \<open>unat limit < 2 ^ 64\<close> have "bytesToU128String (le_bytes 16 (unat limit)) = show_nat (unat limit)"
    by (simp only: bytesToU128String_halves if_True)
  then show ?thesis
    using assms by (auto simp: decodeSwapInstruction_def orca_swap_bytes_def slice_def nth_append)
qed

text \<open>The property at a swap of seven units of A.\<close>

theorem decodeSwapInstruction_roundtrip_witness:
  "length [0xc8, 0x87, 0x75, 0xe1, 0x91, 0x9e, 0xc6, 0xf8 :: u8] = 8
   \<and> (\<exists>i. decodeSwapInstruction (drop 8 (orca_swap_bytes [0xc8, 0x87, 0x75, 0xe1, 0x91, 0x9e, 0xc6, 0xf8]
        7 1 (unat (0 :: u64)) True True @ [])) = Inr i \<and> oi_Amount i = 7 \<and> oi_AToB i)"
  using decodeSwapInstruction_roundtrip [of "[0xc8, 0x87, 0x75, 0xe1, 0x91, 0x9e, 0xc6, 0xf8]" 7 1 0 True True "[]"]
  by auto

text \<open>
  Fees of a swap whose product of amount and fee rate fits in 64 bits, with rates of at most
  10000 basis points: the fee is the rounded-down share of the amount, the protocol fee the
  rounded-down share of the fee, and protocol fee, fee and amount are ordered.
\<close>

theorem fees_bounded:
  assumes "unat amountIn * unat feeRate < 2 ^ 64"
    and "unat feeRate \<le> 10000" and "unat protocolFeeRate \<le> 10000"
  shows "let feeAmount = calculateFeeAmount amountIn feeRate;
             protocolFee = calculateProtocolFee feeAmount protocolFeeRate
         in unat feeAmount = unat amountIn * unat feeRate div 10000
          \<and> unat protocolFee = unat feeAmount * unat protocolFeeRate div 10000
          \<and> protocolFee \<le> feeAmount \<and> feeAmount \<le> amountIn"
proof -
  let ?fee = "calculateFeeAmount amountIn feeRate"
  have fee: "unat ?fee = unat amountIn * unat feeRate div 10000"
    unfolding calculateFeeAmount_def by (rule fee_exact [OF assms(1)])
  have "unat ?fee * unat protocolFeeRate \<le> unat ?fee * 10000" using assms(3) by simp
  also have "\<dots> \<le> unat amountIn * unat feeRate" unfolding fee by simp
  finally have "unat ?fee * unat protocolFeeRate < 2 ^ 64" using assms(1) by simp
  then have prot: "unat (calculateProtocolFee ?fee protocolFeeRate)
      = unat ?fee * unat protocolFeeRate div 10000"
    unfolding calculateProtocolFee_def by (rule fee_exact)
  show ?thesis
    unfolding Let_def word_le_nat_alt prot
    using rate_share_le [OF assms(2), of "unat amountIn"] rate_share_le [OF assms(3), of "unat ?fee"] fee
    by (simp only: simp_thms)
qed

text \<open>The property at a swap of one million units at 30 basis points, 3 percent of it protocol fee.\<close>

theorem fees_bounded_witness:
  "unat (1000000 :: u64) * unat (30 :: u16) < 2 ^ 64 \<and> unat (30 :: u16) \<le> 10000
   \<and> unat (300 :: u16) \<le> 10000 \<and> unat (calculateFeeAmount 1000000 30) = 3000
   \<and> calculateProtocolFee (calculateFeeAmount 1000000 30) 300 \<le> calculateFeeAmount 1000000 30"
  using fees_bounded [of 1000000 30 300] by (simp add: Let_def)

text \<open>
  A transaction is decoded exactly when its data starts with the expected discriminator and
  has all 42 bytes, the instruction has an account at the pool's position, both pool states and
  seven balances on each side are present, both mints have metadata, and the pool's new sqrt
  price is a decimal number; otherwise an error is returned.
\<close>

theorem DecodeSwapTransaction_success_iff:
  "(\<exists>e. DecodeSwapTransaction F getMeta getDecimals sig slot ts data accounts preB postB pre_ptr post_ptr = Inr e)
   = (42 \<le> length data \<and> LittleEndian_Uint64 (slice 0 8 data) = SwapInstructionDiscriminator
      \<and> 3 \<le> length accounts \<and> 7 \<le> length preB \<and> 7 \<le> length postB
      \<and> (case (pre_ptr, post_ptr) of
           (Some pre, Some post) \<Rightarrow>
             provided getMeta (ws_TokenMintA pre) \<and> (\<exists>d. getDecimals (ws_TokenMintA pre) = Inr d)
             \<and> provided getMeta (ws_TokenMintB pre) \<and> (\<exists>d. getDecimals (ws_TokenMintB pre) = Inr d)
             \<and> big_SetString (ws_SqrtPrice post) \<noteq> None
         | _ \<Rightarrow> False))"
proof (cases "pre_ptr = None \<or> post_ptr = None \<or> length data < 42
    \<or> LittleEndian_Uint64 (slice 0 8 data) \<noteq> SwapInstructionDiscriminator")
  case True
  then show ?thesis
    by (auto simp: DecodeSwapTransaction_def decodeSwapInstruction_def Let_def split: option.splits sum.splits)
next
  case False
  then obtain pre post where ptrs: "pre_ptr = Some pre" "post_ptr = Some post" by auto
  let ?a = "ws_TokenMintA pre" and ?b = "ws_TokenMintB pre"
  obtain i where i: "decodeSwapInstruction (drop 8 data) = Inr i"
    using False by (cases "length data - 8 < 34") (auto simp: decodeSwapInstruction_def)
  have amounts: "(\<exists>p. calculateAmounts i preB postB = Inr p) \<longleftrightarrow> 7 \<le> length preB \<and> 7 \<le> length postB"
    by (auto simp: calculateAmounts_def)
  have price: "(\<exists>p. SqrtPriceQ64ToFloat F (ws_SqrtPrice post) = Inr p) \<longleftrightarrow> big_SetString (ws_SqrtPrice post) \<noteq> None"
    by (cases "big_SetString (ws_SqrtPrice post)") (simp_all add: SqrtPriceQ64ToFloat_def Let_def)
  have "(\<exists>e. DecodeSwapTransaction F getMeta getDecimals sig slot ts data accounts preB postB pre_ptr post_ptr = Inr e)
    \<longleftrightarrow> 3 \<le> length accounts \<and> (\<exists>p. calculateAmounts i preB postB = Inr p)
      \<and> (\<exists>d. getDecimals ?a = Inr d) \<and> (\<exists>d. getDecimals ?b = Inr d)
      \<and> (\<exists>p. DetermineBaseQuote getMeta ?a ?b = Inr p)
      \<and> (\<exists>p. SqrtPriceQ64ToFloat F (ws_SqrtPrice post) = Inr p)"
    using False i ptrs
    by (auto simp: DecodeSwapTransaction_def Let_def not_less split: sum.splits prod.splits)
  then show ?thesis
    unfolding amounts price DetermineBaseQuote_ok_iff using False ptrs by auto
qed

text \<open>
  (C27) What a decoded Orca event says: pool, mints, prices, ticks and liquidity come from the
  accounts and the pool states; the base and quote mints are the pool's two mints with the mint of
  higher priority as quote; the base volume is the scaled amount of the base mint and the quote
  volume that of the quote mint; and when the user's balances moved in the direction of the swap
  the amounts are exactly these movements.
\<close>

theorem DecodeSwapTransaction_event:
  assumes "DecodeSwapTransaction F getMeta getDecimals sig slot ts data accounts preB postB
      (Some pre) (Some post) = Inr e"
  shows "os_PoolAddress e = accounts ! 2 \<and> os_Slot e = slot \<and> os_Signature e = sig
    \<and> os_SqrtPriceQ64Pre e = ws_SqrtPrice pre \<and> os_SqrtPriceQ64Post e = ws_SqrtPrice post
    \<and> (os_BaseAsset e, os_QuoteAsset e) \<in> {(ws_TokenMintA pre, ws_TokenMintB pre), (ws_TokenMintB pre, ws_TokenMintA pre)}
    \<and> provided_priority getMeta (os_BaseAsset e) \<le> provided_priority getMeta (os_QuoteAsset e)
    \<and> (\<exists>dA dB. getDecimals (ws_TokenMintA pre) = Inr dA \<and> getDecimals (ws_TokenMintB pre) = Inr dB
        \<and> (if os_BaseAsset e = ws_TokenMintA pre
           then os_VolumeBase e = ScaleAmount F (orca_amount_A e) dA \<and> os_VolumeQuote e = ScaleAmount F (orca_amount_B e) dB
           else os_VolumeBase e = ScaleAmount F (orca_amount_B e) dB \<and> os_VolumeQuote e = ScaleAmount F (orca_amount_A e) dA))
    \<and> (let (inIx, outIx) = (if os_AToB e then (3, 5) else (5, 3)) in
        (postB ! inIx \<le> preB ! inIx \<longrightarrow> unat (postB ! inIx) + unat (os_AmountIn e) = unat (preB ! inIx))
        \<and> (preB ! outIx \<le> postB ! outIx \<longrightarrow> unat (preB ! outIx) + unat (os_AmountOut e) = unat (postB ! outIx)))"
proof -
  obtain i where "decodeSwapInstruction (drop 8 data) = Inr i"
    using assms by (auto simp: DecodeSwapTransaction_def Let_def split: if_splits sum.splits)
  moreover obtain amountIn amountOut where am: "calculateAmounts i preB postB = Inr (amountIn, amountOut)"
    using assms calculation by (auto simp: DecodeSwapTransaction_def Let_def split: if_splits sum.splits)
  moreover obtain dA dB base quote where "getDecimals (ws_TokenMintA pre) = Inr dA" "getDecimals (ws_TokenMintB pre) = Inr dB"
    and bq: "DetermineBaseQuote getMeta (ws_TokenMintA pre) (ws_TokenMintB pre) = Inr (base, quote)"
    using assms calculation by (auto simp: DecodeSwapTransaction_def Let_def split: if_splits sum.splits)
  moreover obtain price where "SqrtPriceQ64ToFloat F (ws_SqrtPrice post) = Inr price"
    using assms calculation by (auto simp: DecodeSwapTransaction_def Let_def split: if_splits sum.splits)
  ultimately have run: "os_PoolAddress e = accounts ! 2" "os_Slot e = slot" "os_Signature e = sig"
      "os_SqrtPriceQ64Pre e = ws_SqrtPrice pre" "os_SqrtPriceQ64Post e = ws_SqrtPrice post"
      "os_BaseAsset e = base" "os_QuoteAsset e = quote" "os_AToB e = oi_AToB i"
      "os_AmountIn e = amountIn" "os_AmountOut e = amountOut"
      "(os_VolumeBase e, os_VolumeQuote e) =
        orca_volumes F (oi_AToB i) (base = ws_TokenMintA pre) amountIn amountOut dA dB"
      "getDecimals (ws_TokenMintA pre) = Inr dA" "getDecimals (ws_TokenMintB pre) = Inr dB"
    using assms by (auto simp: DecodeSwapTransaction_def Let_def split: if_splits prod.splits)
  moreover have "let (inIx, outIx) = (if oi_AToB i then (3, 5) else (5, 3)) in
      (postB ! inIx \<le> preB ! inIx \<longrightarrow> unat (postB ! inIx) + unat amountIn = unat (preB ! inIx))
      \<and> (preB ! outIx \<le> postB ! outIx \<longrightarrow> unat (preB ! outIx) + unat amountOut = unat (postB ! outIx))"
    using am by (auto simp: calculateAmounts_def intro: unat_diff_exact split: if_splits)
  ultimately show ?thesis
    using DetermineBaseQuote_Inr [OF bq]
    by (auto simp: orca_volumes_def orca_amount_A_def orca_amount_B_def split: if_splits)
qed

definition sample_pool_state :: WhirlpoolState where
  "sample_pool_state = \<lparr>ws_WhirlpoolAddress = ''pool'', ws_TokenMintA = SOL_mint, ws_TokenMintB = USDC_mint,
     ws_TokenVaultA = ''va'', ws_TokenVaultB = ''vb'', ws_SqrtPrice = ''18446744073709551616'',
     ws_TickCurrentIndex = 0, ws_Liquidity = ''0'', ws_FeeRate = 30, ws_ProtocolFeeRate = 300\<rparr>"

definition sample_orca_decode :: "orca_error + real OrcaSwapEvent" where
  "sample_orca_decode = DecodeSwapTransaction exact_ops (GetMintMetadata NewInMemoryMintMetadataProvider)
     (GetDecimals NewInMemoryMintMetadataProvider) ''sig'' 7 0
     (orca_swap_bytes [0xc8, 0x87, 0x75, 0xe1, 0x91, 0x9e, 0xc6, 0xf8] 5 1 0 True True)
     [''prog'', ''auth'', ''pool''] [0, 0, 0, 100, 0, 10, 0] [0, 0, 0, 95, 0, 30, 0]
     (Some sample_pool_state) (Some sample_pool_state)"

lemma sample_orca_swap:
  "let data = orca_swap_bytes [0xc8, 0x87, 0x75, 0xe1, 0x91, 0x9e, 0xc6, 0xf8] 5 1 0 True True
   in length data = 42 \<and> LittleEndian_Uint64 (slice 0 8 data) = SwapInstructionDiscriminator
    \<and> (\<exists>i. decodeSwapInstruction (drop 8 data) = Inr i \<and> oi_AToB i)"
  by (simp add: orca_swap_bytes_def slice_def LittleEndian_Uint64_def SwapInstructionDiscriminator_def
      decodeSwapInstruction_def nth_append)

lemma sample_mints:
  "GetDecimals NewInMemoryMintMetadataProvider SOL_mint = Inr 9"
  "GetDecimals NewInMemoryMintMetadataProvider USDC_mint = Inr 6"
  "DetermineBaseQuote (GetMintMetadata NewInMemoryMintMetadataProvider) SOL_mint USDC_mint = Inr (SOL_mint, USDC_mint)"
  by (simp_all add: GetDecimals_def GetMintMetadata_def NewInMemoryMintMetadataProvider_def commonMints_def
      DetermineBaseQuote_def getPriority_table)

text \<open>The property at a swap of 5 units of SOL against 20 units of USDC.\<close>

theorem DecodeSwapTransaction_event_witness:
  "\<exists>e. sample_orca_decode = Inr e \<and> os_PoolAddress e = ''pool'' \<and> unat (os_AmountIn e) = 5
     \<and> unat (os_AmountOut e) = 20
     \<and> os_VolumeQuote e = ScaleAmount exact_ops (orca_amount_B e) 6"
proof -
  have "\<exists>q. SqrtPriceQ64ToFloat exact_ops (ws_SqrtPrice sample_pool_state) = Inr q"
    by (simp add: SqrtPriceQ64ToFloat_def sample_pool_state_def big_SetString_def big_digits_def is_digit_def Let_def)
  then obtain e where e: "sample_orca_decode = Inr e" and fields: "os_AToB e" "os_BaseAsset e = SOL_mint"
    using sample_orca_swap
    by (auto simp: sample_orca_decode_def DecodeSwapTransaction_def Let_def calculateAmounts_def sample_pool_state_def
        sample_mints orca_volumes_def)
  show ?thesis
    using DecodeSwapTransaction_event [OF e [unfolded sample_orca_decode_def]] e fields sample_mints
    by (auto simp: sample_pool_state_def)
qed

text \<open>
  The eight bytes that the constant spells (\<open>f8 c6 9e 91 e1 75 87 c8\<close>, the order in which a
  discriminator is written in instruction data) are refused: the comparison reads the bytes in
  little-endian order, so it accepts exactly the reversed bytes.
\<close>

theorem discriminator_byte_order:
  "DecodeSwapTransaction F getMeta getDecimals sig slot ts
     ([0xf8, 0xc6, 0x9e, 0x91, 0xe1, 0x75, 0x87, 0xc8] @ args) accounts preB postB pre_ptr post_ptr
     = Inl (NotSwapInstruction 0xc88775e1919ec6f8)
   \<and> LittleEndian_Uint64 ([0xc8, 0x87, 0x75, 0xe1, 0x91, 0x9e, 0xc6, 0xf8] @ args) = SwapInstructionDiscriminator"
  by (simp add: DecodeSwapTransaction_def slice_def LittleEndian_Uint64_def SwapInstructionDiscriminator_def Let_def)

end
