(* ===== verification/Meteora.thy ===== *)
theory Meteora
  imports Pair Dex
begin

text \<open>
  The Meteora decoder: \<open>decoder/meteora\<close> (\<open>types.go\<close>, \<open>decoder.go\<close>, \<open>proto.go\<close>). The table of
  program kinds is package state, passed as \<open>kinds\<close>; a swap is derived from the token balances of
  the user's input and output accounts, oriented by \<open>ResolvePair\<close> and completed with what the
  program logged.
\<close>

section \<open>decoder/meteora/types.go\<close>

type_synonym PoolKind = string

definition PoolKindDLMM :: PoolKind where "PoolKindDLMM = ''dlmm''"

definition PoolKindCPMM :: PoolKind where "PoolKindCPMM = ''cpmm''"

type_synonym program_kinds = "(string, PoolKind) gomap"

definition programKinds :: program_kinds where
  "programKinds =
     [(''cpamdpZCGKUy5JxQXB4dcpGPiikHawvSWAd6mEn1sGG'', PoolKindCPMM),
      (''LBUZKhRxPF3XUpBCjp4YzTKgLccjZhTSDM9YuVaPwxo'', PoolKindCPMM),
      (''Eo7WjKq67rjJQSZxS6z3YkapzY3eMj6Xy8X5EQVn5UaB'', PoolKindDLMM)]"

definition ProgramKindForID :: "program_kinds \<Rightarrow> string \<Rightarrow> PoolKind option" where
  "ProgramKindForID kinds programID = map_get kinds programID"

definition SetProgramKind :: "string \<Rightarrow> PoolKind \<Rightarrow> program_kinds \<Rightarrow> program_kinds" where
  "SetProgramKind programID kind kinds = map_set programID kind kinds"

record MeteoraSwapEvent =
  ms_Signature :: string
  ms_Slot :: u64
  ms_Timestamp :: gotime
  ms_ProgramID :: string
  ms_Pool :: string
  ms_Kind :: PoolKind
  ms_BaseMint :: string
  ms_QuoteMint :: string
  ms_BaseDec :: u8
  ms_QuoteDec :: u8
  ms_BaseAmount :: u64
  ms_QuoteAmount :: u64
  ms_FeeBps :: u32
  ms_VirtualReservesBase :: u64
  ms_VirtualReservesQuote :: u64
  ms_RealReservesBase :: u64
  ms_RealReservesQuote :: u64
  ms_MintBase :: string
  ms_MintQuote :: string
  ms_DecBase :: u32
  ms_DecQuote :: u32
  ms_BaseDecreased :: bool

record InstructionContext =
  ic_Slot :: u64
  ic_Signature :: string
  ic_Logs :: "string list"
  ic_Accounts :: "string list"
  ic_InstructionAccounts :: bytes
  ic_PreTokenBalances :: "TokenBalance list"
  ic_PostTokenBalances :: "TokenBalance list"
  ic_ProgramID :: string
  ic_Kind :: PoolKind
  ic_Timestamp :: gotime

section \<open>decoder/meteora/decoder.go: balances\<close>

record tokenBalanceDelta =
  td_accountIndex :: u32
  td_mint :: string
  td_decimals :: u8
  td_pre :: u64
  td_post :: u64

definition td_outgoing :: "tokenBalanceDelta option \<Rightarrow> u64" where
  "td_outgoing b_ptr =
     (case b_ptr of None \<Rightarrow> 0
      | Some b \<Rightarrow> if td_post b \<le> td_pre b then td_pre b - td_post b else 0)"

definition td_incoming :: "tokenBalanceDelta option \<Rightarrow> u64" where
  "td_incoming b_ptr =
     (case b_ptr of None \<Rightarrow> 0
      | Some b \<Rightarrow> if td_pre b \<le> td_post b then td_post b - td_pre b else 0)"

fun findTokenBalance :: "TokenBalance list \<Rightarrow> u32 \<Rightarrow> TokenBalance option" where
  "findTokenBalance [] accountIdx = None"
| "findTokenBalance (bal # balances) accountIdx =
     (if tb_AccountIndex bal = accountIdx then Some bal else findTokenBalance balances accountIdx)"

text \<open>Protobuf getters on a \<open>nil\<close> message give the zero value of the field.\<close>

definition ui_amount_of :: "TokenBalance \<Rightarrow> string" where
  "ui_amount_of bal = (case tb_UiTokenAmount bal of None \<Rightarrow> [] | Some u \<Rightarrow> ui_Amount u)"

definition ui_decimals_of :: "TokenBalance \<Rightarrow> u32" where
  "ui_decimals_of bal = (case tb_UiTokenAmount bal of None \<Rightarrow> 0 | Some u \<Rightarrow> ui_Decimals u)"

datatype balance_error = AmountSyntax parse_error | DecimalsTooLarge u32

definition extractBalance :: "TokenBalance option \<Rightarrow> balance_error + (u64 \<times> u8 \<times> string)" where
  "extractBalance balance =
     (case balance of
        None \<Rightarrow> Inr (0, 0, [])
      | Some bal \<Rightarrow>
          let amountStr = (if ui_amount_of bal = [] then ''0'' else ui_amount_of bal)
          in case strconv_ParseUint amountStr of
               Inl err \<Rightarrow> Inl (AmountSyntax err)
             | Inr parsed \<Rightarrow>
                 let dec = ui_decimals_of bal
                 in if 255 < dec then Inl (DecimalsTooLarge dec)
                    else Inr (parsed, ucast dec, tb_Mint bal))"

fun pickNonEmpty :: "string list \<Rightarrow> string" where
  "pickNonEmpty [] = []"
| "pickNonEmpty (v # vs) = (if v \<noteq> [] then v else pickNonEmpty vs)"

fun pickDecimals :: "u8 list \<Rightarrow> u8" where
  "pickDecimals [] = 0"
| "pickDecimals (v # vs) = (if v \<noteq> 0 then v else pickDecimals vs)"

datatype lookup_error = NotInSnapshots u32 | PreParse balance_error | PostParse balance_error

definition balanceForAccount :: "InstructionContext \<Rightarrow> u32 \<Rightarrow> lookup_error + tokenBalanceDelta" where
  "balanceForAccount ctx accountIdx =
     (let pre = findTokenBalance (ic_PreTokenBalances ctx) accountIdx;
          post = findTokenBalance (ic_PostTokenBalances ctx) accountIdx
      in if pre = None \<and> post = None then Inl (NotInSnapshots accountIdx)
         else case extractBalance pre of
           Inl err \<Rightarrow> Inl (PreParse err)
         | Inr (preAmount, preDecimals, preMint) \<Rightarrow>
             (case extractBalance post of
                Inl err \<Rightarrow> Inl (PostParse err)
              | Inr (postAmount, postDecimals, postMint) \<Rightarrow>
                  Inr \<lparr>td_accountIndex = accountIdx,
                       td_mint = pickNonEmpty [preMint, postMint],
                       td_decimals = pickDecimals [preDecimals, postDecimals],
                       td_pre = preAmount, td_post = postAmount\<rparr>))"

fun delta_decimals :: "string \<Rightarrow> tokenBalanceDelta option list \<Rightarrow> u8 option" where
  "delta_decimals mint [] = None"
| "delta_decimals mint (delta # deltas) =
     (case delta of
        Some d \<Rightarrow> if td_mint d = mint then Some (td_decimals d) else delta_decimals mint deltas
      | None \<Rightarrow> delta_decimals mint deltas)"

fun balance_decimals :: "string \<Rightarrow> TokenBalance list \<Rightarrow> u8 option" where
  "balance_decimals mint [] = None"
| "balance_decimals mint (bal # balances) =
     (if tb_Mint bal = mint then
        (case tb_UiTokenAmount bal of
           Some amt \<Rightarrow> Some (if 255 < ui_Decimals amt then 0 else ucast (ui_Decimals amt))
         | None \<Rightarrow> balance_decimals mint balances)
      else balance_decimals mint balances)"

definition decimalsForMint :: "InstructionContext \<Rightarrow> string \<Rightarrow> tokenBalanceDelta option list \<Rightarrow> u8" where
  "decimalsForMint ctx mint deltas =
     (case delta_decimals mint deltas of Some d \<Rightarrow> d | None \<Rightarrow>
      (case balance_decimals mint (ic_PreTokenBalances ctx) of Some d \<Rightarrow> d | None \<Rightarrow>
       (case balance_decimals mint (ic_PostTokenBalances ctx) of Some d \<Rightarrow> d | None \<Rightarrow> 0)))"

section \<open>decoder/meteora/decoder.go: logs\<close>

definition trim_cutset :: "char \<Rightarrow> bool" where
  "trim_cutset c \<longleftrightarrow> c \<in> {CHR '' '', CHR '','', CHR '':''}"

definition tokenize :: "string \<Rightarrow> string list" where
  "tokenize line = map (Trim trim_cutset) (Fields line)"

fun extractUint :: "string list \<Rightarrow> string \<Rightarrow> u64 option" where
  "extractUint [] key = None"
| "extractUint (tok # toks) key =
     (if HasPrefix tok (key @ ''='') then
        let valStr = TrimPrefix tok (key @ ''='')
        in if valStr = [] then extractUint toks key
           else case strconv_ParseUint valStr of
             Inr val \<Rightarrow> Some val
           | Inl _ \<Rightarrow> extractUint toks key
      else extractUint toks key)"

text \<open>
  The loop of \<open>extractReserves\<close> over its three local variables; \<open>None\<close> is the early return on a
  number that does not parse.
\<close>

definition reserves_value :: "string \<Rightarrow> string \<Rightarrow> u64 \<Rightarrow> u64 option" where
  "reserves_value tok prefix old =
     (if HasPrefix tok prefix then
        (case strconv_ParseUint (TrimPrefix tok prefix) of Inl _ \<Rightarrow> None | Inr val \<Rightarrow> Some val)
      else Some old)"

fun reserves_loop :: "string \<Rightarrow> string list \<Rightarrow> bool \<Rightarrow> u64 \<Rightarrow> u64 \<Rightarrow> (bool \<times> u64 \<times> u64) option" where
  "reserves_loop marker [] found baseVal quoteVal = Some (found, baseVal, quoteVal)"
| "reserves_loop marker (tok # toks) found baseVal quoteVal =
     (if ToLower tok = marker \<or> Contains (ToLower tok) marker
      then reserves_loop marker toks True baseVal quoteVal
      else case reserves_value tok ''base='' baseVal of
        None \<Rightarrow> None
      | Some baseVal' \<Rightarrow>
          (case reserves_value tok ''quote='' quoteVal of
             None \<Rightarrow> None
           | Some quoteVal' \<Rightarrow> reserves_loop marker toks found baseVal' quoteVal'))"

definition extractReserves :: "string list \<Rightarrow> string \<Rightarrow> (u64 \<times> u64) option" where
  "extractReserves tokens marker =
     (case reserves_loop marker tokens False 0 0 of
        None \<Rightarrow> None
      | Some (found, baseVal, quoteVal) \<Rightarrow>
          if \<not> found \<or> baseVal = 0 \<and> quoteVal = 0 then None else Some (baseVal, quoteVal))"

definition apply_log_line :: "InstructionContext \<Rightarrow> string \<Rightarrow> MeteoraSwapEvent \<Rightarrow> MeteoraSwapEvent" where
  "apply_log_line ctx line event =
     (let tokens = tokenize line in
      if tokens = [] then event
      else
        let event1 = (case extractUint tokens ''fee_bps'' of
              Some fee \<Rightarrow> event\<lparr>ms_FeeBps := ucast fee\<rparr> | None \<Rightarrow> event)
        in if ic_Kind ctx = PoolKindDLMM then
             (case extractReserves tokens ''virtual_reserves'' of
                Some (base, quote) \<Rightarrow>
                  event1\<lparr>ms_VirtualReservesBase := base, ms_VirtualReservesQuote := quote\<rparr>
              | None \<Rightarrow> event1)
           else if ic_Kind ctx = PoolKindCPMM then
             (case extractReserves tokens ''cpmm_reserves'' of
                Some (base, quote) \<Rightarrow>
                  event1\<lparr>ms_RealReservesBase := base, ms_RealReservesQuote := quote\<rparr>
              | None \<Rightarrow> event1)
           else event1)"

definition applyLogMetadata :: "InstructionContext \<Rightarrow> MeteoraSwapEvent \<Rightarrow> MeteoraSwapEvent" where
  "applyLogMetadata ctx event = fold (apply_log_line ctx) (ic_Logs ctx) event"

section \<open>decoder/meteora/decoder.go: the decoder\<close>

datatype met_error =
    ContextRequired
  | MetInsufficientAccounts nat
  | EmptyAccountKeys
  | MissingAccountAt nat
  | AccountIndexOutOfRange u32 nat
  | InputBalanceLookup lookup_error
  | OutputBalanceLookup lookup_error
  | NoBalanceDelta
  | PairUnresolved pair_error
  | ZeroSizedSwap u64 u64

definition resolveAccount :: "InstructionContext \<Rightarrow> nat \<Rightarrow> met_error + string" where
  "resolveAccount ctx pos =
     (if length (ic_InstructionAccounts ctx) \<le> pos then Inl (MissingAccountAt pos)
      else
        let index = (ucast (ic_InstructionAccounts ctx ! pos) :: u32)
        in if length (ic_Accounts ctx) \<le> unat index
           then Inl (AccountIndexOutOfRange index (length (ic_Accounts ctx)))
           else Inr (ic_Accounts ctx ! unat index))"

text \<open>Base amount, quote amount and direction: the switch on the canonical orientation.\<close>

definition meteora_orient ::
  "string \<Rightarrow> string \<Rightarrow> string \<Rightarrow> string \<Rightarrow> u64 \<Rightarrow> u64 \<Rightarrow> u64 \<times> u64 \<times> bool" where
  "meteora_orient baseMint quoteMint inMint outMint amountIn amountOut =
     (if baseMint = inMint \<and> quoteMint = outMint then (amountIn, amountOut, False)
      else if baseMint = outMint \<and> quoteMint = inMint then (amountOut, amountIn, True)
      else (amountOut, amountIn, True))"

definition Meteora_DecodeSwapEvent ::
  "pair_registry \<Rightarrow> bytes \<Rightarrow> InstructionContext option \<Rightarrow> met_error + MeteoraSwapEvent" where
  "Meteora_DecodeSwapEvent reg data ctx_ptr =
   (case ctx_ptr of None \<Rightarrow> Inl ContextRequired | Some ctx \<Rightarrow>
    if length (ic_InstructionAccounts ctx) < 8
    then Inl (MetInsufficientAccounts (length (ic_InstructionAccounts ctx)))
    else if ic_Accounts ctx = [] then Inl EmptyAccountKeys
    else case resolveAccount ctx 1 of Inl err \<Rightarrow> Inl err | Inr pool \<Rightarrow>
    let inputAccountIndex = ucast (ic_InstructionAccounts ctx ! 2);
        outputAccountIndex = ucast (ic_InstructionAccounts ctx ! 3) in
    case balanceForAccount ctx inputAccountIndex of Inl err \<Rightarrow> Inl (InputBalanceLookup err)
      | Inr inputBalance \<Rightarrow>
    case balanceForAccount ctx outputAccountIndex of Inl err \<Rightarrow> Inl (OutputBalanceLookup err)
      | Inr outputBalance \<Rightarrow>
    let amountIn = td_outgoing (Some inputBalance); amountOut = td_incoming (Some outputBalance) in
    if amountIn = 0 \<and> amountOut = 0 then Inl NoBalanceDelta
    else case ResolvePair reg (td_mint inputBalance) (td_mint outputBalance) of
      Inl err \<Rightarrow> Inl (PairUnresolved err) | Inr pair \<Rightarrow>
    let baseMint = cp_BaseMint pair; quoteMint = cp_QuoteMint pair;
        baseDecimals = decimalsForMint ctx baseMint [Some inputBalance, Some outputBalance];
        quoteDecimals = decimalsForMint ctx quoteMint [Some inputBalance, Some outputBalance];
        (baseAmount, quoteAmount, baseDecreased) =
          meteora_orient baseMint quoteMint (td_mint inputBalance) (td_mint outputBalance) amountIn amountOut
    in if baseAmount = 0 \<or> quoteAmount = 0 then Inl (ZeroSizedSwap baseAmount quoteAmount)
       else
         let timestamp = (if time_IsZero (ic_Timestamp ctx) then 0 else ic_Timestamp ctx)
         in Inr (applyLogMetadata ctx
              \<lparr>ms_Signature = ic_Signature ctx, ms_Slot = ic_Slot ctx, ms_Timestamp = timestamp,
               ms_ProgramID = ic_ProgramID ctx, ms_Pool = pool, ms_Kind = ic_Kind ctx,
               ms_BaseMint = baseMint, ms_QuoteMint = quoteMint, ms_BaseDec = baseDecimals,
               ms_QuoteDec = quoteDecimals, ms_BaseAmount = baseAmount, ms_QuoteAmount = quoteAmount,
               ms_FeeBps = 0, ms_VirtualReservesBase = 0, ms_VirtualReservesQuote = 0,
               ms_RealReservesBase = 0, ms_RealReservesQuote = 0,
               ms_MintBase = baseMint, ms_MintQuote = quoteMint,
               ms_DecBase = ucast baseDecimals, ms_DecQuote = ucast quoteDecimals,
               ms_BaseDecreased = baseDecreased\<rparr>))"

section \<open>decoder/meteora/proto.go\<close>

definition Meteora_ToProto :: "MeteoraSwapEvent option \<Rightarrow> SwapEvent option" where
  "Meteora_ToProto e_ptr =
     (case e_ptr of None \<Rightarrow> None | Some e \<Rightarrow>
        let programID = (if ms_ProgramID e = [] then ''cpamdpZCGKUy5JxQXB4dcpGPiikHawvSWAd6mEn1sGG''
              else ms_ProgramID e);
            msg = zero_SwapEvent\<lparr>se_ChainId := 501, se_Slot := ms_Slot e, se_Sig := ms_Signature e,
              se_ProgramId := programID, se_PoolId := ms_Pool e,
              se_MintBase := ms_MintBase e, se_MintQuote := ms_MintQuote e,
              se_DecBase := ms_DecBase e, se_DecQuote := ms_DecQuote e,
              se_FeeBps := ms_FeeBps e, se_Provisional := True\<rparr>
        in Some (if ms_BaseDecreased e
             then msg\<lparr>se_BaseOut := ms_BaseAmount e, se_QuoteIn := ms_QuoteAmount e\<rparr>
             else msg\<lparr>se_BaseIn := ms_BaseAmount e, se_QuoteOut := ms_QuoteAmount e\<rparr>))"

section \<open>Lemmas on balances\<close>

lemma td_outgoing_exact: "td_outgoing (Some b) \<noteq> 0 \<Longrightarrow> unat (td_post b) + unat (td_outgoing (Some b)) = unat (td_pre b)"
  by (auto simp: td_outgoing_def intro: unat_diff_exact split: if_splits)

lemma td_incoming_exact: "td_incoming (Some b) \<noteq> 0 \<Longrightarrow> unat (td_pre b) + unat (td_incoming (Some b)) = unat (td_post b)"
  by (auto simp: td_incoming_def intro: unat_diff_exact split: if_splits)

lemma findTokenBalance_Some:
  "findTokenBalance bs ix = Some b \<Longrightarrow> b \<in> set bs \<and> tb_AccountIndex b = ix"
  by (induction bs) (auto split: if_splits)

lemma findTokenBalance_None: "findTokenBalance bs ix = None \<longleftrightarrow> ix \<notin> tb_AccountIndex ` set bs"
  by (induction bs) auto

lemma extractBalance_printed:
  assumes "tb_UiTokenAmount bal = Some \<lparr>ui_Amount = show_nat (unat (n :: u64)), ui_Decimals = ucast (d :: u8)\<rparr>"
  shows "extractBalance (Some bal) = Inr (n, d, tb_Mint bal)"
proof -
  have "\<not> 255 < (ucast d :: u32)"
    using unat_u8_less [of d] by (simp add: word_less_nat_alt unat_ucast_up)
  moreover have "ucast (ucast d :: u32) = d"
    by (simp add: word_unat_eq_iff unsigned_ucast_eq take_bit_word_eq_self)
  ultimately show ?thesis
    using assms by (simp add: extractBalance_def ui_amount_of_def ui_decimals_of_def Let_def)
qed

section \<open>Lemmas on logs\<close>

text \<open>The logs only set fees and reserves.\<close>

definition without_logs :: "MeteoraSwapEvent \<Rightarrow> MeteoraSwapEvent" where
  "without_logs e = e\<lparr>ms_FeeBps := 0, ms_VirtualReservesBase := 0, ms_VirtualReservesQuote := 0,
     ms_RealReservesBase := 0, ms_RealReservesQuote := 0\<rparr>"

lemma apply_log_line_frame: "without_logs (apply_log_line ctx line e) = without_logs e"
  by (simp add: apply_log_line_def without_logs_def Let_def split: option.splits prod.splits)

lemma applyLogMetadata_frame: "without_logs (applyLogMetadata ctx e) = without_logs e"
proof -
  have "without_logs (fold (apply_log_line ctx) ls e) = without_logs e" for ls
    by (induction ls arbitrary: e) (simp_all add: apply_log_line_frame)
  then show ?thesis by (simp add: applyLogMetadata_def)
qed

lemma without_logs_fields:
  assumes "without_logs e = without_logs e'"
  shows "ms_Signature e = ms_Signature e'" "ms_Slot e = ms_Slot e'" "ms_ProgramID e = ms_ProgramID e'"
    "ms_Pool e = ms_Pool e'" "ms_BaseMint e = ms_BaseMint e'" "ms_QuoteMint e = ms_QuoteMint e'"
    "ms_BaseDec e = ms_BaseDec e'" "ms_QuoteDec e = ms_QuoteDec e'"
    "ms_BaseAmount e = ms_BaseAmount e'" "ms_QuoteAmount e = ms_QuoteAmount e'"
    "ms_MintBase e = ms_MintBase e'" "ms_MintQuote e = ms_MintQuote e'"
    "ms_DecBase e = ms_DecBase e'" "ms_DecQuote e = ms_DecQuote e'"
    "ms_BaseDecreased e = ms_BaseDecreased e'" "ms_Timestamp e = ms_Timestamp e'" "ms_Kind e = ms_Kind e'"
  using assms by (cases e; cases e'; simp add: without_logs_def)+

lemmas logs_keep [simp] = without_logs_fields [OF applyLogMetadata_frame]

lemma fields_loop_word:
  "(\<forall>c \<in> set w. \<not> is_space c) \<Longrightarrow> fields_loop cur (w @ s) = fields_loop (rev w @ cur) s"
  by (induction w arbitrary: cur) auto

lemma Fields_cons:
  assumes "w \<noteq> []" and "\<forall>c \<in> set w. \<not> is_space c" and "is_space sp"
  shows "Fields (w @ sp # s) = w # Fields s" and "Fields w = [w]"
  using assms fields_loop_word [of w "[]" "sp # s"] fields_loop_word [of w "[]" "[]"]
  by (simp_all add: Fields_def)

lemma Trim_id: "w \<noteq> [] \<Longrightarrow> \<not> f (hd w) \<Longrightarrow> \<not> f (last w) \<Longrightarrow> Trim f w = w"
proof -
  assume w: "w \<noteq> []" "\<not> f (hd w)" "\<not> f (last w)"
  then have "dropWhile f w = w" by (cases w) auto
  moreover have "dropWhile f (rev w) = rev w" using w by (cases w rule: rev_cases) auto
  ultimately show ?thesis by (simp add: Trim_def)
qed

text \<open>Log lines as the programs print them (and as the tests of the package have them).\<close>

definition reserves_log :: "string \<Rightarrow> u64 \<Rightarrow> u64 \<Rightarrow> string" where
  "reserves_log marker base quote =
     ''Program log: '' @ marker @ '' base='' @ show_nat (unat base) @ '' quote='' @ show_nat (unat quote)"

definition fee_log :: "u64 \<Rightarrow> string" where
  "fee_log fee = ''Program log: fee_bps='' @ show_nat (unat fee)"

text \<open>A line that names neither a fee nor reserves.\<close>

definition silent_line :: "string \<Rightarrow> bool" where
  "silent_line line = list_all (\<lambda>tok. \<not> HasPrefix tok ''fee_bps='' \<and> \<not> Contains (ToLower tok) ''virtual_reserves''
     \<and> \<not> Contains (ToLower tok) ''cpmm_reserves'') (tokenize line)"

lemma digit_not_trimmed: "is_digit c \<Longrightarrow> \<not> is_space c \<and> \<not> trim_cutset c"
  by (auto simp: is_digit_def is_space_def trim_cutset_def)

lemma Fields_key_value:
  assumes "key \<noteq> []" and "\<forall>c \<in> set key. \<not> is_space c" and "is_space sp"
  shows "Fields ((key @ show_nat n) @ sp # s) = (key @ show_nat n) # Fields s"
    and "Fields (key @ show_nat n) = [key @ show_nat n]"
  using assms show_nat_digits [of n] digit_not_trimmed
  by (intro Fields_cons; auto)+

lemma Trim_key_value: "key \<noteq> [] \<Longrightarrow> \<not> trim_cutset (hd key) \<Longrightarrow> Trim trim_cutset (key @ show_nat n) = key @ show_nat n"
  using show_nat_digits [of n] digit_not_trimmed [of "last (show_nat n)"]
  by (intro Trim_id) auto

lemma Fields_program_log: "Fields (''Program log: '' @ s) = ''Program'' # ''log:'' # Fields s"
  by (simp add: Fields_def is_space_def)

lemma Trim_program_log: "Trim trim_cutset ''Program'' = ''Program''" "Trim trim_cutset ''log:'' = ''log''"
  by (simp_all add: Trim_def trim_cutset_def)

lemma tokenize_reserves_log:
  assumes "marker \<in> {''virtual_reserves'', ''cpmm_reserves''}"
  shows "tokenize (reserves_log marker base quote) =
    [''Program'', ''log'', marker, ''base='' @ show_nat (unat base), ''quote='' @ show_nat (unat quote)]"
proof -
  have sp: "is_space (CHR '' '')" by (simp add: is_space_def)
  have line: "reserves_log marker base quote =
      ''Program log: '' @ (marker @ CHR '' '' # (''base='' @ show_nat (unat base)) @ CHR '' '' # (''quote='' @ show_nat (unat quote)))"
    by (simp add: reserves_log_def)
  have marker: "marker \<noteq> [] \<and> (\<forall>c \<in> set marker. \<not> is_space c)"
    using assms by (auto simp: is_space_def)
  have words: "\<forall>c \<in> set ''base=''. \<not> is_space c" "\<forall>c \<in> set ''quote=''. \<not> is_space c"
    by (simp_all add: is_space_def)
  have "Fields (reserves_log marker base quote) =
    [''Program'', ''log:'', marker, ''base='' @ show_nat (unat base), ''quote='' @ show_nat (unat quote)]"
    unfolding line Fields_program_log Fields_cons(1) [OF conjunct1 [OF marker] conjunct2 [OF marker] sp]
      Fields_key_value(1) [OF list.distinct(2) words(1) sp] Fields_key_value(2) [OF list.distinct(2) words(2) sp]
    by (rule refl)
  moreover have "Trim trim_cutset marker = marker"
    using assms by (intro Trim_id) (auto simp: trim_cutset_def)
  ultimately show ?thesis
    by (simp add: tokenize_def Trim_key_value Trim_program_log trim_cutset_def del: append_Cons)
qed

lemma tokenize_fee_log: "tokenize (fee_log fee) = [''Program'', ''log'', ''fee_bps='' @ show_nat (unat fee)]"
proof -
  have words: "\<forall>c \<in> set ''fee_bps=''. \<not> is_space c" and sp: "is_space (CHR '' '')" by (simp_all add: is_space_def)
  have "fee_log fee = ''Program log: '' @ (''fee_bps='' @ show_nat (unat fee))" by (simp add: fee_log_def)
  then have "Fields (fee_log fee) = [''Program'', ''log:'', ''fee_bps='' @ show_nat (unat fee)]"
    using Fields_program_log Fields_key_value(2) [OF list.distinct(2) words sp] by (simp only:)
  then show ?thesis
    by (simp add: tokenize_def Trim_key_value Trim_program_log trim_cutset_def del: append_Cons)
qed

lemma Contains_subset: "Contains s p \<Longrightarrow> set p \<subseteq> set s"
  by (auto simp: Contains_iff)

lemma ToLower_digit: "is_digit c \<Longrightarrow> to_lower_char c = c"
  by (simp add: to_lower_char_def is_digit_def)

lemma ToLower_key_value: "ToLower (key @ show_nat n) = ToLower key @ show_nat n"
  using show_nat_digits [of n] by (simp add: ToLower_def map_idI ToLower_digit)

lemma key_value_no_marker:
  assumes "key \<in> {''base='', ''quote='', ''fee_bps=''}" and "marker \<in> {''virtual_reserves'', ''cpmm_reserves''}"
  shows "\<not> Contains (ToLower (key @ show_nat n)) marker" and "ToLower (key @ show_nat n) \<noteq> marker"
proof -
  have "CHR ''r'' \<notin> set (ToLower (key @ show_nat n))"
    unfolding ToLower_key_value using assms(1) show_nat_no_char [of "CHR ''r''" n]
    by (auto simp: ToLower_def to_lower_char_def is_digit_def)
  moreover have "CHR ''r'' \<in> set marker" using assms(2) by auto
  ultimately show "\<not> Contains (ToLower (key @ show_nat n)) marker" "ToLower (key @ show_nat n) \<noteq> marker"
    using Contains_subset by blast+
qed

lemma key_value_parse:
  "reserves_value (''base='' @ show_nat (unat b)) ''base='' old = Some b"
  "reserves_value (''base='' @ show_nat (unat b)) ''quote='' old = Some old"
  "reserves_value (''quote='' @ show_nat (unat b)) ''base='' old = Some old"
  "reserves_value (''quote='' @ show_nat (unat b)) ''quote='' old = Some b"
  "reserves_value (''fee_bps='' @ show_nat (unat b)) ''base='' old = Some old"
  "reserves_value (''fee_bps='' @ show_nat (unat b)) ''quote='' old = Some old"
  by (simp_all add: reserves_value_def HasPrefix_def TrimPrefix_def)

lemma log_words_no_marker:
  assumes "marker \<in> {''virtual_reserves'', ''cpmm_reserves''}" and "tok \<in> {''Program'', ''log''}"
  shows "\<not> Contains (ToLower tok) marker" and "ToLower tok \<noteq> marker"
proof -
  have "ToLower ''Program'' = ''program''" "ToLower ''log'' = ''log''" by code_simp+
  then have "CHR ''e'' \<notin> set (ToLower tok)" using assms(2) by auto
  moreover have "CHR ''e'' \<in> set marker" using assms(1) by auto
  ultimately show "\<not> Contains (ToLower tok) marker" "ToLower tok \<noteq> marker"
    using Contains_subset by blast+
qed

lemma no_marker:
  "(\<And>tok. tok \<in> set toks \<Longrightarrow> \<not> Contains (ToLower tok) marker) \<Longrightarrow> extractReserves toks marker = None"
proof -
  assume none: "\<And>tok. tok \<in> set toks \<Longrightarrow> \<not> Contains (ToLower tok) marker"
  have "Contains marker marker" by (auto simp: Contains_iff intro!: exI [of _ "[]"])
  then have "reserves_loop marker toks False b q = None \<or> (\<exists>b' q'. reserves_loop marker toks False b q = Some (False, b', q'))" for b q
    using none by (induction toks arbitrary: b q) (force split: option.splits)+
  from this [of 0 0] show "extractReserves toks marker = None" by (auto simp: extractReserves_def)
qed

lemma no_fee: "(\<And>tok. tok \<in> set toks \<Longrightarrow> \<not> HasPrefix tok (key @ ''='')) \<Longrightarrow> extractUint toks key = None"
  by (induction toks) auto

lemma silent_line_keeps: "silent_line line \<Longrightarrow> apply_log_line ctx line e = e"
  using no_marker [of "tokenize line" "''virtual_reserves''"] no_marker [of "tokenize line" "''cpmm_reserves''"]
    no_fee [of "tokenize line" "''fee_bps''"]
  by (simp add: apply_log_line_def silent_line_def list_all_iff Let_def)

lemma silent_lines_keep: "list_all silent_line lines \<Longrightarrow> fold (apply_log_line ctx) lines e = e"
  by (induction lines arbitrary: e) (simp_all add: silent_line_keeps)

lemma read_reserves_log:
  assumes "marker \<in> {''virtual_reserves'', ''cpmm_reserves''}"
  shows "extractReserves (tokenize (reserves_log marker b q)) marker = (if b = 0 \<and> q = 0 then None else Some (b, q))"
    and "extractUint (tokenize (reserves_log marker b q)) ''fee_bps'' = None"
proof -
  have words: "\<not> Contains (ToLower ''Program'') marker" "\<not> Contains (ToLower ''log'') marker"
      "ToLower ''Program'' \<noteq> marker" "ToLower ''log'' \<noteq> marker"
    using log_words_no_marker [OF assms] by simp_all
  have lower: "ToLower marker = marker"
    using assms by (auto simp: ToLower_def to_lower_char_def)
  have plain: "reserves_value ''Program'' p old = Some old" "reserves_value ''log'' p old = Some old"
    if "p \<in> {''base='', ''quote=''}" for p old
    using that by (auto simp: reserves_value_def HasPrefix_def)
  show "extractReserves (tokenize (reserves_log marker b q)) marker = (if b = 0 \<and> q = 0 then None else Some (b, q))"
    using key_value_no_marker [OF _ assms] words lower plain
    by (simp add: tokenize_reserves_log [OF assms] extractReserves_def key_value_parse del: append_Cons)
  show "extractUint (tokenize (reserves_log marker b q)) ''fee_bps'' = None"
    using assms by (auto simp: tokenize_reserves_log [OF assms] HasPrefix_def)
qed

lemma read_fee_log:
  assumes "marker \<in> {''virtual_reserves'', ''cpmm_reserves''}"
  shows "extractReserves (tokenize (fee_log f)) marker = None" and "extractUint (tokenize (fee_log f)) ''fee_bps'' = Some f"
proof -
  show "extractReserves (tokenize (fee_log f)) marker = None"
    using log_words_no_marker(1) [OF assms] key_value_no_marker(1) [OF _ assms]
    by (intro no_marker) (auto simp: tokenize_fee_log simp del: append_Cons)
  show "extractUint (tokenize (fee_log f)) ''fee_bps'' = Some f"
    by (simp add: tokenize_fee_log HasPrefix_def TrimPrefix_def)
qed

lemma Meteora_amounts_nonzero:
  "Meteora_DecodeSwapEvent reg data (Some ctx) = Inr e \<Longrightarrow> ms_BaseAmount e \<noteq> 0 \<and> ms_QuoteAmount e \<noteq> 0"
  by (auto simp: Meteora_DecodeSwapEvent_def Let_def split: if_splits sum.splits prod.splits)

lemma Meteora_context_fields:
  "Meteora_DecodeSwapEvent reg data (Some ctx) = Inr e \<Longrightarrow>
     ms_Slot e = ic_Slot ctx \<and> ms_Signature e = ic_Signature ctx \<and> ms_ProgramID e = ic_ProgramID ctx
     \<and> ms_Kind e = ic_Kind ctx \<and> resolveAccount ctx 1 = Inr (ms_Pool e)"
  by (auto simp: Meteora_DecodeSwapEvent_def Let_def split: if_splits sum.splits prod.splits)

section \<open>Properties\<close>

text \<open>
  (C23) A decoded Meteora swap reports exactly what left the user's input account and what entered
  the output account: both amounts are non-zero, the flag says which of them belongs to the
  canonical base mint, and the quote mint is the one of higher priority (the fallback branch of
  the switch is never taken). Decimals are those of the account that holds the mint.
\<close>

theorem Meteora_swap_exact:
  assumes "Meteora_DecodeSwapEvent reg data (Some ctx) = Inr e"
  shows "\<exists>inB outB.
      balanceForAccount ctx (ucast (ic_InstructionAccounts ctx ! 2)) = Inr inB
    \<and> balanceForAccount ctx (ucast (ic_InstructionAccounts ctx ! 3)) = Inr outB
    \<and> (let (amountIn, amountOut) = (if ms_BaseDecreased e then (ms_QuoteAmount e, ms_BaseAmount e)
            else (ms_BaseAmount e, ms_QuoteAmount e))
       in amountIn \<noteq> 0 \<and> amountOut \<noteq> 0
        \<and> unat (td_post inB) + unat amountIn = unat (td_pre inB)
        \<and> unat (td_pre outB) + unat amountOut = unat (td_post outB))
    \<and> (td_mint inB, td_mint outB) =
        (if ms_BaseDecreased e then (ms_MintQuote e, ms_MintBase e) else (ms_MintBase e, ms_MintQuote e))
    \<and> mint_priority reg (ms_MintBase e) \<le> mint_priority reg (ms_MintQuote e)
    \<and> (td_mint inB \<noteq> td_mint outB \<longrightarrow>
        (ms_BaseDec e, ms_QuoteDec e) = (if ms_BaseDecreased e then (td_decimals outB, td_decimals inB)
          else (td_decimals inB, td_decimals outB)))"
proof -
  obtain inB outB where bal: "balanceForAccount ctx (ucast (ic_InstructionAccounts ctx ! 2)) = Inr inB"
      "balanceForAccount ctx (ucast (ic_InstructionAccounts ctx ! 3)) = Inr outB"
    using assms by (auto simp: Meteora_DecodeSwapEvent_def Let_def split: if_splits sum.splits)
  moreover obtain pair where pair: "ResolvePair reg (td_mint inB) (td_mint outB) = Inr pair"
    using assms bal by (auto simp: Meteora_DecodeSwapEvent_def Let_def split: if_splits sum.splits)
  note mints = ResolvePair_mints [OF pair]
  have prio: "mint_priority reg (cp_BaseMint pair) \<le> mint_priority reg (cp_QuoteMint pair)"
    using rp.orient_quote_max [of reg "td_mint inB" "td_mint outB"] pair
    by (simp add: resolved_mints_def)
  let ?orient = "meteora_orient (cp_BaseMint pair) (cp_QuoteMint pair) (td_mint inB) (td_mint outB)
    (td_outgoing (Some inB)) (td_incoming (Some outB))"
  have ev: "?orient = (ms_BaseAmount e, ms_QuoteAmount e, ms_BaseDecreased e)"
      "ms_BaseAmount e \<noteq> 0" "ms_QuoteAmount e \<noteq> 0"
      "ms_MintBase e = cp_BaseMint pair" "ms_MintQuote e = cp_QuoteMint pair"
      "ms_BaseDec e = decimalsForMint ctx (cp_BaseMint pair) [Some inB, Some outB]"
      "ms_QuoteDec e = decimalsForMint ctx (cp_QuoteMint pair) [Some inB, Some outB]"
    using assms bal pair
    by (auto simp: Meteora_DecodeSwapEvent_def Let_def split: if_splits sum.splits prod.splits)
  show ?thesis
    using ev bal mints prio td_outgoing_exact [of inB] td_incoming_exact [of outB]
    by (auto simp: meteora_orient_def decimalsForMint_def split: if_splits)
qed

definition sample_balance :: "u32 \<Rightarrow> string \<Rightarrow> u64 \<Rightarrow> u8 \<Rightarrow> TokenBalance" where
  "sample_balance ix mint n d = \<lparr>tb_AccountIndex = ix, tb_Mint = mint, tb_Owner = ''user'',
     tb_UiTokenAmount = Some \<lparr>ui_Amount = show_nat (unat n), ui_Decimals = ucast d\<rparr>\<rparr>"

lemma sample_balance_fields [simp]:
  "tb_AccountIndex (sample_balance ix mint n d) = ix" "tb_Mint (sample_balance ix mint n d) = mint"
  "extractBalance (Some (sample_balance ix mint n d)) = Inr (n, d, mint)"
  by (simp_all add: sample_balance_def extractBalance_printed)

definition sample_meteora_ctx :: "PoolKind \<Rightarrow> string list \<Rightarrow> InstructionContext" where
  "sample_meteora_ctx kind logs = \<lparr>ic_Slot = 9, ic_Signature = ''sig'', ic_Logs = logs,
     ic_Accounts = [''authority'', ''pool'', ''in'', ''out''],
     ic_InstructionAccounts = [0, 1, 2, 3, 0, 0, 0, 0],
     ic_PreTokenBalances = [sample_balance 2 USDC_mint 500 6, sample_balance 3 SOL_mint 10 9],
     ic_PostTokenBalances = [sample_balance 2 USDC_mint 300 6, sample_balance 3 SOL_mint 12 9],
     ic_ProgramID = ''cpamdpZCGKUy5JxQXB4dcpGPiikHawvSWAd6mEn1sGG'', ic_Kind = kind, ic_Timestamp = 0\<rparr>"

lemma sample_meteora_balances:
  "balanceForAccount (sample_meteora_ctx kind logs) 2 =
     Inr \<lparr>td_accountIndex = 2, td_mint = USDC_mint, td_decimals = 6, td_pre = 500, td_post = 300\<rparr>"
  "balanceForAccount (sample_meteora_ctx kind logs) 3 =
     Inr \<lparr>td_accountIndex = 3, td_mint = SOL_mint, td_decimals = 9, td_pre = 10, td_post = 12\<rparr>"
  by (simp_all add: balanceForAccount_def sample_meteora_ctx_def Let_def)

lemma sample_meteora_decodes:
  "\<exists>e. Meteora_DecodeSwapEvent initial_registry data (Some (sample_meteora_ctx kind logs)) = Inr e
     \<and> ms_BaseDecreased e"
proof -
  have "ResolvePair initial_registry USDC_mint SOL_mint =
      Inr \<lparr>cp_BaseToken = ''SOL'', cp_BaseMint = SOL_mint, cp_QuoteToken = ''USDC'',
           cp_QuoteMint = USDC_mint, cp_Inverted = True\<rparr>"
    by (simp add: ResolvePair_def initial_symbols initial_priority)
  moreover have "ic_InstructionAccounts (sample_meteora_ctx kind logs) = [0, 1, 2, 3, 0, 0, 0, 0]"
      "ic_Accounts (sample_meteora_ctx kind logs) = [''authority'', ''pool'', ''in'', ''out'']"
    by (simp_all add: sample_meteora_ctx_def)
  ultimately show ?thesis
    by (simp add: Meteora_DecodeSwapEvent_def sample_meteora_balances resolveAccount_def Let_def
        td_outgoing_def td_incoming_def meteora_orient_def)
qed

text \<open>The property at a swap of 200 units of USDC for 2 units of SOL: SOL is the base.\<close>

theorem Meteora_swap_exact_witness:
  "\<exists>e. Meteora_DecodeSwapEvent initial_registry [] (Some (sample_meteora_ctx PoolKindCPMM [])) = Inr e
     \<and> ms_MintBase e = SOL_mint \<and> unat (ms_BaseAmount e) = 2 \<and> unat (ms_QuoteAmount e) = 200
     \<and> ms_BaseDec e = 9"
proof -
  obtain e where e: "Meteora_DecodeSwapEvent initial_registry [] (Some (sample_meteora_ctx PoolKindCPMM [])) = Inr e"
    and dir: "ms_BaseDecreased e"
    using sample_meteora_decodes by blast
  have ix: "(ucast (ic_InstructionAccounts (sample_meteora_ctx PoolKindCPMM []) ! 2) :: u32) = 2"
      "(ucast (ic_InstructionAccounts (sample_meteora_ctx PoolKindCPMM []) ! 3) :: u32) = 3"
    by (simp_all add: sample_meteora_ctx_def)
  show ?thesis
    using Meteora_swap_exact [OF e] e dir unfolding ix sample_meteora_balances by auto
qed

text \<open>
  The protobuf message of a decoded swap has exactly one flow of each token, in opposite
  directions: base in and quote out, or base out and quote in, both non-zero; chain 501, and slot,
  signature, pool and program of the context.
\<close>

theorem Meteora_proto_direction:
  assumes "Meteora_DecodeSwapEvent reg data (Some ctx) = Inr e"
    and "Meteora_ToProto (Some e) = Some m"
  shows "(if ms_BaseDecreased e
      then se_BaseOut m \<noteq> 0 \<and> se_QuoteIn m \<noteq> 0 \<and> se_BaseIn m = 0 \<and> se_QuoteOut m = 0
      else se_BaseIn m \<noteq> 0 \<and> se_QuoteOut m \<noteq> 0 \<and> se_BaseOut m = 0 \<and> se_QuoteIn m = 0)
    \<and> se_ChainId m = 501 \<and> se_Slot m = ic_Slot ctx \<and> se_Sig m = ic_Signature ctx
    \<and> se_ProgramId m \<noteq> [] \<and> se_Provisional m \<and> \<not> se_IsUndo m
    \<and> resolveAccount ctx 1 = Inr (se_PoolId m)"
  using assms(2) Meteora_amounts_nonzero [OF assms(1)] Meteora_context_fields [OF assms(1)]
  by (auto simp: Meteora_ToProto_def zero_SwapEvent_def Let_def split: if_splits)

text \<open>The property at the sample swap.\<close>

theorem Meteora_proto_direction_witness:
  "\<exists>e m. Meteora_DecodeSwapEvent initial_registry [] (Some (sample_meteora_ctx PoolKindCPMM [])) = Inr e
     \<and> Meteora_ToProto (Some e) = Some m \<and> se_BaseOut m \<noteq> 0 \<and> se_BaseIn m = 0 \<and> se_Slot m = 9"
proof -
  obtain e where e: "Meteora_DecodeSwapEvent initial_registry [] (Some (sample_meteora_ctx PoolKindCPMM [])) = Inr e"
    and dir: "ms_BaseDecreased e"
    using sample_meteora_decodes by blast
  obtain m where m: "Meteora_ToProto (Some e) = Some m"
    by (simp add: Meteora_ToProto_def Let_def)
  have "ic_Slot (sample_meteora_ctx PoolKindCPMM []) = 9"
    by (simp add: sample_meteora_ctx_def)
  with Meteora_proto_direction [OF e m] e m dir show ?thesis by auto
qed

text \<open>
  (C26) What the programs log is read back. Let the logs of a transaction contain one line with the
  reserves of the pool and one with its fee, in either order, and otherwise lines that name neither.
  Then the decoded event carries these reserves (unless both are zero), as virtual reserves for a DLMM
  pool and as real ones for a CPMM pool, and this fee, truncated to 32 bits.
\<close>

theorem log_metadata_roundtrip:
  assumes "Meteora_DecodeSwapEvent reg data (Some ctx) = Inr e"
    and "ic_Logs ctx = before @ line1 # between @ line2 # after"
    and "{line1, line2} = {reserves_log marker base quote, fee_log fee}"
    and "list_all silent_line (before @ between @ after)"
    and "base \<noteq> 0 \<or> quote \<noteq> 0"
    and "ic_Kind ctx = PoolKindDLMM \<and> marker = ''virtual_reserves'' \<or> ic_Kind ctx = PoolKindCPMM \<and> marker = ''cpmm_reserves''"
  shows "ms_FeeBps e = ucast fee \<and>
    (if ic_Kind ctx = PoolKindDLMM then (ms_VirtualReservesBase e, ms_VirtualReservesQuote e) = (base, quote)
     else (ms_RealReservesBase e, ms_RealReservesQuote e) = (base, quote))"
proof -
  obtain e0 where "e = applyLogMetadata ctx e0"
    using assms(1) by (auto simp: Meteora_DecodeSwapEvent_def Let_def split: if_splits sum.splits prod.splits)
  then have e: "e = apply_log_line ctx line2 (apply_log_line ctx line1 e0)"
    using assms(2,4) by (simp add: applyLogMetadata_def silent_lines_keep)
  have kinds: "PoolKindCPMM \<noteq> PoolKindDLMM" by (simp add: PoolKindCPMM_def PoolKindDLMM_def)
  have marker: "marker \<in> {''virtual_reserves'', ''cpmm_reserves''}" using assms(6) by auto
  have some: "tokenize (reserves_log marker base quote) \<noteq> []" "tokenize (fee_log fee) \<noteq> []"
    by (simp_all add: tokenize_reserves_log [OF marker] tokenize_fee_log)
  have reserves: "apply_log_line ctx (reserves_log marker base quote) x =
      (if ic_Kind ctx = PoolKindDLMM then x\<lparr>ms_VirtualReservesBase := base, ms_VirtualReservesQuote := quote\<rparr>
       else x\<lparr>ms_RealReservesBase := base, ms_RealReservesQuote := quote\<rparr>)" for x
    using assms(5,6) kinds some read_reserves_log [OF marker, of base quote] by (auto simp: apply_log_line_def Let_def)
  have fee: "apply_log_line ctx (fee_log fee) x = x\<lparr>ms_FeeBps := ucast fee\<rparr>" for x
    using assms(6) kinds some read_fee_log [OF marker, of fee] by (auto simp: apply_log_line_def Let_def)
  from assms(3) consider "line1 = reserves_log marker base quote" "line2 = fee_log fee"
    | "line1 = fee_log fee" "line2 = reserves_log marker base quote"
    by (metis doubleton_eq_iff)
  then show ?thesis by cases (simp_all add: e reserves fee)
qed

text \<open>The property at a CPMM pool that logs its reserves after a line of another program and then a fee of
  25 basis points.\<close>

theorem log_metadata_roundtrip_witness:
  "\<exists>e. Meteora_DecodeSwapEvent initial_registry []
       (Some (sample_meteora_ctx PoolKindCPMM [''Program log: ok'', reserves_log ''cpmm_reserves'' 600 20, fee_log 25])) = Inr e
     \<and> ms_FeeBps e = 25 \<and> ms_RealReservesBase e = 600 \<and> ms_RealReservesQuote e = 20"
proof -
  let ?logs = "[''Program log: ok'', reserves_log ''cpmm_reserves'' 600 20, fee_log 25]"
  obtain e where e: "Meteora_DecodeSwapEvent initial_registry [] (Some (sample_meteora_ctx PoolKindCPMM ?logs)) = Inr e"
    using sample_meteora_decodes by blast
  have logs: "ic_Logs (sample_meteora_ctx PoolKindCPMM ?logs) =
      [''Program log: ok''] @ reserves_log ''cpmm_reserves'' 600 20 # [] @ fee_log 25 # []"
    by (simp add: sample_meteora_ctx_def)
  have silent: "list_all silent_line ([''Program log: ok''] @ [] @ [])"
    by code_simp
  have kind: "ic_Kind (sample_meteora_ctx PoolKindCPMM ?logs) = PoolKindCPMM" "PoolKindCPMM \<noteq> PoolKindDLMM"
    by (simp_all add: sample_meteora_ctx_def PoolKindCPMM_def PoolKindDLMM_def)
  show ?thesis
    using log_metadata_roundtrip [OF e logs refl silent] e kind by auto
qed

end
