(* ===== verification/SwapDecoder.thy ===== *)
theory SwapDecoder
  imports SlotCache Pools Raydium Orca Meteora
begin

text \<open>
  The shared transaction decoder of the ingestors: \<open>ingestor/decoder/decoder.go\<close>, and the
  transaction summary of \<open>ingestor/common/txmeta.go\<close>. The state of \<open>Decoder\<close> is a record;
  \<open>b58\<close> is the third-party base58 encoder; \<open>ord\<close> is the order in which a \<open>range\<close> loop visits
  the balances map of a transaction (any permutation, chosen anew by the runtime); \<open>reg\<close> and
  \<open>kinds\<close> are the package tables of the decoders it calls.
\<close>

section \<open>State\<close>

definition chainIDSolana :: u64 where "chainIDSolana = 501"

record Decoder =
  slotCache :: MemorySlotTimeCache
  poolConfig :: "(string, string) gomap"
  poolFees :: "(string, u16) gomap"
  configFees :: "(string, u16) gomap"
  orcaPools :: "(string, OrcaPoolInfo) gomap"

definition Decoder_New :: "MemorySlotTimeCache option \<Rightarrow> Decoder" where
  "Decoder_New cache =
     \<lparr>slotCache = (case cache of None \<Rightarrow> NewMemorySlotTimeCache | Some c \<Rightarrow> c),
      poolConfig = [], poolFees = [], configFees = [], orcaPools = []\<rparr>"

definition HandleBlockMeta :: "SubscribeUpdateBlockMeta option \<Rightarrow> Decoder \<Rightarrow> Decoder" where
  "HandleBlockMeta meta_ptr d =
     (case meta_ptr of None \<Rightarrow> d | Some meta \<Rightarrow>
        (case sbm_BlockTime meta of None \<Rightarrow> d
         | Some ts \<Rightarrow> d\<lparr>slotCache := Cache_Set (slotCache d) (sbm_Slot meta) ts\<rparr>))"

section \<open>Account updates\<close>

text \<open>The two blocks that \<open>handleRaydiumAccount\<close> repeats: record a pool, record a config.\<close>

definition record_pool :: "(bytes \<Rightarrow> string) \<Rightarrow> string \<Rightarrow> bytes \<Rightarrow> Decoder \<Rightarrow> Decoder" where
  "record_pool b58 pubkey cfg d =
     (let configKey = b58 cfg;
          d1 = d\<lparr>poolConfig := map_set pubkey configKey (poolConfig d)\<rparr>
      in case map_get (configFees d) configKey of
           Some fee \<Rightarrow> d1\<lparr>poolFees := map_set pubkey fee (poolFees d1)\<rparr>
         | None \<Rightarrow> d1)"

definition record_config :: "string \<Rightarrow> u32 \<Rightarrow> Decoder \<Rightarrow> Decoder" where
  "record_config pubkey tradeRate d =
     (let feeBps = (ucast (tradeRate div 100) :: u16);
          matching = map fst (filter (\<lambda>(pool, cfg). cfg = pubkey) (poolConfig d))
      in d\<lparr>configFees := map_set pubkey feeBps (configFees d),
           poolFees := fold (\<lambda>pool. map_set pool feeBps) matching (poolFees d)\<rparr>)"

definition handleRaydiumAccount :: "(bytes \<Rightarrow> string) \<Rightarrow> string \<Rightarrow> bytes \<Rightarrow> Decoder \<Rightarrow> Decoder" where
  "handleRaydiumAccount b58 pubkey data d =
     (let as_pool = (case DecodeRaydiumPool data of
            Inr cfg \<Rightarrow> Some (record_pool b58 pubkey cfg d) | Inl _ \<Rightarrow> None);
          as_config = (case DecodeAmmConfig data of
            Inr tradeRate \<Rightarrow> Some (record_config pubkey tradeRate d) | Inl _ \<Rightarrow> None)
      in case (if HasPoolDiscriminator data then as_pool else None) of Some d' \<Rightarrow> d' | None \<Rightarrow>
         case (if HasAmmConfigDiscriminator data then as_config else None) of Some d' \<Rightarrow> d' | None \<Rightarrow>
         case (if length data > ApproxConfigAccountMax then as_pool else None) of Some d' \<Rightarrow> d' | None \<Rightarrow>
         case as_config of Some d' \<Rightarrow> d' | None \<Rightarrow>
         case as_pool of Some d' \<Rightarrow> d' | None \<Rightarrow> d)"

definition HandleAccount :: "(bytes \<Rightarrow> string) \<Rightarrow> SubscribeUpdateAccount option \<Rightarrow> Decoder \<Rightarrow> Decoder" where
  "HandleAccount b58 account_ptr d =
     (case account_ptr of None \<Rightarrow> d | Some account \<Rightarrow>
      case sua_Account account of None \<Rightarrow> d | Some info \<Rightarrow>
      let owner = b58 (sai_Owner info); pubkey = b58 (sai_Pubkey info); data = sai_Data info in
      if owner = Raydium_ProgramID then handleRaydiumAccount b58 pubkey data d
      else if owner = WhirlpoolProgramID then
        (case DecodeOrcaPool b58 data of
           Inr poolInfo \<Rightarrow> d\<lparr>orcaPools := map_set pubkey poolInfo (orcaPools d)\<rparr>
         | Inl _ \<Rightarrow> d)
      else d)"

section \<open>Token balances of a transaction\<close>

record tokenBalance =
  tk_accountIndex :: u32
  tk_mint :: string
  tk_owner :: string
  tk_pre :: u64
  tk_post :: u64
  tk_decimals :: u8

datatype amount_error = MissingUiAmount | EmptyAmount | BadAmount parse_error

definition parseAmount :: "UiTokenAmount option \<Rightarrow> amount_error + u64" where
  "parseAmount amount =
     (case amount of None \<Rightarrow> Inl MissingUiAmount | Some a \<Rightarrow>
        if ui_Amount a = [] then Inl EmptyAmount
        else case strconv_ParseUint (ui_Amount a) of
          Inl err \<Rightarrow> Inl (BadAmount err) | Inr parsed \<Rightarrow> Inr parsed)"

definition new_balance :: "TokenBalance \<Rightarrow> tokenBalance" where
  "new_balance bal = \<lparr>tk_accountIndex = tb_AccountIndex bal, tk_mint = tb_Mint bal,
     tk_owner = tb_Owner bal, tk_pre = 0, tk_post = 0, tk_decimals = ucast (ui_decimals_of bal)\<rparr>"

definition add_pre :: "TokenBalance \<Rightarrow> (u32, tokenBalance) gomap \<Rightarrow> (u32, tokenBalance) gomap" where
  "add_pre bal balances =
     (case parseAmount (tb_UiTokenAmount bal) of
        Inl _ \<Rightarrow> balances
      | Inr amt \<Rightarrow> map_set (tb_AccountIndex bal) ((new_balance bal)\<lparr>tk_pre := amt\<rparr>) balances)"

definition add_post :: "TokenBalance \<Rightarrow> (u32, tokenBalance) gomap \<Rightarrow> (u32, tokenBalance) gomap" where
  "add_post bal balances =
     (case parseAmount (tb_UiTokenAmount bal) of
        Inl _ \<Rightarrow> balances
      | Inr amt \<Rightarrow>
          let entry = (case map_get balances (tb_AccountIndex bal) of
                Some e \<Rightarrow> e | None \<Rightarrow> new_balance bal)
          in map_set (tb_AccountIndex bal) (entry\<lparr>tk_post := amt\<rparr>) balances)"

definition account_balances :: "TransactionStatusMeta \<Rightarrow> (u32, tokenBalance) gomap" where
  "account_balances meta =
     fold add_post (tsm_PostTokenBalances meta) (fold add_pre (tsm_PreTokenBalances meta) [])"

type_synonym vault_map = "(string, tokenBalance list) gomap"

type_synonym visit_order = "(u32, tokenBalance) gomap \<Rightarrow> (u32, tokenBalance) gomap"

definition add_owner :: "tokenBalance \<Rightarrow> vault_map \<Rightarrow> vault_map" where
  "add_owner bal owners =
     (if tk_owner bal = [] then owners
      else map_set (tk_owner bal)
        ((case map_get owners (tk_owner bal) of None \<Rightarrow> [] | Some bs \<Rightarrow> bs) @ [bal]) owners)"

definition extractVaultBalances :: "visit_order \<Rightarrow> TransactionStatusMeta \<Rightarrow> vault_map" where
  "extractVaultBalances ord meta = fold add_owner (map snd (ord (account_balances meta))) []"

definition vaults_of :: "vault_map \<Rightarrow> string \<Rightarrow> tokenBalance list" where
  "vaults_of vaults owner = (case map_get vaults owner of None \<Rightarrow> [] | Some bs \<Rightarrow> bs)"

section \<open>Resolving the pool of a Raydium swap\<close>

fun find_pool :: "string list \<Rightarrow> vault_map \<Rightarrow> string \<Rightarrow> u8 list \<Rightarrow> string" where
  "find_pool accountStrs vaults pool [] = pool"
| "find_pool accountStrs vaults pool (rawIdx # rest) =
     (if length accountStrs \<le> unat rawIdx then find_pool accountStrs vaults pool rest
      else
        let addr = accountStrs ! unat rawIdx
        in if pool = [] \<and> map_get vaults addr \<noteq> None
           then find_pool accountStrs vaults addr rest
           else find_pool accountStrs vaults pool rest)"

definition order_vaults :: "tokenBalance list \<Rightarrow> u8 list \<Rightarrow> tokenBalance list" where
  "order_vaults poolVaults accounts =
     concat (map (\<lambda>rawIdx. filter (\<lambda>tb. tk_accountIndex tb = ucast rawIdx) poolVaults) accounts)"

definition resolvePool ::
  "CompiledInstruction \<Rightarrow> string list \<Rightarrow> vault_map \<Rightarrow> (string \<times> tokenBalance \<times> tokenBalance) option" where
  "resolvePool instr accountStrs vaults =
     (let pool = find_pool accountStrs vaults [] (ci_Accounts instr) in
      if pool = [] then None
      else
        let poolVaults = vaults_of vaults pool;
            by_account = order_vaults poolVaults (ci_Accounts instr);
            ordered = (if length by_account < 2 then poolVaults else by_account)
        in if length ordered < 2 then None else Some (pool, ordered ! 0, ordered ! 1))"

section \<open>Building the events\<close>

definition convertRaydiumSwap :: "RaySwapEvent \<Rightarrow> u64 \<Rightarrow> i64 \<Rightarrow> string \<Rightarrow> u64 \<Rightarrow> u16 \<Rightarrow> SwapEvent" where
  "convertRaydiumSwap ev slot timestamp signature index feeBps =
     (let msg = zero_SwapEvent\<lparr>se_ChainId := chainIDSolana, se_Slot := slot, se_Sig := signature,
            se_Index := ucast index, se_ProgramId := Raydium_ProgramID, se_PoolId := rs_PoolAddress ev,
            se_MintBase := rs_MintA ev, se_MintQuote := rs_MintB ev,
            se_DecBase := ucast (rs_DecimalsA ev), se_DecQuote := ucast (rs_DecimalsB ev),
            se_SqrtPriceQ64Pre := rs_SqrtPriceX64Low ev, se_SqrtPriceQ64Post := rs_SqrtPriceX64High ev,
            se_FeeBps := ucast feeBps, se_Provisional := True\<rparr>
      in if rs_IsBaseInput ev
         then msg\<lparr>se_BaseIn := rs_AmountIn ev, se_QuoteOut := rs_AmountOut ev\<rparr>
         else msg\<lparr>se_BaseOut := rs_AmountOut ev, se_QuoteIn := rs_AmountIn ev\<rparr>)"

datatype build_error = RaydiumErr ray_error | MeteoraErr met_error

definition raydium_ctx ::
  "string \<Rightarrow> tokenBalance \<Rightarrow> tokenBalance \<Rightarrow> u64 \<Rightarrow> string \<Rightarrow> i64 \<Rightarrow> SwapContext" where
  "raydium_ctx pool vaultA vaultB slot signature timestamp =
     \<lparr>sc_Accounts = \<lparr>ak_PoolAddress = pool, ak_TokenVaultA = [], ak_TokenVaultB = [],
        ak_MintA = tk_mint vaultA, ak_MintB = tk_mint vaultB, ak_UserTokenA = [], ak_UserTokenB = [],
        ak_TickArrayLower = [], ak_TickArrayUpper = [], ak_ObservationKey = []\<rparr>,
      sc_PreTokenA = tk_pre vaultA, sc_PostTokenA = tk_post vaultA,
      sc_PreTokenB = tk_pre vaultB, sc_PostTokenB = tk_post vaultB,
      sc_DecimalsA = tk_decimals vaultA, sc_DecimalsB = tk_decimals vaultB,
      sc_FeeBps = 0, sc_Slot = slot, sc_Signature = signature, sc_Timestamp = timestamp\<rparr>"

definition buildRaydiumSwap ::
  "Decoder \<Rightarrow> string \<Rightarrow> u64 \<Rightarrow> i64 \<Rightarrow> u64 \<Rightarrow> CompiledInstruction \<Rightarrow> string list \<Rightarrow> vault_map \<Rightarrow>
   build_error + SwapEvent option" where
  "buildRaydiumSwap d signature slot timestamp index instr accountStrs vaults =
     (if ci_Data instr = [] then Inr None
      else case resolvePool instr accountStrs vaults of
        None \<Rightarrow> Inr None
      | Some (pool, vaultA, vaultB) \<Rightarrow>
          (case ParseSwapInstruction (ci_Data instr) of
             Inl err \<Rightarrow> Inl (RaydiumErr err)
           | Inr swapInstr \<Rightarrow>
               (case ParseSwapEvent (Some swapInstr)
                   (Some (raydium_ctx pool vaultA vaultB slot signature timestamp)) of
                  Inl err \<Rightarrow> Inl (RaydiumErr err)
                | Inr event \<Rightarrow>
                    let feeBps = (case map_get (poolFees d) pool of Some f \<Rightarrow> f | None \<Rightarrow> 0)
                    in Inr (Some (convertRaydiumSwap event slot timestamp signature index feeBps)))))"

text \<open>The loop that picks the last balance of each of the pool's mints.\<close>

fun orca_vaults ::
  "OrcaPoolInfo \<Rightarrow> tokenBalance list \<Rightarrow> tokenBalance option \<times> tokenBalance option \<Rightarrow>
   tokenBalance option \<times> tokenBalance option" where
  "orca_vaults info [] (vaultA, vaultB) = (vaultA, vaultB)"
| "orca_vaults info (tb # tbs) (vaultA, vaultB) =
     (if tk_mint tb = op_TokenMintA info then orca_vaults info tbs (Some tb, vaultB)
      else if tk_mint tb = op_TokenMintB info then orca_vaults info tbs (vaultA, Some tb)
      else orca_vaults info tbs (vaultA, vaultB))"

definition orca_flows :: "i64 \<Rightarrow> i64 \<Rightarrow> SwapEvent \<Rightarrow> SwapEvent" where
  "orca_flows deltaA deltaB event =
     (if deltaA <s 0 \<and> 0 <s deltaB
      then event\<lparr>se_BaseOut := - deltaA, se_QuoteIn := deltaB\<rparr>
      else
        let event1 = (if 0 <s deltaA then event\<lparr>se_BaseIn := deltaA\<rparr> else event)
        in if deltaB <s 0 then event1\<lparr>se_QuoteOut := - deltaB\<rparr> else event1)"

definition buildOrcaSwap ::
  "Decoder \<Rightarrow> string \<Rightarrow> u64 \<Rightarrow> i64 \<Rightarrow> u64 \<Rightarrow> CompiledInstruction \<Rightarrow> string list \<Rightarrow> vault_map \<Rightarrow>
   build_error + SwapEvent option" where
  "buildOrcaSwap d signature slot timestamp index instr accountStrs vaults =
     (if length (ci_Accounts instr) < 3 then Inr None
      else let poolIdx = unat (ci_Accounts instr ! 2) in
      if length accountStrs \<le> poolIdx then Inr None
      else let poolID = accountStrs ! poolIdx in
      case map_get (orcaPools d) poolID of None \<Rightarrow> Inr None | Some poolInfo \<Rightarrow>
      let balances = vaults_of vaults poolID in
      if balances = [] then Inr None
      else case orca_vaults poolInfo balances (None, None) of
        (Some vaultA, Some vaultB) \<Rightarrow>
          (let deltaA = tk_post vaultA - tk_pre vaultA; deltaB = tk_post vaultB - tk_pre vaultB in
           if deltaA = 0 \<and> deltaB = 0 then Inr None
           else Inr (Some (orca_flows deltaA deltaB
             (zero_SwapEvent\<lparr>se_ChainId := chainIDSolana, se_Slot := slot, se_Sig := signature,
               se_Index := ucast index, se_ProgramId := WhirlpoolProgramID, se_PoolId := poolID,
               se_MintBase := op_TokenMintA poolInfo, se_MintQuote := op_TokenMintB poolInfo,
               se_DecBase := ucast (tk_decimals vaultA), se_DecQuote := ucast (tk_decimals vaultB),
               se_FeeBps := ucast (op_FeeRate poolInfo div 100), se_Provisional := True\<rparr>))))
      | _ \<Rightarrow> Inr None)"

definition meteora_ctx ::
  "string \<Rightarrow> u64 \<Rightarrow> i64 \<Rightarrow> CompiledInstruction \<Rightarrow> string list \<Rightarrow> TransactionStatusMeta \<Rightarrow> string \<Rightarrow>
   PoolKind \<Rightarrow> InstructionContext" where
  "meteora_ctx signature slot timestamp instr accountStrs meta programID kind =
     \<lparr>ic_Slot = slot, ic_Signature = signature, ic_Logs = tsm_LogMessages meta,
      ic_Accounts = accountStrs, ic_InstructionAccounts = ci_Accounts instr,
      ic_PreTokenBalances = tsm_PreTokenBalances meta,
      ic_PostTokenBalances = tsm_PostTokenBalances meta, ic_ProgramID = programID, ic_Kind = kind,
      ic_Timestamp = (if timestamp \<noteq> 0 then timestamp else time_zero)\<rparr>"

definition meteora_proto :: "string \<Rightarrow> u64 \<Rightarrow> u64 \<Rightarrow> string \<Rightarrow> MeteoraSwapEvent \<Rightarrow> SwapEvent" where
  "meteora_proto signature slot index programID event =
     (let proto = zero_SwapEvent\<lparr>se_ChainId := chainIDSolana, se_Slot := slot, se_Sig := signature,
            se_Index := ucast index, se_ProgramId := programID, se_PoolId := ms_Pool event,
            se_MintBase := ms_MintBase event, se_MintQuote := ms_MintQuote event,
            se_DecBase := ms_DecBase event, se_DecQuote := ms_DecQuote event,
            se_FeeBps := ms_FeeBps event, se_Provisional := True\<rparr>;
          (resBase, resQuote) =
            (if ms_VirtualReservesBase event = 0 \<and> ms_VirtualReservesQuote event = 0
             then (ms_RealReservesBase event, ms_RealReservesQuote event)
             else (ms_VirtualReservesBase event, ms_VirtualReservesQuote event));
          proto1 = (if resBase \<noteq> 0 \<or> resQuote \<noteq> 0
            then proto\<lparr>se_ReservesBase := resBase, se_ReservesQuote := resQuote\<rparr> else proto)
      in if ms_BaseDecreased event
         then proto1\<lparr>se_BaseOut := ms_BaseAmount event, se_QuoteIn := ms_QuoteAmount event\<rparr>
         else proto1\<lparr>se_BaseIn := ms_BaseAmount event, se_QuoteOut := ms_QuoteAmount event\<rparr>)"

definition buildMeteoraSwap ::
  "pair_registry \<Rightarrow> string \<Rightarrow> u64 \<Rightarrow> i64 \<Rightarrow> u64 \<Rightarrow> CompiledInstruction \<Rightarrow> string list \<Rightarrow>
   TransactionStatusMeta \<Rightarrow> string \<Rightarrow> PoolKind \<Rightarrow> build_error + SwapEvent option" where
  "buildMeteoraSwap reg signature slot timestamp index instr accountStrs meta programID kind =
     (case Meteora_DecodeSwapEvent reg (ci_Data instr)
         (Some (meteora_ctx signature slot timestamp instr accountStrs meta programID kind)) of
        Inl err \<Rightarrow> Inl (MeteoraErr err)
      | Inr event \<Rightarrow> Inr (Some (meteora_proto signature slot index programID event)))"

section \<open>Decoding a transaction\<close>

definition encodeSignature :: "(bytes \<Rightarrow> string) \<Rightarrow> bytes list \<Rightarrow> string" where
  "encodeSignature b58 signatures = (case signatures of [] \<Rightarrow> [] | s # _ \<Rightarrow> b58 s)"

definition lookupSlotTimestamp :: "MemorySlotTimeCache \<Rightarrow> u64 \<Rightarrow> i64" where
  "lookupSlotTimestamp cache slot =
     (case Cache_Get cache slot of Inl _ \<Rightarrow> 0 | Inr ts \<Rightarrow> if time_IsZero ts then 0 else ts)"

record DecodeError =
  de_Program :: string
  de_Err :: build_error

text \<open>
  The body of the loop over the instructions; \<open>build\<close> is what the three cases call, applied to the
  program of the instruction, and \<open>None\<close> is an instruction the switch ignores.
\<close>

definition build_swap ::
  "pair_registry \<Rightarrow> program_kinds \<Rightarrow> Decoder \<Rightarrow> string \<Rightarrow> u64 \<Rightarrow> i64 \<Rightarrow> u64 \<Rightarrow> string list \<Rightarrow>
   TransactionStatusMeta \<Rightarrow> vault_map \<Rightarrow> CompiledInstruction \<Rightarrow> DecodeError + SwapEvent option" where
  "build_swap reg kinds d signature slot timestamp index accountStrs meta vaults instr =
     (let programIdx = unat (ci_ProgramIdIndex instr) in
      if length accountStrs \<le> programIdx then Inr None
      else
        let programID = accountStrs ! programIdx;
            wrap = map_sum (\<lambda>err. \<lparr>de_Program = programID, de_Err = err\<rparr>) id
        in if programID = Raydium_ProgramID then
             wrap (buildRaydiumSwap d signature slot timestamp index instr accountStrs vaults)
           else if programID = WhirlpoolProgramID then
             wrap (buildOrcaSwap d signature slot timestamp index instr accountStrs vaults)
           else case ProgramKindForID kinds programID of
             Some kind \<Rightarrow>
               wrap (buildMeteoraSwap reg signature slot timestamp index instr accountStrs meta programID kind)
           | None \<Rightarrow> Inr None)"

fun decode_loop ::
  "(CompiledInstruction \<Rightarrow> DecodeError + SwapEvent option) \<Rightarrow> SwapEvent list \<Rightarrow>
   CompiledInstruction list \<Rightarrow> DecodeError + SwapEvent list" where
  "decode_loop build events [] = Inr events"
| "decode_loop build events (instr # instrs) =
     (case build instr of
        Inl err \<Rightarrow> Inl err
      | Inr None \<Rightarrow> decode_loop build events instrs
      | Inr (Some ev) \<Rightarrow> decode_loop build (events @ [ev]) instrs)"

definition DecodeTransaction ::
  "(bytes \<Rightarrow> string) \<Rightarrow> visit_order \<Rightarrow> pair_registry \<Rightarrow> program_kinds \<Rightarrow> Decoder \<Rightarrow>
   SubscribeUpdateTransaction option \<Rightarrow> DecodeError + SwapEvent list" where
  "DecodeTransaction b58 ord reg kinds d tx_ptr =
     (case tx_ptr of None \<Rightarrow> Inr [] | Some tx \<Rightarrow>
      case sut_Transaction tx of None \<Rightarrow> Inr [] | Some info \<Rightarrow>
      case sti_Meta info of None \<Rightarrow> Inr [] | Some meta \<Rightarrow>
      case sti_Transaction info of None \<Rightarrow> Inr [] | Some txMsg \<Rightarrow>
      case ptx_Message txMsg of None \<Rightarrow> Inr [] | Some message \<Rightarrow>
      let accountStrs = map b58 (msg_AccountKeys message);
          vaults = extractVaultBalances ord meta;
          signature = encodeSignature b58 (ptx_Signatures txMsg);
          slot = sut_Slot tx;
          timestamp = lookupSlotTimestamp (slotCache d) slot;
          index = sti_Index info
      in decode_loop
           (build_swap reg kinds d signature slot timestamp index accountStrs meta vaults)
           [] (msg_Instructions message))"

section \<open>ingestor/common/txmeta.go\<close>

definition ConvertTxMeta :: "(bytes \<Rightarrow> string) \<Rightarrow> SubscribeUpdateTransaction option \<Rightarrow> TxMeta option" where
  "ConvertTxMeta b58 tx_ptr =
     (case tx_ptr of None \<Rightarrow> None | Some tx \<Rightarrow>
      case sut_Transaction tx of None \<Rightarrow> None | Some info \<Rightarrow>
      case sti_Meta info of None \<Rightarrow> None | Some meta \<Rightarrow>
      Some \<lparr>tm_ChainId = 501, tm_Slot = sut_Slot tx, tm_Sig = b58 (sti_Signature info),
        tm_Success = (\<not> tsm_HasErr meta), tm_CuUsed = tsm_ComputeUnitsConsumed meta, tm_CuPrice = 0,
        tm_LogMsgs = tsm_LogMessages meta\<rparr>)"

section \<open>Lemmas on the fee caches\<close>

text \<open>What a stream of updates does to the decoder.\<close>

datatype decoder_update =
    BlockMetaUpdate "SubscribeUpdateBlockMeta option"
  | AccountUpdate "SubscribeUpdateAccount option"

fun decoder_step :: "(bytes \<Rightarrow> string) \<Rightarrow> decoder_update \<Rightarrow> Decoder \<Rightarrow> Decoder" where
  "decoder_step b58 (BlockMetaUpdate m) d = HandleBlockMeta m d"
| "decoder_step b58 (AccountUpdate a) d = HandleAccount b58 a d"

text \<open>Coherence: a pool whose config has a known fee has that fee.\<close>

definition fees_coherent :: "Decoder \<Rightarrow> bool" where
  "fees_coherent d \<longleftrightarrow> map_ok (poolConfig d) \<and>
     (\<forall>pool cfg fee. map_get (poolConfig d) pool = Some cfg \<longrightarrow> map_get (configFees d) cfg = Some fee \<longrightarrow>
        map_get (poolFees d) pool = Some fee)"

lemma fees_coherent_New: "fees_coherent (Decoder_New c)"
  by (simp add: fees_coherent_def Decoder_New_def)

lemma fees_coherent_record_pool:
  "fees_coherent d \<Longrightarrow> fees_coherent (record_pool b58 pubkey cfg d)"
  by (auto simp: fees_coherent_def record_pool_def Let_def split: option.splits if_splits)

lemma record_config_fees:
  assumes "map_ok (poolConfig d)"
  shows "map_get (poolFees (record_config pubkey rate d)) pool =
    (if map_get (poolConfig d) pool = Some pubkey then Some (ucast (rate div 100)) else map_get (poolFees d) pool)"
proof -
  have "pool \<in> set (map fst (filter (\<lambda>(pool, cfg). cfg = pubkey) (poolConfig d)))
      \<longleftrightarrow> map_get (poolConfig d) pool = Some pubkey"
    unfolding map_get_iff [OF assms] by force
  then show ?thesis
    by (simp add: record_config_def Let_def gm.get_fold_put del: set_map set_filter)
qed

lemma fees_coherent_record_config:
  "fees_coherent d \<Longrightarrow> fees_coherent (record_config pubkey rate d)"
  unfolding fees_coherent_def
  by (clarsimp simp: record_config_fees) (auto simp: record_config_def Let_def split: if_splits)

lemma handleRaydiumAccount_cases:
  "handleRaydiumAccount b58 pubkey data d \<in> {d} \<union> {record_pool b58 pubkey cfg d |cfg. True}
     \<union> {record_config pubkey rate d |rate. True}"
  by (auto simp: handleRaydiumAccount_def Let_def split: sum.splits if_splits)

lemma fees_coherent_step: "fees_coherent d \<Longrightarrow> fees_coherent (decoder_step b58 u d)"
proof (cases u)
  case (BlockMetaUpdate m)
  assume "fees_coherent d"
  with BlockMetaUpdate show ?thesis
    by (auto simp: HandleBlockMeta_def fees_coherent_def split: option.splits)
next
  case (AccountUpdate a)
  assume d: "fees_coherent d"
  then have "fees_coherent (handleRaydiumAccount b58 pubkey data d)" for pubkey data
    using handleRaydiumAccount_cases [of b58 pubkey data d] fees_coherent_record_pool fees_coherent_record_config
    by auto
  with AccountUpdate d show ?thesis
    by (auto simp: HandleAccount_def fees_coherent_def Let_def split: option.splits sum.splits)
qed

lemma fees_coherent_reachable: "fees_coherent (fold (decoder_step b58) us (Decoder_New c))"
proof -
  have "fees_coherent d \<Longrightarrow> fees_coherent (fold (decoder_step b58) us d)" for d
    by (induction us arbitrary: d) (auto intro: fees_coherent_step)
  then show ?thesis using fees_coherent_New by blast
qed

text \<open>Accounts laid out with their discriminator are recognised as what they are.\<close>

lemma handleRaydiumAccount_pool:
  assumes "length cfg = 32"
  shows "handleRaydiumAccount b58 pubkey (poolStateDiscriminator @ [bump] @ cfg @ rest) d = record_pool b58 pubkey cfg d"
proof -
  have "DecodeRaydiumPool (poolStateDiscriminator @ [bump] @ cfg @ rest) = Inr cfg"
    using assms by (intro DecodeRaydiumPool_layout) (simp_all add: poolStateDiscriminator_def)
  then show ?thesis
    by (simp add: handleRaydiumAccount_def HasPoolDiscriminator_def poolStateDiscriminator_def Let_def)
qed

lemma handleRaydiumAccount_config:
  assumes "length skipped = 39"
  shows "handleRaydiumAccount b58 pubkey (amm_config_layout ammConfigDiscriminator skipped rate rest) d
    = record_config pubkey rate d"
proof -
  have "DecodeAmmConfig (amm_config_layout ammConfigDiscriminator skipped rate rest) = Inr rate"
    using assms by (intro DecodeAmmConfig_layout) (simp_all add: ammConfigDiscriminator_def)
  then show ?thesis
    by (simp add: handleRaydiumAccount_def HasPoolDiscriminator_def HasAmmConfigDiscriminator_def amm_config_layout_def
        poolStateDiscriminator_def ammConfigDiscriminator_def Let_def)
qed

section \<open>Lemmas on the vault balances\<close>

lemma account_balances_index:
  "map_ok (account_balances meta) \<and> (\<forall>ix b. (ix, b) \<in> set (account_balances meta) \<longrightarrow> tk_accountIndex b = ix)"
proof -
  define ok where "ok m \<longleftrightarrow> map_ok m \<and> (\<forall>ix b. map_get m ix = Some b \<longrightarrow> tk_accountIndex b = ix)"
    for m :: "(u32, tokenBalance) gomap"
  have pre: "ok m \<Longrightarrow> ok (add_pre bal m)" for bal m
    by (auto simp: ok_def add_pre_def new_balance_def split: sum.splits)
  have post: "ok m \<Longrightarrow> ok (add_post bal m)" for bal m
    by (auto simp: ok_def add_post_def new_balance_def Let_def split: sum.splits option.splits)
  have pres: "ok (fold add_pre bs m)" if "ok m" for bs m
    using that by (induction bs arbitrary: m) (simp_all add: pre)
  have posts: "ok (fold add_post bs m)" if "ok m" for bs m
    using that by (induction bs arbitrary: m) (simp_all add: post)
  have "ok []" by (simp add: ok_def)
  then have "ok (account_balances meta)"
    unfolding account_balances_def by (intro posts pres)
  then show ?thesis by (auto simp: ok_def map_get_iff)
qed

lemma vaults_of_fold_owner:
  "vaults_of (fold add_owner bs vs) o1 =
     vaults_of vs o1 @ filter (\<lambda>b. tk_owner b = o1 \<and> o1 \<noteq> []) bs"
  by (induction bs arbitrary: vs) (auto simp: add_owner_def vaults_of_def split: option.splits)

lemma vaults_of_extract:
  "vaults_of (extractVaultBalances ord meta) o1 =
     filter (\<lambda>b. tk_owner b = o1 \<and> o1 \<noteq> []) (map snd (ord (account_balances meta)))"
  using vaults_of_fold_owner [of "map snd (ord (account_balances meta))" "[]" o1]
  by (simp add: extractVaultBalances_def) (simp add: vaults_of_def)

lemma extract_owner_iff:
  "map_get (extractVaultBalances ord meta) o1 \<noteq> None \<longleftrightarrow>
     (\<exists>b \<in> set (map snd (ord (account_balances meta))). tk_owner b = o1 \<and> o1 \<noteq> [])"
proof -
  have "map_get (fold add_owner bs vs) o1 \<noteq> None \<longleftrightarrow>
      map_get vs o1 \<noteq> None \<or> (\<exists>b \<in> set bs. tk_owner b = o1 \<and> o1 \<noteq> [])" for bs and vs :: vault_map
    by (induction bs arbitrary: vs) (auto simp: add_owner_def split: if_splits)
  then show ?thesis by (simp add: extractVaultBalances_def del: set_map)
qed

text \<open>Two visiting orders of the same map.\<close>

definition visits :: "visit_order \<Rightarrow> bool" where
  "visits ord \<longleftrightarrow> (\<forall>m. mset (ord m) = mset m)"

lemma visits_set: "visits ord \<Longrightarrow> set (map snd (ord m)) = set (map snd m)"
  by (metis visits_def mset_map set_mset_mset)

lemma find_pool_order:
  assumes "visits o1" and "visits o2"
  shows "find_pool accs (extractVaultBalances o1 meta) p ixs = find_pool accs (extractVaultBalances o2 meta) p ixs"
proof -
  have "map_get (extractVaultBalances o1 meta) a \<noteq> None \<longleftrightarrow> map_get (extractVaultBalances o2 meta) a \<noteq> None" for a
    unfolding extract_owner_iff visits_set [OF assms(1)] visits_set [OF assms(2)] ..
  then show ?thesis by (induction ixs arbitrary: p) (simp_all only: find_pool.simps Let_def)
qed

lemma vaults_of_mset:
  assumes "visits o1" and "visits o2"
  shows "mset (vaults_of (extractVaultBalances o1 meta) a) = mset (vaults_of (extractVaultBalances o2 meta) a)"
  using assms by (simp add: vaults_of_extract visits_def)

lemma vaults_of_distinct:
  assumes "visits ord"
  shows "distinct (map tk_accountIndex (vaults_of (extractVaultBalances ord meta) a))"
proof -
  let ?m = "account_balances meta"
  have "mset (ord ?m) = mset ?m" using assms by (simp add: visits_def)
  then have set: "set (ord ?m) = set ?m" and dist: "distinct (map fst (ord ?m))"
    using account_balances_index [of meta] mset_eq_imp_distinct_iff [of "map fst (ord ?m)" "map fst ?m"]
    by (auto simp: map_ok_def dest: mset_eq_setD)
  have "map tk_accountIndex (map snd (ord ?m)) = map fst (ord ?m)"
    using set account_balances_index [of meta] by auto
  with dist have "distinct (map tk_accountIndex (map snd (ord ?m)))" by (simp only:)
  then show ?thesis
    unfolding vaults_of_extract by (rule distinct_map_filter)
qed

lemma filter_key_perm:
  assumes "mset xs = mset ys" and "distinct (map f xs)"
  shows "filter (\<lambda>x. f x = k) xs = filter (\<lambda>x. f x = k) ys"
proof -
  let ?fx = "filter (\<lambda>x. f x = k) xs" and ?fy = "filter (\<lambda>x. f x = k) ys"
  have "length ?fx \<le> 1"
    using assms(2) by (induction xs) (auto simp: filter_empty_conv image_iff)
  moreover have eq: "mset ?fx = mset ?fy"
    using assms(1) by simp
  ultimately consider "?fx = []" | x where "?fx = [x]"
    by (cases ?fx) auto
  then show ?thesis
  proof cases
    case 1
    then show ?thesis using eq by (metis mset_zero_iff_right)
  next
    case 2
    then have "mset ?fy = {#x#}" using eq by (metis mset_single_iff)
    then show ?thesis using 2 by (simp only: mset_single_iff)
  qed
qed

lemma order_vaults_perm:
  "mset xs = mset ys \<Longrightarrow> distinct (map tk_accountIndex xs) \<Longrightarrow> order_vaults xs ixs = order_vaults ys ixs"
  by (simp add: order_vaults_def filter_key_perm)

text \<open>Which vaults a swap uses, whatever the visiting order.\<close>

lemma resolvePool_eqI:
  assumes "visits o1" and "visits o2"
    and "pool = find_pool accs (extractVaultBalances o1 meta) [] (ci_Accounts instr)"
    and "length (vaults_of (extractVaultBalances o1 meta) pool) < 2
      \<or> 2 \<le> length (order_vaults (vaults_of (extractVaultBalances o1 meta) pool) (ci_Accounts instr))"
  shows "resolvePool instr accs (extractVaultBalances o1 meta) = resolvePool instr accs (extractVaultBalances o2 meta)"
proof -
  have "order_vaults (vaults_of (extractVaultBalances o1 meta) pool) (ci_Accounts instr)
      = order_vaults (vaults_of (extractVaultBalances o2 meta) pool) (ci_Accounts instr)"
    by (intro order_vaults_perm vaults_of_mset vaults_of_distinct assms)
  moreover have "pool = find_pool accs (extractVaultBalances o2 meta) [] (ci_Accounts instr)"
    using assms find_pool_order by metis
  moreover have "length (vaults_of (extractVaultBalances o1 meta) pool) = length (vaults_of (extractVaultBalances o2 meta) pool)"
    using vaults_of_mset [OF assms(1,2)] by (rule mset_eq_length)
  ultimately show ?thesis
    using assms(3,4) by (auto simp: resolvePool_def Let_def)
qed

lemma orca_vaults_filter:
  "orca_vaults info bs (a, b) =
     (if filter (\<lambda>tb. tk_mint tb = op_TokenMintA info) bs = [] then a
      else Some (last (filter (\<lambda>tb. tk_mint tb = op_TokenMintA info) bs)),
      if op_TokenMintA info = op_TokenMintB info \<or> filter (\<lambda>tb. tk_mint tb = op_TokenMintB info) bs = [] then b
      else Some (last (filter (\<lambda>tb. tk_mint tb = op_TokenMintB info) bs)))"
  by (induction bs arbitrary: a b) auto

lemma orca_vaults_perm:
  assumes "mset xs = mset ys" and "distinct (map tk_mint xs)"
  shows "orca_vaults info xs ab = orca_vaults info ys ab"
  by (cases ab) (simp add: orca_vaults_filter filter_key_perm [OF assms])

text \<open>
  A transaction whose swaps do not depend on the visiting order: every Raydium instruction names two
  vaults of its pool (or the pool has fewer than two), and the pool of every Whirlpool instruction
  holds at most one balance of each mint.
\<close>

definition order_safe_instr :: "string list \<Rightarrow> vault_map \<Rightarrow> CompiledInstruction \<Rightarrow> bool" where
  "order_safe_instr accountStrs vaults instr =
     (let programIdx = unat (ci_ProgramIdIndex instr) in
      if length accountStrs \<le> programIdx then True
      else if accountStrs ! programIdx = Raydium_ProgramID then
        let poolVaults = vaults_of vaults (find_pool accountStrs vaults [] (ci_Accounts instr))
        in length poolVaults < 2 \<or> 2 \<le> length (order_vaults poolVaults (ci_Accounts instr))
      else if accountStrs ! programIdx = WhirlpoolProgramID then
        length (ci_Accounts instr) < 3 \<or> length accountStrs \<le> unat (ci_Accounts instr ! 2) \<or>
        distinct (map tk_mint (vaults_of vaults (accountStrs ! unat (ci_Accounts instr ! 2))))
      else True)"

definition order_safe :: "(bytes \<Rightarrow> string) \<Rightarrow> SubscribeUpdateTransaction option \<Rightarrow> bool" where
  "order_safe b58 tx_ptr =
     (case tx_ptr of None \<Rightarrow> True | Some tx \<Rightarrow>
      case sut_Transaction tx of None \<Rightarrow> True | Some info \<Rightarrow>
      case sti_Meta info of None \<Rightarrow> True | Some meta \<Rightarrow>
      case sti_Transaction info of None \<Rightarrow> True | Some txMsg \<Rightarrow>
      case ptx_Message txMsg of None \<Rightarrow> True | Some message \<Rightarrow>
      list_all (order_safe_instr (map b58 (msg_AccountKeys message)) (extractVaultBalances id meta)) (msg_Instructions message))"

lemma visits_id_rev: "visits id" "visits rev"
  by (simp_all add: visits_def)

lemma build_swap_order:
  assumes "visits ord" and "order_safe_instr accs (extractVaultBalances id meta) instr"
  shows "build_swap reg kinds d sg slot ts index accs meta (extractVaultBalances ord meta) instr =
    build_swap reg kinds d sg slot ts index accs meta (extractVaultBalances id meta) instr"
proof -
  let ?vs = "extractVaultBalances ord meta" and ?vi = "extractVaultBalances id meta"
  let ?program = "accs ! unat (ci_ProgramIdIndex instr)" and ?pool = "accs ! unat (ci_Accounts instr ! 2)"
  have "resolvePool instr accs ?vi = resolvePool instr accs ?vs"
    if "unat (ci_ProgramIdIndex instr) < length accs" and "?program = Raydium_ProgramID"
    using resolvePool_eqI [OF visits_id_rev(1) assms(1) refl] assms(2) that
    by (simp add: order_safe_instr_def Let_def)
  moreover have "buildOrcaSwap d sg slot ts index instr accs ?vs = buildOrcaSwap d sg slot ts index instr accs ?vi"
    if "unat (ci_ProgramIdIndex instr) < length accs" and "?program = WhirlpoolProgramID"
  proof (cases "length (ci_Accounts instr) < 3 \<or> length accs \<le> unat (ci_Accounts instr ! 2)")
    case False
    note perm = vaults_of_mset [OF visits_id_rev(1) assms(1), of meta ?pool]
    have "Raydium_ProgramID \<noteq> WhirlpoolProgramID" by (simp add: Raydium_ProgramID_def WhirlpoolProgramID_def)
    then have "distinct (map tk_mint (vaults_of ?vi ?pool))"
      using assms(2) that False by (auto simp: order_safe_instr_def Let_def)
    note same = orca_vaults_perm [OF perm this]
    have "vaults_of ?vi ?pool = [] \<longleftrightarrow> vaults_of ?vs ?pool = []"
      using perm by (metis mset_zero_iff_right)
    with same show ?thesis
      by (cases "map_get (orcaPools d) ?pool") (simp_all add: buildOrcaSwap_def Let_def)
  qed (auto simp: buildOrcaSwap_def Let_def)
  ultimately show ?thesis
    by (auto simp: build_swap_def buildRaydiumSwap_def Let_def)
qed

lemma decode_loop_cong:
  "(\<And>i. i \<in> set instrs \<Longrightarrow> f i = g i) \<Longrightarrow> decode_loop f events instrs = decode_loop g events instrs"
  by (induction instrs arbitrary: events) (auto split: sum.splits option.splits)

lemma DecodeTransaction_order:
  assumes "visits ord" and "order_safe b58 tx"
  shows "DecodeTransaction b58 ord reg kinds d tx = DecodeTransaction b58 id reg kinds d tx"
  using assms(2) unfolding DecodeTransaction_def order_safe_def
  by (auto simp: Let_def list_all_iff split: option.splits intro!: decode_loop_cong build_swap_order [OF assms(1)])

section \<open>Lemmas on the events\<close>

text \<open>One token goes in and the other comes out.\<close>

definition two_sided :: "SwapEvent \<Rightarrow> bool" where
  "two_sided ev \<longleftrightarrow>
     se_BaseIn ev \<noteq> 0 \<and> se_QuoteOut ev \<noteq> 0 \<and> se_BaseOut ev = 0 \<and> se_QuoteIn ev = 0
   \<or> se_BaseOut ev \<noteq> 0 \<and> se_QuoteIn ev \<noteq> 0 \<and> se_BaseIn ev = 0 \<and> se_QuoteOut ev = 0"

text \<open>The fields every decoder fills in from the transaction.\<close>

definition event_header :: "u64 \<Rightarrow> string \<Rightarrow> u64 \<Rightarrow> string \<Rightarrow> SwapEvent \<Rightarrow> bool" where
  "event_header slot signature index programID ev \<longleftrightarrow>
     se_ChainId ev = 501 \<and> se_Slot ev = slot \<and> se_Sig ev = signature \<and> se_Index ev = ucast index
     \<and> se_ProgramId ev = programID \<and> se_Provisional ev \<and> \<not> se_IsUndo ev"

lemma ParseSwapEvent_nonzero:
  "ParseSwapEvent (Some i) (Some ctx) = Inr e \<Longrightarrow> rs_AmountIn e \<noteq> 0 \<and> rs_AmountOut e \<noteq> 0"
  by (auto simp: ParseSwapEvent_def Let_def split: sum.splits if_splits)

lemma convertRaydiumSwap_event:
  "event_header slot signature index Raydium_ProgramID (convertRaydiumSwap ev slot ts signature index fee)"
  "rs_AmountIn ev \<noteq> 0 \<Longrightarrow> rs_AmountOut ev \<noteq> 0 \<Longrightarrow> two_sided (convertRaydiumSwap ev slot ts signature index fee)"
  "se_PoolId (convertRaydiumSwap ev slot ts signature index fee) = rs_PoolAddress ev"
  "se_FeeBps (convertRaydiumSwap ev slot ts signature index fee) = ucast fee"
  by (auto simp: convertRaydiumSwap_def event_header_def two_sided_def zero_SwapEvent_def chainIDSolana_def Let_def)

lemma buildRaydiumSwap_event:
  assumes "buildRaydiumSwap d signature slot ts index instr accs vaults = Inr (Some ev)"
  shows "event_header slot signature index Raydium_ProgramID ev \<and> two_sided ev
    \<and> se_FeeBps ev = ucast (case map_get (poolFees d) (se_PoolId ev) of Some f \<Rightarrow> f | None \<Rightarrow> 0)"
proof -
  obtain pool a b i e where "resolvePool instr accs vaults = Some (pool, a, b)"
    and e: "ParseSwapEvent (Some i) (Some (raydium_ctx pool a b slot signature ts)) = Inr e"
    and ev: "ev = convertRaydiumSwap e slot ts signature index (case map_get (poolFees d) pool of Some f \<Rightarrow> f | None \<Rightarrow> 0)"
    using assms by (auto simp: buildRaydiumSwap_def Let_def split: if_splits option.splits sum.splits)
  have "rs_PoolAddress e = pool"
    using e by (auto simp: ParseSwapEvent_def raydium_ctx_def ray_event_base_def Let_def split: if_splits)
  then show ?thesis
    unfolding ev using convertRaydiumSwap_event ParseSwapEvent_nonzero [OF e] by simp
qed

lemma orca_flows_event:
  assumes "event_header slot signature index p ev0"
    and "se_BaseIn ev0 = 0" "se_BaseOut ev0 = 0" "se_QuoteIn ev0 = 0" "se_QuoteOut ev0 = 0"
  shows "event_header slot signature index p (orca_flows a b ev0)"
    and "two_sided (orca_flows a b ev0) \<longleftrightarrow> 0 <s a \<and> b <s 0 \<or> a <s 0 \<and> 0 <s b"
  using assms by (auto simp: orca_flows_def event_header_def two_sided_def Let_def signed_pos_u64 signed_neg_u64)

lemma buildOrcaSwap_inv:
  assumes "buildOrcaSwap d signature slot ts index instr accs vaults = Inr (Some ev)"
  shows "\<exists>info a b ev0. map_get (orcaPools d) (accs ! unat (ci_Accounts instr ! 2)) = Some info
    \<and> orca_vaults info (vaults_of vaults (accs ! unat (ci_Accounts instr ! 2))) (None, None) = (Some a, Some b)
    \<and> (tk_post a \<noteq> tk_pre a \<or> tk_post b \<noteq> tk_pre b)
    \<and> ev = orca_flows (tk_post a - tk_pre a) (tk_post b - tk_pre b) ev0
    \<and> event_header slot signature index WhirlpoolProgramID ev0
    \<and> se_BaseIn ev0 = 0 \<and> se_BaseOut ev0 = 0 \<and> se_QuoteIn ev0 = 0 \<and> se_QuoteOut ev0 = 0"
proof -
  define base where "base info a b = zero_SwapEvent\<lparr>se_ChainId := chainIDSolana, se_Slot := slot, se_Sig := signature,
      se_Index := ucast index, se_ProgramId := WhirlpoolProgramID, se_PoolId := accs ! unat (ci_Accounts instr ! 2),
      se_MintBase := op_TokenMintA info, se_MintQuote := op_TokenMintB info,
      se_DecBase := ucast (tk_decimals a), se_DecQuote := ucast (tk_decimals b),
      se_FeeBps := ucast (op_FeeRate info div 100), se_Provisional := True\<rparr>"
    for info :: OrcaPoolInfo and a b :: tokenBalance
  have "event_header slot signature index WhirlpoolProgramID (base info a b)
    \<and> se_BaseIn (base info a b) = 0 \<and> se_BaseOut (base info a b) = 0
    \<and> se_QuoteIn (base info a b) = 0 \<and> se_QuoteOut (base info a b) = 0" for info a b
    by (simp add: base_def event_header_def zero_SwapEvent_def chainIDSolana_def)
  moreover obtain info a b where "map_get (orcaPools d) (accs ! unat (ci_Accounts instr ! 2)) = Some info"
    "orca_vaults info (vaults_of vaults (accs ! unat (ci_Accounts instr ! 2))) (None, None) = (Some a, Some b)"
    "tk_post a \<noteq> tk_pre a \<or> tk_post b \<noteq> tk_pre b"
    "ev = orca_flows (tk_post a - tk_pre a) (tk_post b - tk_pre b) (base info a b)"
    using assms unfolding buildOrcaSwap_def Let_def base_def [symmetric]
    by (auto split: if_splits option.splits prod.splits)
  ultimately show ?thesis by blast
qed

lemma buildOrcaSwap_event:
  assumes "buildOrcaSwap d signature slot ts index instr accs vaults = Inr (Some ev)"
  shows "event_header slot signature index WhirlpoolProgramID ev"
  using buildOrcaSwap_inv [OF assms] orca_flows_event(1) by blast

lemma meteora_proto_event:
  "event_header slot signature index programID (meteora_proto signature slot index programID e)"
  "ms_BaseAmount e \<noteq> 0 \<Longrightarrow> ms_QuoteAmount e \<noteq> 0 \<Longrightarrow> two_sided (meteora_proto signature slot index programID e)"
  by (simp_all add: meteora_proto_def event_header_def two_sided_def zero_SwapEvent_def chainIDSolana_def Let_def)

lemma buildMeteoraSwap_event:
  assumes "buildMeteoraSwap reg signature slot ts index instr accs meta programID kind = Inr (Some ev)"
  shows "event_header slot signature index programID ev \<and> two_sided ev"
  using assms meteora_proto_event Meteora_amounts_nonzero
  by (auto simp: buildMeteoraSwap_def split: sum.splits)

lemma map_sum_Inr_iff: "map_sum f id x = Inr y \<longleftrightarrow> x = Inr y"
  by (cases x) auto

lemma build_swap_event:
  assumes "build_swap reg kinds d signature slot ts index accs meta vaults instr = Inr (Some ev)"
  shows "event_header slot signature index (accs ! unat (ci_ProgramIdIndex instr)) ev
    \<and> se_ProgramId ev \<in> {Raydium_ProgramID, WhirlpoolProgramID} \<union> dom (map_get kinds)
    \<and> (se_ProgramId ev = WhirlpoolProgramID \<or> two_sided ev)"
proof -
  let ?p = "accs ! unat (ci_ProgramIdIndex instr)"
  have "event_header slot signature index ?p ev
    \<and> ?p \<in> {Raydium_ProgramID, WhirlpoolProgramID} \<union> dom (map_get kinds)
    \<and> (?p = WhirlpoolProgramID \<or> two_sided ev)"
    using assms
    by (auto simp: build_swap_def ProgramKindForID_def map_sum_Inr_iff Let_def split: if_splits option.splits
        dest: buildRaydiumSwap_event buildOrcaSwap_event buildMeteoraSwap_event)
  moreover from this have "se_ProgramId ev = ?p" by (simp add: event_header_def)
  ultimately show ?thesis by simp
qed

text \<open>The loop returns the first error, or the events of all instructions in order.\<close>

lemma decode_loop_spec:
  "decode_loop build events instrs =
     (case List.find (\<lambda>i. isl (build i)) instrs of
        Some i \<Rightarrow> Inl (projl (build i))
      | None \<Rightarrow> Inr (events @ List.map_filter (\<lambda>i. projr (build i)) instrs))"
  by (induction build events instrs rule: decode_loop.induct)
    (auto simp: map_filter_simps split: sum.splits option.splits)

lemma decoded_event_facts:
  assumes "DecodeTransaction b58 ord reg kinds d (Some tx) = Inr events" and "ev \<in> set events"
  shows "\<exists>info txMsg. sut_Transaction tx = Some info \<and> sti_Transaction info = Some txMsg
    \<and> event_header (sut_Slot tx) (encodeSignature b58 (ptx_Signatures txMsg)) (sti_Index info) (se_ProgramId ev) ev
    \<and> se_ProgramId ev \<in> {Raydium_ProgramID, WhirlpoolProgramID} \<union> dom (map_get kinds)
    \<and> (se_ProgramId ev = WhirlpoolProgramID \<or> two_sided ev)"
proof -
  obtain info meta txMsg message where parts: "sut_Transaction tx = Some info" "sti_Meta info = Some meta"
      "sti_Transaction info = Some txMsg" "ptx_Message txMsg = Some message"
    using assms by (auto simp: DecodeTransaction_def split: option.splits)
  define build where "build = build_swap reg kinds d (encodeSignature b58 (ptx_Signatures txMsg)) (sut_Slot tx)
    (lookupSlotTimestamp (slotCache d) (sut_Slot tx)) (sti_Index info) (map b58 (msg_AccountKeys message)) meta
    (extractVaultBalances ord meta)"
  have run: "decode_loop build [] (msg_Instructions message) = Inr events"
    using assms(1) parts by (simp add: DecodeTransaction_def build_def Let_def)
  then have "List.find (\<lambda>i. isl (build i)) (msg_Instructions message) = None"
    and "events = List.map_filter (\<lambda>i. projr (build i)) (msg_Instructions message)"
    unfolding decode_loop_spec by (auto split: option.splits)
  then obtain i where "\<not> isl (build i)" "projr (build i) = Some ev"
    using assms(2) by (auto simp: find_None_iff List.map_filter_def)
  then have "build i = Inr (Some ev)" by (metis sum.collapse(2))
  from build_swap_event [OF this [unfolded build_def]] parts show ?thesis
    by (auto simp: event_header_def)
qed

section \<open>Properties\<close>

text \<open>
  (C21) Every event of a decoded transaction carries the chain id of Solana, the slot, the first
  signature and the index of its transaction, is provisional and not an undo, and names a program
  the decoder knows; every event of another program than the Whirlpool program has exactly one
  token going in and the other coming out.
\<close>

theorem DecodeTransaction_events:
  assumes "DecodeTransaction b58 ord reg kinds d (Some tx) = Inr events" and "ev \<in> set events"
  shows "\<exists>info txMsg. sut_Transaction tx = Some info \<and> sti_Transaction info = Some txMsg
    \<and> event_header (sut_Slot tx) (encodeSignature b58 (ptx_Signatures txMsg)) (sti_Index info) (se_ProgramId ev) ev
    \<and> se_ProgramId ev \<in> {Raydium_ProgramID, WhirlpoolProgramID} \<union> dom (map_get kinds)
    \<and> (se_ProgramId ev = WhirlpoolProgramID \<or> two_sided ev)"
  using assms by (rule decoded_event_facts)

text \<open>
  (C22) Which vaults a Raydium swap is decoded with does not depend on the order in which the runtime visits
  the map of balances exactly when the pool owns fewer than two token accounts of the transaction or
  the instruction names at least two of them. In every other case two orders give different results.
\<close>

theorem resolvePool_order_independent_iff:
  fixes accs :: "string list" and meta :: TransactionStatusMeta and instr :: CompiledInstruction
  defines "poolVaults \<equiv> vaults_of (extractVaultBalances id meta)
     (find_pool accs (extractVaultBalances id meta) [] (ci_Accounts instr))"
  shows "(\<forall>ord. visits ord \<longrightarrow>
      resolvePool instr accs (extractVaultBalances ord meta) = resolvePool instr accs (extractVaultBalances id meta))
    \<longleftrightarrow> length poolVaults < 2 \<or> 2 \<le> length (order_vaults poolVaults (ci_Accounts instr))"
proof (intro iffI allI impI)
  let ?pool = "find_pool accs (extractVaultBalances id meta) [] (ci_Accounts instr)"
  assume "\<forall>ord. visits ord \<longrightarrow>
      resolvePool instr accs (extractVaultBalances ord meta) = resolvePool instr accs (extractVaultBalances id meta)"
  then have same: "resolvePool instr accs (extractVaultBalances rev meta) = resolvePool instr accs (extractVaultBalances id meta)"
    using visits_id_rev by blast
  have rev: "vaults_of (extractVaultBalances rev meta) ?pool = rev poolVaults"
    by (simp add: poolVaults_def vaults_of_extract rev_map rev_filter)
  have pool: "find_pool accs (extractVaultBalances rev meta) [] (ci_Accounts instr) = ?pool"
    by (rule find_pool_order [OF visits_id_rev(2,1)])
  have named: "order_vaults (rev poolVaults) (ci_Accounts instr) = order_vaults poolVaults (ci_Accounts instr)"
    using vaults_of_distinct [OF visits_id_rev(1), of meta ?pool] order_vaults_perm [of poolVaults "rev poolVaults"]
    by (simp add: poolVaults_def)
  show "length poolVaults < 2 \<or> 2 \<le> length (order_vaults poolVaults (ci_Accounts instr))"
  proof (rule ccontr)
    assume "\<not> (length poolVaults < 2 \<or> 2 \<le> length (order_vaults poolVaults (ci_Accounts instr)))"
    then have two: "2 \<le> length poolVaults" and few: "length (order_vaults poolVaults (ci_Accounts instr)) < 2" by simp_all
    have "?pool \<noteq> []" using two by (auto simp: poolVaults_def vaults_of_extract)
    then have "rev poolVaults ! 0 = poolVaults ! 0"
      using same few two by (simp add: resolvePool_def rev pool named Let_def flip: poolVaults_def)
    moreover have "distinct poolVaults"
      using vaults_of_distinct [OF visits_id_rev(1), of meta ?pool] by (simp add: poolVaults_def distinct_map)
    moreover obtain x y zs where "poolVaults = x # zs @ [y]"
      using two by (cases poolVaults; cases "tl poolVaults" rule: rev_cases) auto
    ultimately show False by simp
  qed
next
  fix ord
  assume "length poolVaults < 2 \<or> 2 \<le> length (order_vaults poolVaults (ci_Accounts instr))" and "visits ord"
  then show "resolvePool instr accs (extractVaultBalances ord meta) = resolvePool instr accs (extractVaultBalances id meta)"
    using resolvePool_eqI [OF visits_id_rev(1) _ refl, where ?o2.0 = ord and accs = accs and meta = meta and instr = instr]
    by (simp add: poolVaults_def)
qed

definition pool_balance :: "u32 \<Rightarrow> string \<Rightarrow> u64 \<Rightarrow> u8 \<Rightarrow> TokenBalance" where
  "pool_balance ix mint n d = (sample_balance ix mint n d)\<lparr>tb_Owner := ''pool''\<rparr>"

definition sample_meta :: TransactionStatusMeta where
  "sample_meta = \<lparr>tsm_HasErr = False,
     tsm_PreTokenBalances = [pool_balance 1 USDC_mint 500 6,
       pool_balance 2 SOL_mint 10 9],
     tsm_PostTokenBalances = [pool_balance 1 USDC_mint 300 6,
       pool_balance 2 SOL_mint 12 9],
     tsm_LogMessages = [], tsm_ComputeUnitsConsumed = 0\<rparr>"

definition sample_vault_A :: tokenBalance where
  "sample_vault_A = \<lparr>tk_accountIndex = 1, tk_mint = USDC_mint, tk_owner = ''pool'', tk_pre = 500, tk_post = 300,
     tk_decimals = 6\<rparr>"

definition sample_vault_B :: tokenBalance where
  "sample_vault_B = \<lparr>tk_accountIndex = 2, tk_mint = SOL_mint, tk_owner = ''pool'', tk_pre = 10, tk_post = 12,
     tk_decimals = 9\<rparr>"

lemma sample_balance_amount [simp]:
  "parseAmount (tb_UiTokenAmount (pool_balance ix mint n d)) = Inr n"
  "new_balance (pool_balance ix mint n d) =
     \<lparr>tk_accountIndex = ix, tk_mint = mint, tk_owner = ''pool'', tk_pre = 0, tk_post = 0, tk_decimals = d\<rparr>"
  "tb_AccountIndex (pool_balance ix mint n d) = ix"
  by (simp_all add: pool_balance_def sample_balance_def parseAmount_def new_balance_def ui_decimals_of_def
      word_unat_eq_iff unsigned_ucast_eq take_bit_word_eq_self)

lemma sample_account_balances: "account_balances sample_meta = [(1, sample_vault_A), (2, sample_vault_B)]"
  by (simp add: account_balances_def sample_meta_def add_pre_def add_post_def Let_def
      sample_vault_A_def sample_vault_B_def) (simp add: map_set_def)

lemma sample_vaults:
  "vaults_of (extractVaultBalances id sample_meta) ''pool'' = [sample_vault_A, sample_vault_B]"
  "vaults_of (extractVaultBalances rev sample_meta) ''pool'' = [sample_vault_B, sample_vault_A]"
  by (simp_all add: vaults_of_extract sample_account_balances sample_vault_A_def sample_vault_B_def)

lemma sample_find_pool:
  assumes "visits ord"
  shows "find_pool [prog, ''pool''] (extractVaultBalances ord sample_meta) [] (1 # ixs) = ''pool''"
proof -
  have "map_get (extractVaultBalances ord sample_meta) ''pool'' \<noteq> None"
    unfolding extract_owner_iff visits_set [OF assms] sample_account_balances by (simp add: sample_vault_A_def)
  moreover have "find_pool accs vs (c # p) ixs = c # p" for accs vs c p
    by (induction ixs) (simp_all add: Let_def)
  ultimately show ?thesis by (simp add: Let_def)
qed

text \<open>The property at an instruction that names both vaults of its pool, and at one that names only the pool.\<close>

theorem resolvePool_order_independent_iff_witness:
  "resolvePool \<lparr>ci_ProgramIdIndex = 0, ci_Accounts = [1, 2], ci_Data = []\<rparr> [''prog'', ''pool''] (extractVaultBalances rev sample_meta) =
     resolvePool \<lparr>ci_ProgramIdIndex = 0, ci_Accounts = [1, 2], ci_Data = []\<rparr> [''prog'', ''pool''] (extractVaultBalances id sample_meta) \<and>
   (\<exists>ord. visits ord \<and>
     resolvePool \<lparr>ci_ProgramIdIndex = 0, ci_Accounts = [1], ci_Data = []\<rparr> [''prog'', ''pool''] (extractVaultBalances ord sample_meta) \<noteq>
     resolvePool \<lparr>ci_ProgramIdIndex = 0, ci_Accounts = [1], ci_Data = []\<rparr> [''prog'', ''pool''] (extractVaultBalances id sample_meta))"
proof -
  have pool: "find_pool [''prog'', ''pool''] (extractVaultBalances id sample_meta) [] (1 # ixs) = ''pool''" for ixs
    by (rule sample_find_pool [OF visits_id_rev(1)])
  have named: "2 \<le> length (order_vaults [sample_vault_A, sample_vault_B] [1, 2])"
      "\<not> 2 \<le> length (order_vaults [sample_vault_A, sample_vault_B] [1])"
    by (simp_all add: order_vaults_def sample_vault_A_def sample_vault_B_def)
  let ?both = "\<lparr>ci_ProgramIdIndex = 0, ci_Accounts = [1, 2], ci_Data = []\<rparr>"
  let ?none = "\<lparr>ci_ProgramIdIndex = 0, ci_Accounts = [1], ci_Data = []\<rparr>"
  show ?thesis
    using resolvePool_order_independent_iff [of ?both "[''prog'', ''pool'']" sample_meta]
      resolvePool_order_independent_iff [of ?none "[''prog'', ''pool'']" sample_meta] visits_id_rev(2) named
    by (simp add: pool sample_vaults del: find_pool.simps)
qed

text \<open>
  (C5) In every state that a stream of block and account updates can produce, whatever their order,
  a Raydium swap of a pool whose fee configuration has been seen is published with the fee of
  that configuration: the fee caches never go stale when a pool or a config is updated.
\<close>

theorem raydium_fee_current:
  assumes "d = fold (decoder_step b58) us (Decoder_New cache)"
    and "buildRaydiumSwap d signature slot ts index instr accs vaults = Inr (Some ev)"
    and "map_get (poolConfig d) (se_PoolId ev) = Some cfg" and "map_get (configFees d) cfg = Some fee"
  shows "se_FeeBps ev = ucast fee"
proof -
  have "fees_coherent d" unfolding assms(1) by (rule fees_coherent_reachable)
  with assms(3,4) have "map_get (poolFees d) (se_PoolId ev) = Some fee"
    by (simp add: fees_coherent_def)
  with buildRaydiumSwap_event [OF assms(2)] show ?thesis by simp
qed

definition sample_b58 :: "bytes \<Rightarrow> string" where
  "sample_b58 bs = (if bs = [1] then Raydium_ProgramID else if bs = [2] then ''pool'' else ''key'')"

definition sample_updates :: "decoder_update list" where
  "sample_updates =
     [AccountUpdate (Some \<lparr>sua_Slot = 1, sua_Account = Some \<lparr>sai_Pubkey = [2], sai_Owner = [1],
        sai_Data = poolStateDiscriminator @ [0] @ replicate 32 7 @ []\<rparr>\<rparr>),
      AccountUpdate (Some \<lparr>sua_Slot = 2, sua_Account = Some \<lparr>sai_Pubkey = replicate 32 7, sai_Owner = [1],
        sai_Data = amm_config_layout ammConfigDiscriminator (replicate 39 0) 2500 []\<rparr>\<rparr>)]"

definition sample_decoder :: Decoder where
  "sample_decoder = fold (decoder_step sample_b58) sample_updates (Decoder_New None)"

lemma sample_b58_eval:
  "sample_b58 [1] = Raydium_ProgramID" "sample_b58 [2] = ''pool''" "length bs = 32 \<Longrightarrow> sample_b58 bs = ''key''"
  by (auto simp: sample_b58_def)

lemma sample_decoder_fees:
  "map_get (poolConfig sample_decoder) ''pool'' = Some ''key''" "map_get (configFees sample_decoder) ''key'' = Some 25"
proof -
  have d: "sample_decoder = record_config ''key'' 2500 (record_pool sample_b58 ''pool'' (replicate 32 7) (Decoder_New None))"
    unfolding sample_decoder_def sample_updates_def
    by (simp add: HandleAccount_def handleRaydiumAccount_pool handleRaydiumAccount_config sample_b58_eval Let_def
        del: append_Cons append_Nil append_Nil2)
  show "map_get (poolConfig sample_decoder) ''pool'' = Some ''key''" "map_get (configFees sample_decoder) ''key'' = Some 25"
    unfolding d by (simp_all add: record_config_def record_pool_def Decoder_New_def sample_b58_eval Let_def)
qed

definition sample_swap_instr :: CompiledInstruction where
  "sample_swap_instr = \<lparr>ci_ProgramIdIndex = 0, ci_Accounts = [1, 2],
     ci_Data = swap_instruction_bytes sample_instruction\<rparr>"

lemma sample_resolve:
  "resolvePool sample_swap_instr [Raydium_ProgramID, ''pool''] (extractVaultBalances id sample_meta)
     = Some (''pool'', sample_vault_A, sample_vault_B)"
  by (simp add: resolvePool_def sample_swap_instr_def sample_find_pool [OF visits_id_rev(1)] sample_vaults
      order_vaults_def sample_vault_A_def sample_vault_B_def Let_def del: find_pool.simps)

lemma sample_build:
  "\<exists>ev. buildRaydiumSwap d sg slot ts index sample_swap_instr [Raydium_ProgramID, ''pool'']
       (extractVaultBalances id sample_meta) = Inr (Some ev)
     \<and> se_PoolId ev = ''pool'' \<and> se_QuoteIn ev = 2 \<and> se_BaseOut ev = 200"
proof -
  have "\<exists>i. ParseSwapInstruction (swap_instruction_bytes sample_instruction) = Inr i"
    by (simp add: ParseSwapInstruction_def swap_instruction_bytes_def sample_instruction_def)
  then obtain i where "ParseSwapInstruction (swap_instruction_bytes sample_instruction) = Inr i" ..
  moreover have "swap_instruction_bytes sample_instruction \<noteq> []"
    by (simp add: swap_instruction_bytes_def sample_instruction_def)
  moreover have "\<exists>e. ParseSwapEvent (Some i) (Some (raydium_ctx ''pool'' sample_vault_A sample_vault_B slot sg ts)) = Inr e
      \<and> rs_PoolAddress e = ''pool'' \<and> \<not> rs_IsBaseInput e \<and> rs_AmountIn e = 2 \<and> rs_AmountOut e = 200"
    by (simp add: ParseSwapEvent_directions raydium_ctx_def ray_event_base_def sample_vault_A_def sample_vault_B_def
        word_sless_alt Let_def)
  ultimately show ?thesis
    using sample_resolve
    by (auto simp: buildRaydiumSwap_def sample_swap_instr_def convertRaydiumSwap_def zero_SwapEvent_def Let_def)
qed

text \<open>The property after the pool's account and then its fee configuration (25 basis points) arrived.\<close>

theorem raydium_fee_current_witness:
  "\<exists>ev. buildRaydiumSwap sample_decoder ''sig'' 7 0 0 sample_swap_instr [Raydium_ProgramID, ''pool'']
       (extractVaultBalances id sample_meta) = Inr (Some ev) \<and> se_FeeBps ev = 25"
proof -
  obtain ev where ev: "buildRaydiumSwap sample_decoder ''sig'' 7 0 0 sample_swap_instr [Raydium_ProgramID, ''pool'']
       (extractVaultBalances id sample_meta) = Inr (Some ev)" and "se_PoolId ev = ''pool''"
    using sample_build by blast
  then have "se_FeeBps ev = ucast (25 :: u16)"
    using raydium_fee_current [OF sample_decoder_def ev] sample_decoder_fees by auto
  with ev show ?thesis by auto
qed

definition sample_tx :: SubscribeUpdateTransaction where
  "sample_tx = \<lparr>sut_Transaction = Some \<lparr>sti_Signature = [5],
       sti_Transaction = Some \<lparr>ptx_Signatures = [[5]],
         ptx_Message = Some \<lparr>msg_AccountKeys = [[1], [2]], msg_Instructions = [sample_swap_instr]\<rparr>\<rparr>,
       sti_Meta = Some sample_meta, sti_Index = 3\<rparr>, sut_Slot = 7\<rparr>"

lemma sample_tx_decodes:
  "\<exists>ev. DecodeTransaction sample_b58 id reg kinds d (Some sample_tx) = Inr [ev] \<and> se_ProgramId ev = Raydium_ProgramID"
proof -
  let ?sg = "encodeSignature sample_b58 [[5]]" and ?ts = "lookupSlotTimestamp (slotCache d) 7"
  obtain ev where ev: "buildRaydiumSwap d ?sg 7 ?ts 3 sample_swap_instr [Raydium_ProgramID, ''pool'']
       (extractVaultBalances id sample_meta) = Inr (Some ev)"
    using sample_build by blast
  have "ci_ProgramIdIndex sample_swap_instr = 0" by (simp add: sample_swap_instr_def)
  then have "DecodeTransaction sample_b58 id reg kinds d (Some sample_tx) = Inr [ev]"
    using ev by (simp add: DecodeTransaction_def sample_tx_def build_swap_def sample_b58_eval Let_def)
  with buildRaydiumSwap_event [OF ev] show ?thesis by (auto simp: event_header_def)
qed

text \<open>The property at a transaction with one Raydium swap in slot 7.\<close>

theorem DecodeTransaction_events_witness:
  "\<exists>ev. DecodeTransaction sample_b58 id initial_registry programKinds (Decoder_New None) (Some sample_tx) = Inr [ev]
     \<and> two_sided ev \<and> se_Slot ev = 7 \<and> se_ChainId ev = 501"
proof -
  obtain ev where ev: "DecodeTransaction sample_b58 id initial_registry programKinds (Decoder_New None) (Some sample_tx) = Inr [ev]"
    and prog: "se_ProgramId ev = Raydium_ProgramID"
    using sample_tx_decodes by blast
  have "Raydium_ProgramID \<noteq> WhirlpoolProgramID"
    by (simp add: Raydium_ProgramID_def WhirlpoolProgramID_def)
  with DecodeTransaction_events [OF ev, of ev] ev prog show ?thesis
    by (auto simp: event_header_def sample_tx_def)
qed

text \<open>
  (C35) An Orca event comes from the vault balances of its pool; it has one token going in and the
  other coming out exactly when the two vaults moved in opposite directions. When both moved the
  same way, or one did not move, an event is still emitted, with at least one of the two flows
  missing.
\<close>

theorem buildOrcaSwap_flows:
  assumes "buildOrcaSwap d signature slot ts index instr accs vaults = Inr (Some ev)"
  shows "\<exists>info a b. map_get (orcaPools d) (accs ! unat (ci_Accounts instr ! 2)) = Some info
    \<and> orca_vaults info (vaults_of vaults (accs ! unat (ci_Accounts instr ! 2))) (None, None) = (Some a, Some b)
    \<and> (let deltaA = tk_post a - tk_pre a; deltaB = tk_post b - tk_pre b in
        two_sided ev = (0 <s deltaA \<and> deltaB <s 0 \<or> deltaA <s 0 \<and> 0 <s deltaB)
        \<and> se_BaseIn ev = (if 0 <s deltaA then deltaA else 0)
        \<and> se_QuoteIn ev = (if deltaA <s 0 \<and> 0 <s deltaB then deltaB else 0))"
proof -
  obtain info a b ev0 where pool: "map_get (orcaPools d) (accs ! unat (ci_Accounts instr ! 2)) = Some info"
      "orca_vaults info (vaults_of vaults (accs ! unat (ci_Accounts instr ! 2))) (None, None) = (Some a, Some b)"
    and ev: "ev = orca_flows (tk_post a - tk_pre a) (tk_post b - tk_pre b) ev0"
    and ev0: "event_header slot signature index WhirlpoolProgramID ev0"
      "se_BaseIn ev0 = 0" "se_BaseOut ev0 = 0" "se_QuoteIn ev0 = 0" "se_QuoteOut ev0 = 0"
    using buildOrcaSwap_inv [OF assms] by blast
  have "se_BaseIn ev = (if 0 <s tk_post a - tk_pre a then tk_post a - tk_pre a else 0)"
      "se_QuoteIn ev = (if tk_post a - tk_pre a <s 0 \<and> 0 <s tk_post b - tk_pre b then tk_post b - tk_pre b else 0)"
    unfolding ev using ev0 by (auto simp: orca_flows_def Let_def signed_pos_u64 signed_neg_u64)
  with pool ev orca_flows_event(2) [OF ev0] show ?thesis
    by (auto simp: Let_def)
qed

definition sample_orca_decoder :: Decoder where
  "sample_orca_decoder = (Decoder_New None)\<lparr>orcaPools := [(''pool'', \<lparr>op_Config = ''cfg'', op_FeeRate = 3000,
     op_ProtocolFee = 0, op_TokenMintA = USDC_mint, op_TokenMintB = SOL_mint,
     op_TokenVaultA = ''va'', op_TokenVaultB = ''vb''\<rparr>)]\<rparr>"

lemma sample_orca_build:
  "\<exists>ev. buildOrcaSwap sample_orca_decoder ''sig'' 7 0 0 \<lparr>ci_ProgramIdIndex = 0, ci_Accounts = [0, 0, 1], ci_Data = []\<rparr>
      [''prog'', ''pool''] (extractVaultBalances id sample_meta) = Inr (Some ev)"
  by (simp add: buildOrcaSwap_def sample_orca_decoder_def map_get_def sample_vaults Let_def)
    (simp add: sample_vault_A_def sample_vault_B_def)

text \<open>The property at a swap in which 200 units of USDC leave the pool and 2 units of SOL enter it.\<close>

theorem buildOrcaSwap_flows_witness:
  "\<exists>ev. buildOrcaSwap sample_orca_decoder ''sig'' 7 0 0 \<lparr>ci_ProgramIdIndex = 0, ci_Accounts = [0, 0, 1], ci_Data = []\<rparr>
      [''prog'', ''pool''] (extractVaultBalances id sample_meta) = Inr (Some ev) \<and> two_sided ev \<and> se_QuoteIn ev = 2"
proof -
  obtain ev where ev: "buildOrcaSwap sample_orca_decoder ''sig'' 7 0 0 \<lparr>ci_ProgramIdIndex = 0, ci_Accounts = [0, 0, 1], ci_Data = []\<rparr>
      [''prog'', ''pool''] (extractVaultBalances id sample_meta) = Inr (Some ev)"
    using sample_orca_build by blast
  have info: "map_get (orcaPools sample_orca_decoder) ''pool'' = Some \<lparr>op_Config = ''cfg'', op_FeeRate = 3000,
     op_ProtocolFee = 0, op_TokenMintA = USDC_mint, op_TokenMintB = SOL_mint,
     op_TokenVaultA = ''va'', op_TokenVaultB = ''vb''\<rparr>"
    by (simp add: sample_orca_decoder_def map_get_def)
  show ?thesis
    using buildOrcaSwap_flows [OF ev] ev
    by (simp add: info sample_vaults) (simp add: sample_vault_A_def sample_vault_B_def word_sless_alt)
qed

end
