(* ===== verification/Processor.thy ===== *)
theory Processor
  imports SwapDecoder Publisher
begin

text \<open>
  The Geyser processor: \<open>ingestor/geyser/processor.go\<close>. The processor's own state (decoder,
  counters, pending swaps, block heads) is a record; the publisher is a value of the interface
  \<open>SwapPublisher\<close>, and the world it publishes to is passed along. Every method returns the new
  state, the new world and an optional error.
\<close>

section \<open>State\<close>

record processorMetrics =
  raydiumSwaps :: nat
  raydiumErrors :: nat
  orcaSwaps :: nat
  orcaErrors :: nat
  meteoraSwaps :: nat
  meteoraErrors :: nat

definition newProcessorMetrics :: processorMetrics where
  "newProcessorMetrics = \<lparr>raydiumSwaps = 0, raydiumErrors = 0, orcaSwaps = 0, orcaErrors = 0,
     meteoraSwaps = 0, meteoraErrors = 0\<rparr>"

record Processor =
  pr_decoder :: Decoder
  pr_metrics :: processorMetrics
  pr_pending :: "(u64, SwapEvent list) gomap"
  pr_blockHeads :: "(u64, BlockHead) gomap"

definition NewProcessor :: "MemorySlotTimeCache option \<Rightarrow> Processor" where
  "NewProcessor cache = \<lparr>pr_decoder = Decoder_New cache, pr_metrics = newProcessorMetrics,
     pr_pending = [], pr_blockHeads = []\<rparr>"

definition recordSwap :: "program_kinds \<Rightarrow> string \<Rightarrow> processorMetrics \<Rightarrow> processorMetrics" where
  "recordSwap kinds programID m =
     (if programID = Raydium_ProgramID then m\<lparr>raydiumSwaps := raydiumSwaps m + 1\<rparr>
      else if programID = WhirlpoolProgramID then m\<lparr>orcaSwaps := orcaSwaps m + 1\<rparr>
      else if ProgramKindForID kinds programID \<noteq> None then m\<lparr>meteoraSwaps := meteoraSwaps m + 1\<rparr>
      else m)"

definition recordError :: "program_kinds \<Rightarrow> string \<Rightarrow> processorMetrics \<Rightarrow> processorMetrics" where
  "recordError kinds programID m =
     (if programID = Raydium_ProgramID then m\<lparr>raydiumErrors := raydiumErrors m + 1\<rparr>
      else if programID = WhirlpoolProgramID then m\<lparr>orcaErrors := orcaErrors m + 1\<rparr>
      else if ProgramKindForID kinds programID \<noteq> None then m\<lparr>meteoraErrors := meteoraErrors m + 1\<rparr>
      else m)"

datatype 'e process_error =
    DecodeTransactionErr DecodeError
  | PublishTxMetaErr 'e
  | PublishSwapErr 'e
  | PublishFinalizedErr 'e
  | PublishUndoErr 'e
  | PublishHeadErr 'e
  | PublishHeadStatusErr string 'e

type_synonym ('w, 'e) outcome = "(Processor \<times> 'w) \<times> 'e process_error option"

text \<open>What one call of the decoder needs besides its state: the parameters and tables of \<open>SwapDecoder\<close>.
  \<open>env_ord\<close> is the order in which the one loop over a map that the call runs visits its entries; the
  runtime chooses it anew for every call.\<close>

record decode_env =
  env_b58 :: "bytes \<Rightarrow> string"
  env_ord :: visit_order
  env_reg :: pair_registry
  env_kinds :: program_kinds

section \<open>Pending swaps and slot status\<close>

definition pending_of :: "Processor \<Rightarrow> u64 \<Rightarrow> SwapEvent list" where
  "pending_of p slot = (case map_get (pr_pending p) slot of None \<Rightarrow> [] | Some evs \<Rightarrow> evs)"

definition appendPending :: "u64 \<Rightarrow> SwapEvent \<Rightarrow> Processor \<Rightarrow> Processor" where
  "appendPending slot event p = p\<lparr>pr_pending := map_set slot (pending_of p slot @ [event]) (pr_pending p)\<rparr>"

definition settled :: "bool \<Rightarrow> SwapEvent \<Rightarrow> SwapEvent" where
  "settled undo ev = ev\<lparr>se_Provisional := False, se_IsUndo := undo\<rparr>"

text \<open>The loop of \<open>finalizeSlot\<close> and \<open>undoSlot\<close>, which differ in the flag and in the error.\<close>

definition settle_one ::
  "('w, 'e) SwapPublisher \<Rightarrow> program_kinds \<Rightarrow> go_context option \<Rightarrow> bool \<Rightarrow> Processor \<times> 'w \<Rightarrow> SwapEvent \<Rightarrow>
   ('w, 'e) outcome" where
  "settle_one P kinds ctx undo = (\<lambda>(p, w) ev.
     case sp_PublishSwap P ctx (Some (settled undo ev)) w of
       (w', None) \<Rightarrow> ((p, w'), None)
     | (w', Some err) \<Rightarrow>
         ((p\<lparr>pr_metrics := recordError kinds (se_ProgramId ev) (pr_metrics p)\<rparr>, w'),
          Some ((if undo then PublishUndoErr else PublishFinalizedErr) err)))"

definition settleSlot ::
  "('w, 'e) SwapPublisher \<Rightarrow> program_kinds \<Rightarrow> go_context option \<Rightarrow> bool \<Rightarrow> u64 \<Rightarrow> Processor \<times> 'w \<Rightarrow>
   ('w, 'e) outcome" where
  "settleSlot P kinds ctx undo slot pw =
     (let events = pending_of (fst pw) slot in
      if events = [] then (((fst pw)\<lparr>pr_pending := map_del slot (pr_pending (fst pw))\<rparr>, snd pw), None)
      else case first_err (settle_one P kinds ctx undo) pw events of
        ((p, w), Some err) \<Rightarrow> ((p, w), Some err)
      | ((p, w), None) \<Rightarrow> ((p\<lparr>pr_pending := map_del slot (pr_pending p)\<rparr>, w), None))"

definition finalizeSlot ::
  "('w, 'e) SwapPublisher \<Rightarrow> program_kinds \<Rightarrow> go_context option \<Rightarrow> u64 \<Rightarrow> Processor \<times> 'w \<Rightarrow> ('w, 'e) outcome" where
  "finalizeSlot P kinds ctx slot pw = settleSlot P kinds ctx False slot pw"

definition undoSlot ::
  "('w, 'e) SwapPublisher \<Rightarrow> program_kinds \<Rightarrow> go_context option \<Rightarrow> u64 \<Rightarrow> Processor \<times> 'w \<Rightarrow> ('w, 'e) outcome" where
  "undoSlot P kinds ctx slot pw = settleSlot P kinds ctx True slot pw"

definition publishBlockHeadStatus ::
  "('w, 'e) SwapPublisher \<Rightarrow> go_context option \<Rightarrow> u64 \<Rightarrow> string \<Rightarrow> Processor \<times> 'w \<Rightarrow> ('w, 'e) outcome" where
  "publishBlockHeadStatus P ctx slot status = (\<lambda>(p, w).
     case map_get (pr_blockHeads p) slot of
       None \<Rightarrow> ((p, w), None)
     | Some head \<Rightarrow>
         let updated = head\<lparr>bh_Status := status\<rparr> in
         (case sp_PublishBlockHead P ctx (Some updated) w of
            (w', Some err) \<Rightarrow> ((p, w'), Some (PublishHeadStatusErr status err))
          | (w', None) \<Rightarrow>
              let heads = map_set slot updated (pr_blockHeads p)
              in ((p\<lparr>pr_blockHeads := (if status = ''finalized'' \<or> status = ''dead''
                     then map_del slot heads else heads)\<rparr>, w'), None)))"

definition handleSlot ::
  "('w, 'e) SwapPublisher \<Rightarrow> program_kinds \<Rightarrow> go_context option \<Rightarrow> SubscribeUpdateSlot option \<Rightarrow>
   Processor \<times> 'w \<Rightarrow> ('w, 'e) outcome" where
  "handleSlot P kinds ctx update_ptr pw =
     (case update_ptr of None \<Rightarrow> (pw, None) | Some update \<Rightarrow>
      let slot = sus_Slot update in
      case sus_Status update of
        SLOT_FINALIZED \<Rightarrow>
          (case finalizeSlot P kinds ctx slot pw of
             (pw', Some err) \<Rightarrow> (pw', Some err)
           | (pw', None) \<Rightarrow> publishBlockHeadStatus P ctx slot ''finalized'' pw')
      | SLOT_DEAD \<Rightarrow>
          (case undoSlot P kinds ctx slot pw of
             (pw', Some err) \<Rightarrow> (pw', Some err)
           | (pw', None) \<Rightarrow> publishBlockHeadStatus P ctx slot ''dead'' pw')
      | _ \<Rightarrow> (pw, None))"

section \<open>Transactions, blocks and accounts\<close>

definition emit_one ::
  "('w, 'e) SwapPublisher \<Rightarrow> program_kinds \<Rightarrow> go_context option \<Rightarrow> Processor \<times> 'w \<Rightarrow> SwapEvent \<Rightarrow>
   ('w, 'e) outcome" where
  "emit_one P kinds ctx = (\<lambda>(p, w) ev.
     let p1 = p\<lparr>pr_metrics := recordSwap kinds (se_ProgramId ev) (pr_metrics p)\<rparr> in
     case sp_PublishSwap P ctx (Some ev) w of
       (w', Some err) \<Rightarrow>
         ((p1\<lparr>pr_metrics := recordError kinds (se_ProgramId ev) (pr_metrics p1)\<rparr>, w'), Some (PublishSwapErr err))
     | (w', None) \<Rightarrow> ((appendPending (se_Slot ev) ev p1, w'), None))"

definition handleTransaction ::
  "('w, 'e) SwapPublisher \<Rightarrow> decode_env \<Rightarrow> go_context option \<Rightarrow> SubscribeUpdateTransaction option \<Rightarrow>
   Processor \<times> 'w \<Rightarrow> ('w, 'e) outcome" where
  "handleTransaction P E ctx tx_ptr = (\<lambda>(p, w).
     case tx_ptr of None \<Rightarrow> ((p, w), None) | Some tx \<Rightarrow>
     case DecodeTransaction (env_b58 E) (env_ord E) (env_reg E) (env_kinds E) (pr_decoder p) tx_ptr of
       Inl err \<Rightarrow>
         ((p\<lparr>pr_metrics := recordError (env_kinds E) (de_Program err) (pr_metrics p)\<rparr>, w),
          Some (DecodeTransactionErr err))
     | Inr events \<Rightarrow>
         (case (case ConvertTxMeta (env_b58 E) tx_ptr of
                  None \<Rightarrow> (w, None) | Some meta \<Rightarrow> sp_PublishTxMeta P ctx (Some meta) w) of
            (w', Some err) \<Rightarrow> ((p, w'), Some (PublishTxMetaErr err))
          | (w', None) \<Rightarrow> first_err (emit_one P (env_kinds E) ctx) (p, w') events))"

definition handleBlockMeta ::
  "('w, 'e) SwapPublisher \<Rightarrow> go_context option \<Rightarrow> SubscribeUpdateBlockMeta option \<Rightarrow>
   Processor \<times> 'w \<Rightarrow> ('w, 'e) outcome" where
  "handleBlockMeta P ctx meta_ptr = (\<lambda>(p, w).
     let p1 = p\<lparr>pr_decoder := HandleBlockMeta meta_ptr (pr_decoder p)\<rparr> in
     case meta_ptr of None \<Rightarrow> ((p1, w), None) | Some meta \<Rightarrow>
     let head = \<lparr>bh_ChainId = 501, bh_Slot = sbm_Slot meta,
           bh_TsSec = (case sbm_BlockTime meta of Some ts \<Rightarrow> ts | None \<Rightarrow> 0), bh_Status = ''confirmed''\<rparr>;
         p2 = p1\<lparr>pr_blockHeads := map_set (bh_Slot head) head (pr_blockHeads p1)\<rparr>
     in case sp_PublishBlockHead P ctx (Some head) w of
          (w', err) \<Rightarrow> ((p2, w'), map_option PublishHeadErr err))"

definition handleAccount ::
  "decode_env \<Rightarrow> SubscribeUpdateAccount option \<Rightarrow> Processor \<Rightarrow> Processor" where
  "handleAccount E account p = p\<lparr>pr_decoder := HandleAccount (env_b58 E) account (pr_decoder p)\<rparr>"

definition HandleUpdate ::
  "('w, 'e) SwapPublisher \<Rightarrow> decode_env \<Rightarrow> go_context option \<Rightarrow> SubscribeUpdate option \<Rightarrow>
   Processor \<times> 'w \<Rightarrow> ('w, 'e) outcome" where
  "HandleUpdate P E ctx update_ptr pw =
     (case update_ptr of None \<Rightarrow> (pw, None) | Some update \<Rightarrow>
      case update of
        U_Transaction tx \<Rightarrow> handleTransaction P E ctx tx pw
      | U_BlockMeta meta \<Rightarrow> handleBlockMeta P ctx meta pw
      | U_Account account \<Rightarrow> ((handleAccount E account (fst pw), snd pw), None)
      | U_Slot slot \<Rightarrow> handleSlot P (env_kinds E) ctx slot pw
      | _ \<Rightarrow> (pw, None))"

section \<open>The life cycle of swaps\<close>

text \<open>
  The abstract machine the processor implements: the swaps of each slot that are outstanding, and
  the messages sent so far. A swap is emitted as provisional and becomes outstanding; settling a
  slot sends every outstanding swap once more, finalized or undone, and clears the slot; a failed
  settlement sends a prefix and clears nothing.
\<close>

inductive lifecycle :: "(u64 \<Rightarrow> SwapEvent list) \<Rightarrow> dex_message list \<Rightarrow> bool" where
  lc_init: "lifecycle (\<lambda>_. []) []"
| lc_other: "lifecycle out l \<Longrightarrow> (\<And>ev. m \<noteq> MsgSwap ev) \<Longrightarrow> lifecycle out (l @ [m])"
| lc_emit: "lifecycle out l \<Longrightarrow> se_Provisional ev \<Longrightarrow> \<not> se_IsUndo ev \<Longrightarrow>
    lifecycle (out(se_Slot ev := out (se_Slot ev) @ [ev])) (l @ [MsgSwap ev])"
| lc_settle: "lifecycle out l \<Longrightarrow>
    lifecycle (out(slot := [])) (l @ map (MsgSwap \<circ> settled undo) (out slot))"
| lc_partial: "lifecycle out l \<Longrightarrow>
    lifecycle out (l @ map (MsgSwap \<circ> settled undo) (take n (out slot)))"

lemma lifecycle_outstanding:
  "lifecycle out l \<Longrightarrow> ev \<in> set (out slot) \<Longrightarrow>
     MsgSwap ev \<in> set l \<and> se_Slot ev = slot \<and> se_Provisional ev \<and> \<not> se_IsUndo ev"
  by (induction arbitrary: ev slot rule: lifecycle.induct) (fastforce split: if_splits)+

text \<open>Every settled swap in the log comes after its provisional copy.\<close>

definition announced :: "dex_message list \<Rightarrow> bool" where
  "announced l \<longleftrightarrow> (\<forall>l1 ev l2. l = l1 @ MsgSwap ev # l2 \<longrightarrow> \<not> se_Provisional ev \<longrightarrow>
     MsgSwap (ev\<lparr>se_Provisional := True, se_IsUndo := False\<rparr>) \<in> set l1)"

lemma announced_append:
  assumes "announced l"
    and "\<And>ev. MsgSwap ev \<in> set m \<Longrightarrow> \<not> se_Provisional ev \<Longrightarrow>
      MsgSwap (ev\<lparr>se_Provisional := True, se_IsUndo := False\<rparr>) \<in> set l"
  shows "announced (l @ m)"
  unfolding announced_def
proof (intro allI impI)
  fix l1 ev l2
  assume split: "l @ m = l1 @ MsgSwap ev # l2" and final: "\<not> se_Provisional ev"
  from split consider l2' where "l = l1 @ MsgSwap ev # l2'" | m1 where "l1 = l @ m1" "m = m1 @ MsgSwap ev # l2"
    by (auto simp: append_eq_append_conv2 append_eq_Cons_conv Cons_eq_append_conv)
  then show "MsgSwap (ev\<lparr>se_Provisional := True, se_IsUndo := False\<rparr>) \<in> set l1"
  proof cases
    case 1
    then show ?thesis using assms(1) final by (auto simp: announced_def)
  next
    case 2
    then show ?thesis using assms(2) [of ev] final by auto
  qed
qed

lemma settled_restore:
  "se_Provisional ev \<Longrightarrow> \<not> se_IsUndo ev \<Longrightarrow>
     (settled undo ev)\<lparr>se_Provisional := True, se_IsUndo := False\<rparr> = ev"
  by (simp add: settled_def)

lemma announced_settled:
  assumes "lifecycle out l" and "announced l" and "set evs \<subseteq> set (out slot)"
  shows "announced (l @ map (MsgSwap \<circ> settled undo) evs)"
proof (rule announced_append [OF assms(2)])
  fix ev assume "MsgSwap ev \<in> set (map (MsgSwap \<circ> settled undo) evs)"
  then obtain ev0 where ev0: "ev0 \<in> set (out slot)" "ev = settled undo ev0"
    using assms(3) by auto
  with lifecycle_outstanding [OF assms(1) ev0(1)] settled_restore [of ev0 undo]
  show "MsgSwap (ev\<lparr>se_Provisional := True, se_IsUndo := False\<rparr>) \<in> set l" by simp
qed

lemma lifecycle_announced: "lifecycle out l \<Longrightarrow> announced l"
proof (induction rule: lifecycle.induct)
  case lc_init
  then show ?case by (simp add: announced_def)
next
  case (lc_other out l m)
  then show ?case by (intro announced_append) auto
next
  case (lc_emit out l ev)
  then show ?case by (intro announced_append) auto
next
  case (lc_settle out l slot undo)
  then show ?case by (intro announced_settled) auto
next
  case (lc_partial out l undo n slot)
  then show ?case by (intro announced_settled [where slot = slot]) (auto dest: in_set_takeD)
qed

section \<open>The processor implements the life cycle\<close>

lemma pending_of_simps [simp]:
  "pending_of (p\<lparr>pr_metrics := x\<rparr>) = pending_of p"
  "pending_of (p\<lparr>pr_decoder := d\<rparr>) = pending_of p"
  "pending_of (p\<lparr>pr_blockHeads := h\<rparr>) = pending_of p"
  "pending_of (p\<lparr>pr_pending := map_del slot (pr_pending p)\<rparr>) = (pending_of p)(slot := [])"
  "pending_of (appendPending slot ev p) = (pending_of p)(slot := pending_of p slot @ [ev])"
  by (auto simp: pending_of_def appendPending_def)

lemma pending_of_cong: "pr_pending p' = pr_pending p \<Longrightarrow> pending_of p' = pending_of p"
  by (simp add: pending_of_def fun_eq_iff)

context swap_publisher
begin

lemma settle_loop:
  assumes "first_err (settle_one P kinds ctx undo) (p, w) evs = ((p', w'), r)"
  shows "pr_pending p' = pr_pending p \<and> pr_blockHeads p' = pr_blockHeads p \<and> pr_decoder p' = pr_decoder p
    \<and> (case r of
         None \<Rightarrow> p' = p \<and> sent w' = sent w @ map (MsgSwap \<circ> settled undo) evs
       | Some e \<Rightarrow> \<exists>n < length evs. sent w' = sent w @ map (MsgSwap \<circ> settled undo) (take n evs))"
  using assms
proof (induction evs arbitrary: w)
  case (Cons ev evs)
  obtain w1 r1 where pub: "sp_PublishSwap P ctx (Some (settled undo ev)) w = (w1, r1)" by fastforce
  show ?case
  proof (cases r1)
    case None
    then have "first_err (settle_one P kinds ctx undo) (p, w1) evs = ((p', w'), r)"
      using Cons.prems pub by (simp add: settle_one_def)
    from Cons.IH [OF this] swap_ok [OF pub [unfolded None]] show ?thesis
      by (auto split: option.splits)
  next
    case (Some e)
    then show ?thesis
      using Cons.prems pub swap_err [OF pub [unfolded Some]]
      by (auto simp: settle_one_def intro!: exI [of _ 0])
  qed
qed simp

lemma settleSlot_spec:
  assumes "settleSlot P kinds ctx undo slot (p, w) = ((p', w'), r)"
  shows "pr_blockHeads p' = pr_blockHeads p \<and>
    (case r of
       None \<Rightarrow> sent w' = sent w @ map (MsgSwap \<circ> settled undo) (pending_of p slot)
         \<and> pr_pending p' = map_del slot (pr_pending p)
     | Some e \<Rightarrow> (\<exists>n < length (pending_of p slot).
           sent w' = sent w @ map (MsgSwap \<circ> settled undo) (take n (pending_of p slot)))
         \<and> pr_pending p' = pr_pending p)"
proof (cases "pending_of p slot = []")
  case True
  then show ?thesis using assms by (auto simp: settleSlot_def Let_def)
next
  case False
  obtain p1 w1 r1 where loop: "first_err (settle_one P kinds ctx undo) (p, w) (pending_of p slot) = ((p1, w1), r1)"
    by (metis prod.exhaust)
  from settle_loop [OF loop] False assms loop show ?thesis
    by (auto simp: settleSlot_def Let_def split: option.splits)
qed

lemma head_status_spec:
  assumes "publishBlockHeadStatus P ctx slot status (p, w) = ((p', w'), r)"
  shows "pr_pending p' = pr_pending p
    \<and> (case map_get (pr_blockHeads p) slot of
         None \<Rightarrow> p' = p \<and> w' = w \<and> r = None
       | Some h \<Rightarrow> (case r of
           None \<Rightarrow> sent w' = sent w @ [MsgBlockHead (h\<lparr>bh_Status := status\<rparr>)]
         | Some e \<Rightarrow> sent w' = sent w \<and> p' = p))"
proof (cases "map_get (pr_blockHeads p) slot")
  case (Some h)
  obtain w1 r1 where pub: "sp_PublishBlockHead P ctx (Some (h\<lparr>bh_Status := status\<rparr>)) w = (w1, r1)" by fastforce
  show ?thesis
  proof (cases r1)
    case None
    show ?thesis using assms Some pub None head_ok [OF pub [unfolded None]]
      by (auto simp: publishBlockHeadStatus_def Let_def)
  next
    case (Some e)
    show ?thesis using assms \<open>map_get (pr_blockHeads p) slot = Some h\<close> pub Some head_err [OF pub [unfolded Some]]
      by (auto simp: publishBlockHeadStatus_def Let_def)
  qed
qed (use assms in \<open>simp add: publishBlockHeadStatus_def\<close>)

lemma settleSlot_lifecycle:
  assumes "settleSlot P kinds ctx undo slot (p, w) = ((p', w'), r)" and "lifecycle (pending_of p) (sent w)"
  shows "lifecycle (pending_of p') (sent w')"
proof (cases r)
  case None
  with settleSlot_spec [OF assms(1)] have "sent w' = sent w @ map (MsgSwap \<circ> settled undo) (pending_of p slot)"
    and "pending_of p' = (pending_of p)(slot := [])"
    by (auto simp: pending_of_def fun_eq_iff)
  then show ?thesis using lc_settle [OF assms(2), of slot undo] by simp
next
  case (Some e)
  with settleSlot_spec [OF assms(1)] obtain n where "sent w' = sent w @ map (MsgSwap \<circ> settled undo) (take n (pending_of p slot))"
    and "pending_of p' = pending_of p"
    by (auto dest: pending_of_cong)
  then show ?thesis using lc_partial [OF assms(2), of undo n slot] by simp
qed

lemma head_status_lifecycle:
  assumes "publishBlockHeadStatus P ctx slot status (p, w) = ((p', w'), r)" and "lifecycle (pending_of p) (sent w)"
  shows "lifecycle (pending_of p') (sent w')"
proof -
  have "pending_of p' = pending_of p" using head_status_spec [OF assms(1)] pending_of_cong by blast
  moreover have "sent w' = sent w \<or> (\<exists>h. sent w' = sent w @ [MsgBlockHead h])"
    using head_status_spec [OF assms(1)] by (auto split: option.splits)
  ultimately show ?thesis using assms(2) lc_other by fastforce
qed

lemma emit_loop:
  assumes "first_err (emit_one P kinds ctx) (p, w) evs = ((p', w'), r)"
    and "\<forall>ev \<in> set evs. se_Provisional ev \<and> \<not> se_IsUndo ev" and "lifecycle (pending_of p) (sent w)"
  shows "lifecycle (pending_of p') (sent w')"
  using assms
proof (induction evs arbitrary: p w)
  case (Cons ev evs)
  let ?p1 = "p\<lparr>pr_metrics := recordSwap kinds (se_ProgramId ev) (pr_metrics p)\<rparr>"
  obtain w1 r1 where pub: "sp_PublishSwap P ctx (Some ev) w = (w1, r1)" by fastforce
  show ?case
  proof (cases r1)
    case None
    then have rest: "first_err (emit_one P kinds ctx) (appendPending (se_Slot ev) ev ?p1, w1) evs = ((p', w'), r)"
      using Cons.prems(1) pub by (simp add: emit_one_def Let_def)
    have "lifecycle (pending_of (appendPending (se_Slot ev) ev ?p1)) (sent w1)"
      using lc_emit [OF Cons.prems(3), of ev] Cons.prems(2) swap_ok [OF pub [unfolded None]] by simp
    from Cons.IH [OF rest _ this] Cons.prems(2) show ?thesis by simp
  next
    case (Some e)
    then show ?thesis
      using Cons.prems pub swap_err [OF pub [unfolded Some]] by (auto simp: emit_one_def Let_def)
  qed
qed auto

lemma handleSlot_lifecycle:
  assumes "handleSlot P kinds ctx u (p, w) = ((p', w'), r)" and "lifecycle (pending_of p) (sent w)"
  shows "lifecycle (pending_of p') (sent w')"
proof -
  have step: "lifecycle (pending_of p') (sent w')"
    if "(case settleSlot P kinds ctx undo slot (p, w) of (pw', Some err) \<Rightarrow> (pw', Some err)
        | (pw', None) \<Rightarrow> publishBlockHeadStatus P ctx slot status pw') = ((p', w'), r)" for undo slot status
  proof -
    obtain p1 w1 r1 where settle: "settleSlot P kinds ctx undo slot (p, w) = ((p1, w1), r1)" by (metis prod.exhaust)
    note mid = settleSlot_lifecycle [OF settle assms(2)]
    show ?thesis
      using that settle mid head_status_lifecycle [OF _ mid] by (cases r1) auto
  qed
  show ?thesis
    using assms step [where undo = False] step [where undo = True]
    by (auto simp: handleSlot_def finalizeSlot_def undoSlot_def Let_def split: option.splits SlotStatus.splits)
qed

lemma decoded_provisional:
  "DecodeTransaction b58 ord reg kinds d (Some tx) = Inr evs \<Longrightarrow> \<forall>ev \<in> set evs. se_Provisional ev \<and> \<not> se_IsUndo ev"
  using decoded_event_facts by (fastforce simp: event_header_def)

lemma handleTransaction_lifecycle:
  assumes "handleTransaction P E ctx tx_ptr (p, w) = ((p', w'), r)" and "lifecycle (pending_of p) (sent w)"
  shows "lifecycle (pending_of p') (sent w')"
proof (cases tx_ptr)
  case None
  then show ?thesis using assms by (simp add: handleTransaction_def)
next
  case (Some tx)
  show ?thesis
  proof (cases "DecodeTransaction (env_b58 E) (env_ord E) (env_reg E) (env_kinds E) (pr_decoder p) tx_ptr")
    case (Inl err)
    then show ?thesis using assms Some by (auto simp: handleTransaction_def)
  next
    case (Inr events)
    define pub where "pub = (case ConvertTxMeta (env_b58 E) tx_ptr of
      None \<Rightarrow> (w, None) | Some meta \<Rightarrow> sp_PublishTxMeta P ctx (Some meta) w)"
    obtain w1 r1 where w1: "pub = (w1, r1)" by fastforce
    have "sent w1 = sent w \<or> (\<exists>m. sent w1 = sent w @ [MsgTxMeta m])"
      using w1 tx_ok tx_err unfolding pub_def by (cases r1) (fastforce split: option.splits)+
    then have mid: "lifecycle (pending_of p) (sent w1)"
      using assms(2) lc_other by fastforce
    have "(case pub of (w', Some err) \<Rightarrow> ((p, w'), Some (PublishTxMetaErr err))
        | (w', None) \<Rightarrow> first_err (emit_one P (env_kinds E) ctx) (p, w') events) = ((p', w'), r)"
      using assms(1) Some Inr by (simp add: handleTransaction_def pub_def)
    then show ?thesis
      using w1 mid emit_loop [OF _ decoded_provisional mid] Inr Some by (cases r1) auto
  qed
qed

lemma handleBlockMeta_lifecycle:
  assumes "handleBlockMeta P ctx m (p, w) = ((p', w'), r)" and "lifecycle (pending_of p) (sent w)"
  shows "lifecycle (pending_of p') (sent w')"
proof -
  have "pending_of p' = pending_of p"
    using assms(1) by (auto simp: handleBlockMeta_def Let_def split: option.splits prod.splits)
  moreover have "sent w' = sent w \<or> (\<exists>h. sent w' = sent w @ [MsgBlockHead h])"
    using assms(1) head_ok head_err
    by (cases r) (fastforce simp: handleBlockMeta_def Let_def split: option.splits prod.splits)+
  ultimately show ?thesis using assms(2) lc_other by fastforce
qed

lemma HandleUpdate_lifecycle:
  assumes "lifecycle (pending_of p) (sent w)"
  shows "lifecycle (pending_of (fst (fst (HandleUpdate P E ctx u (p, w))))) (sent (snd (fst (HandleUpdate P E ctx u (p, w)))))"
proof -
  obtain p' w' r where run: "HandleUpdate P E ctx u (p, w) = ((p', w'), r)" by (metis prod.exhaust)
  have "lifecycle (pending_of p') (sent w')"
    using run assms handleTransaction_lifecycle handleBlockMeta_lifecycle handleSlot_lifecycle
    by (auto simp: HandleUpdate_def handleAccount_def split: option.splits SubscribeUpdate.splits)
  then show ?thesis using run by simp
qed

end

section \<open>Runs of the processor\<close>

text \<open>The stream of updates a client hands to the processor, each with the visiting order of its call;
  errors are reported and the stream goes on.\<close>

definition process ::
  "('w, 'e) SwapPublisher \<Rightarrow> decode_env \<Rightarrow> (visit_order \<times> SubscribeUpdate option) list \<Rightarrow> Processor \<times> 'w \<Rightarrow> Processor \<times> 'w" where
  "process P E updates pw = fold (\<lambda>(ord, u) pw. fst (HandleUpdate P (E\<lparr>env_ord := ord\<rparr>) None u pw)) updates pw"

context swap_publisher
begin

lemma process_lifecycle:
  "lifecycle (pending_of (fst pw)) (sent (snd pw)) \<Longrightarrow>
     lifecycle (pending_of (fst (process P E us pw))) (sent (snd (process P E us pw)))"
proof (induction us arbitrary: pw)
  case (Cons u us)
  obtain ord up where u: "u = (ord, up)" by fastforce
  let ?out = "fst (HandleUpdate P (E\<lparr>env_ord := ord\<rparr>) None up pw)"
  have "lifecycle (pending_of (fst ?out)) (sent (snd ?out))"
    using HandleUpdate_lifecycle [of "fst pw" "snd pw"] Cons.prems by simp
  from Cons.IH [OF this] show ?case by (simp add: process_def u)
qed (simp add: process_def)

end

lemma natsx_lifecycle:
  "lifecycle (pending_of (fst (process (natsx_Publisher marshal js cfg) E us (NewProcessor cache, []))))
     (natsx_sent cfg (snd (process (natsx_Publisher marshal js cfg) E us (NewProcessor cache, []))))"
proof (rule np.process_lifecycle)
  have "pending_of (NewProcessor cache) = (\<lambda>_. [])" by (simp add: NewProcessor_def pending_of_def fun_eq_iff)
  then show "lifecycle (pending_of (fst (NewProcessor cache, []))) (natsx_sent cfg (snd (NewProcessor cache, [])))"
    by (simp add: natsx_sent_def lc_init)
qed

section \<open>Properties\<close>

text \<open>
  (C1) Whatever the stream of updates, the encoder, the server's answers and the failures on the way:
  every swap that the processor gets accepted as final or as an undo was accepted before as the
  provisional swap with the same content; and what the processor keeps pending of a slot are
  swaps of that slot which were accepted as provisional.
\<close>

theorem settled_after_provisional:
  assumes "process (natsx_Publisher marshal js cfg) E us (NewProcessor cache, []) = (p, w)"
  shows "(natsx_sent cfg w = l1 @ MsgSwap ev # l2 \<and> \<not> se_Provisional ev \<longrightarrow>
      MsgSwap (ev\<lparr>se_Provisional := True, se_IsUndo := False\<rparr>) \<in> set l1)
    \<and> (ev' \<in> set (pending_of p slot) \<longrightarrow>
      MsgSwap ev' \<in> set (natsx_sent cfg w) \<and> se_Slot ev' = slot \<and> se_Provisional ev' \<and> \<not> se_IsUndo ev')"
proof -
  have life: "lifecycle (pending_of p) (natsx_sent cfg w)"
    using natsx_lifecycle [of marshal js cfg E us cache] assms by simp
  show ?thesis
    using lifecycle_announced [OF life] lifecycle_outstanding [OF life] unfolding announced_def by blast
qed

definition accepting :: "(world, publish_error) SwapPublisher" where
  "accepting = natsx_Publisher (\<lambda>_. Some []) (\<lambda>_ _ _ _. JsAck None) Nats_DefaultConfig"

lemma accepting_publishes:
  "\<exists>w'. sp_PublishSwap accepting ctx (Some ev) w = (w', None) \<and> natsx_sent Nats_DefaultConfig w' = natsx_sent Nats_DefaultConfig w @ [MsgSwap ev]"
  "\<exists>w'. sp_PublishTxMeta accepting ctx (Some m) w = (w', None) \<and> natsx_sent Nats_DefaultConfig w' = natsx_sent Nats_DefaultConfig w @ [MsgTxMeta m]"
  by (simp_all add: accepting_def natsx_Publisher_def PublishSwap_def PublishTxMeta_def publish_def reply_error_def
      natsx_sent_def Let_def)

definition sample_decode_env :: decode_env where
  "sample_decode_env = \<lparr>env_b58 = sample_b58, env_ord = id, env_reg = initial_registry, env_kinds = programKinds\<rparr>"

lemma sample_decode_env_id: "sample_decode_env\<lparr>env_ord := id\<rparr> = sample_decode_env"
  by (simp add: sample_decode_env_def)

definition sample_stream :: "(visit_order \<times> SubscribeUpdate option) list" where
  "sample_stream = [(id, Some (U_Transaction (Some sample_tx))), (rev, Some (U_Slot (Some \<lparr>sus_Slot = 7, sus_Status = SLOT_FINALIZED\<rparr>)))]"

lemma sample_tx_handled:
  "\<exists>p w ev m. HandleUpdate accepting sample_decode_env None (Some (U_Transaction (Some sample_tx))) (NewProcessor None, []) = ((p, w), None)
     \<and> pending_of p 7 = [ev] \<and> pr_blockHeads p = [] \<and> natsx_sent Nats_DefaultConfig w = [MsgTxMeta m, MsgSwap ev]
     \<and> se_Provisional ev \<and> \<not> se_IsUndo ev"
proof -
  obtain ev where dec: "DecodeTransaction sample_b58 id initial_registry programKinds (Decoder_New None) (Some sample_tx) = Inr [ev]"
    using sample_tx_decodes by blast
  have ev: "se_Slot ev = 7" "se_Provisional ev" "\<not> se_IsUndo ev"
    using decoded_event_facts [OF dec, of ev] by (auto simp: event_header_def sample_tx_def)
  obtain m where m: "ConvertTxMeta sample_b58 (Some sample_tx) = Some m"
    by (simp add: ConvertTxMeta_def sample_tx_def)
  obtain w1 where w1: "sp_PublishTxMeta accepting None (Some m) [] = (w1, None)"
      "natsx_sent Nats_DefaultConfig w1 = [MsgTxMeta m]"
    using accepting_publishes(2) [of None m "[]"] by (auto simp: natsx_sent_def)
  obtain w2 where w2: "sp_PublishSwap accepting None (Some ev) w1 = (w2, None)"
      "natsx_sent Nats_DefaultConfig w2 = [MsgTxMeta m, MsgSwap ev]"
    using accepting_publishes(1) [of None ev w1] w1(2) by auto
  show ?thesis
    using dec m w1(1) w2 ev
    by (simp add: HandleUpdate_def handleTransaction_def sample_decode_env_def NewProcessor_def emit_one_def Let_def)
      (simp add: pending_of_def appendPending_def)
qed

text \<open>The sample swap is pending in slot 7; finalizing the slot publishes its final copy.\<close>

lemma sample_tx_finalized:
  assumes "pending_of p 7 = [ev]" and "pr_blockHeads p = []"
  shows "\<exists>w'. handleSlot accepting kinds None (Some \<lparr>sus_Slot = 7, sus_Status = SLOT_FINALIZED\<rparr>) (p, w)
      = ((p\<lparr>pr_pending := map_del 7 (pr_pending p)\<rparr>, w'), None)
    \<and> natsx_sent Nats_DefaultConfig w' = natsx_sent Nats_DefaultConfig w @ [MsgSwap (settled False ev)]"
proof -
  obtain w' where "sp_PublishSwap accepting None (Some (settled False ev)) w = (w', None)"
      "natsx_sent Nats_DefaultConfig w' = natsx_sent Nats_DefaultConfig w @ [MsgSwap (settled False ev)]"
    using accepting_publishes(1) by blast
  with assms show ?thesis
    by (simp add: handleSlot_def finalizeSlot_def settleSlot_def settle_one_def publishBlockHeadStatus_def Let_def)
qed

lemma sample_stream_processed:
  "\<exists>p w ev m. process accepting sample_decode_env sample_stream (NewProcessor None, []) = (p, w)
     \<and> natsx_sent Nats_DefaultConfig w = [MsgTxMeta m, MsgSwap ev] @ MsgSwap (settled False ev) # []"
proof -
  obtain p w ev m where tx: "HandleUpdate accepting sample_decode_env None (Some (U_Transaction (Some sample_tx))) (NewProcessor None, []) = ((p, w), None)"
      "pending_of p 7 = [ev]" "pr_blockHeads p = []" "natsx_sent Nats_DefaultConfig w = [MsgTxMeta m, MsgSwap ev]"
    using sample_tx_handled by blast
  with sample_tx_finalized [OF tx(2,3), of "env_kinds sample_decode_env" w] show ?thesis
    by (auto simp: process_def sample_stream_def sample_decode_env_id HandleUpdate_def [of _ _ _ "Some (U_Slot _)"])
qed

text \<open>The property at a transaction with one swap followed by the finalization of its slot.\<close>

theorem settled_after_provisional_witness:
  "\<exists>p w ev l1 l2. process accepting sample_decode_env sample_stream (NewProcessor None, []) = (p, w)
     \<and> natsx_sent Nats_DefaultConfig w = l1 @ MsgSwap ev # l2 \<and> \<not> se_Provisional ev
     \<and> MsgSwap (ev\<lparr>se_Provisional := True, se_IsUndo := False\<rparr>) \<in> set l1"
proof -
  obtain p w ev m where run: "process accepting sample_decode_env sample_stream (NewProcessor None, []) = (p, w)"
    and sent: "natsx_sent Nats_DefaultConfig w = [MsgTxMeta m, MsgSwap ev] @ MsgSwap (settled False ev) # []"
    using sample_stream_processed by blast
  have "\<not> se_Provisional (settled False ev)" by (simp add: settled_def)
  with settled_after_provisional [OF run [unfolded accepting_def]] run sent show ?thesis by blast
qed

text \<open>
  (C17) Finalizing a slot sends one final copy of each pending swap of the slot, in order, then clears
  the slot and touches no other slot; when a publication fails, a proper prefix has been sent, the
  error is returned and everything stays pending, so that a retry sends all of them. Undoing a slot
  does the same with undo copies.
\<close>

theorem finalize_all_or_retry:
  assumes "settleSlot (natsx_Publisher marshal js cfg) kinds ctx undo slot (p, w) = ((p', w'), r)"
  shows "case r of
      None \<Rightarrow> natsx_sent cfg w' = natsx_sent cfg w @ map (\<lambda>ev. MsgSwap (settled undo ev)) (pending_of p slot)
        \<and> pending_of p' = (pending_of p)(slot := [])
    | Some e \<Rightarrow> (\<exists>n < length (pending_of p slot). natsx_sent cfg w' =
          natsx_sent cfg w @ map (\<lambda>ev. MsgSwap (settled undo ev)) (take n (pending_of p slot)))
        \<and> pending_of p' = pending_of p"
proof -
  have pend: "pending_of p' = (pending_of p)(slot := [])" if "pr_pending p' = map_del slot (pr_pending p)"
    using that by (simp add: pending_of_def fun_eq_iff)
  show ?thesis
    using np.settleSlot_spec [OF assms] pending_of_cong [of p' p] pend
    by (auto simp: comp_def split: option.splits)
qed

text \<open>The property at a processor with one pending swap in slot 7, on a server that refuses everything.\<close>

theorem finalize_all_or_retry_witness:
  "\<exists>p' w' e. settleSlot (natsx_Publisher (\<lambda>_. Some []) (\<lambda>_ _ _ _. JsErr) Nats_DefaultConfig) programKinds None False 7
       (appendPending 7 zero_SwapEvent (NewProcessor None), []) = ((p', w'), Some e)
     \<and> pending_of p' 7 = [zero_SwapEvent] \<and> natsx_sent Nats_DefaultConfig w' = []"
proof -
  let ?p = "appendPending 7 zero_SwapEvent (NewProcessor None)"
  let ?P = "natsx_Publisher (\<lambda>_. Some []) (\<lambda>_ _ _ _. JsErr) Nats_DefaultConfig"
  have pend: "pending_of ?p 7 = [zero_SwapEvent]"
    by (simp add: NewProcessor_def) (simp add: pending_of_def)
  obtain p' w' e where run: "settleSlot ?P programKinds None False 7 (?p, []) = ((p', w'), Some e)"
    using pend by (simp add: settleSlot_def settle_one_def natsx_Publisher_def PublishSwap_def publish_def reply_error_def Let_def)
  with finalize_all_or_retry [OF run] pend show ?thesis by (auto simp: natsx_sent_def)
qed

text \<open>
  (C18) A slot is settled once: after a status that ends the slot (finalized or dead) was handled without
  error, any further status of the same slot publishes nothing, reports no error and changes nothing
  in the processor.
\<close>

theorem slot_settled_once:
  assumes "handleSlot (natsx_Publisher marshal js cfg) kinds ctx (Some \<lparr>sus_Slot = slot, sus_Status = st\<rparr>) (p, w) = ((p', w'), None)"
    and "st \<in> {SLOT_FINALIZED, SLOT_DEAD}"
  shows "handleSlot (natsx_Publisher marshal js cfg) kinds ctx' (Some \<lparr>sus_Slot = slot, sus_Status = st'\<rparr>) (p', w') = ((p', w'), None)"
proof -
  let ?P = "natsx_Publisher marshal js cfg"
  define undo where "undo = (st = SLOT_DEAD)"
  define status where "status = (if undo then ''dead'' else ''finalized'')"
  obtain p1 w1 where settle: "settleSlot ?P kinds ctx undo slot (p, w) = ((p1, w1), None)"
    and head: "publishBlockHeadStatus ?P ctx slot status (p1, w1) = ((p', w'), None)"
    using assms(1,2) by (auto simp: handleSlot_def finalizeSlot_def undoSlot_def undo_def status_def
        split: prod.splits option.splits if_splits)
  have "pr_pending p1 = map_del slot (pr_pending p)" using np.settleSlot_spec [OF settle] by simp
  moreover have "pr_pending p' = pr_pending p1" using np.head_status_spec [OF head] by simp
  ultimately have gone: "map_get (pr_pending p') slot = None" by simp
  then have "p'\<lparr>pr_pending := map_del slot (pr_pending p')\<rparr> = p'" and "pending_of p' slot = []"
    by (simp_all add: map_del_absent pending_of_def)
  moreover have "map_get (pr_blockHeads p') slot = None"
    using head by (auto simp: publishBlockHeadStatus_def status_def Let_def split: option.splits prod.splits if_splits)
  ultimately show ?thesis
    by (simp add: handleSlot_def finalizeSlot_def undoSlot_def settleSlot_def publishBlockHeadStatus_def Let_def
        split: SlotStatus.split)
qed

text \<open>The property at a processor with one pending swap in slot 7: finalizing the slot publishes its final
  copy, a later report that the slot died changes nothing.\<close>

theorem slot_settled_once_witness:
  "\<exists>p w ev p' w'. pending_of p 7 = [ev] \<and>
     handleSlot accepting programKinds None (Some \<lparr>sus_Slot = 7, sus_Status = SLOT_FINALIZED\<rparr>) (p, w) = ((p', w'), None) \<and>
     natsx_sent Nats_DefaultConfig w' = natsx_sent Nats_DefaultConfig w @ [MsgSwap (settled False ev)] \<and>
     handleSlot accepting programKinds None (Some \<lparr>sus_Slot = 7, sus_Status = SLOT_DEAD\<rparr>) (p', w') = ((p', w'), None)"
proof -
  obtain p ev and w :: world where p: "pending_of p 7 = [ev]" "pr_blockHeads p = []"
    using sample_tx_handled by blast
  obtain p' w' where first: "handleSlot accepting programKinds None (Some \<lparr>sus_Slot = 7, sus_Status = SLOT_FINALIZED\<rparr>) (p, w) = ((p', w'), None)"
    and sent: "natsx_sent Nats_DefaultConfig w' = natsx_sent Nats_DefaultConfig w @ [MsgSwap (settled False ev)]"
    using sample_tx_finalized [OF p, of programKinds w] by blast
  have "handleSlot accepting programKinds None (Some \<lparr>sus_Slot = 7, sus_Status = SLOT_DEAD\<rparr>) (p', w') = ((p', w'), None)"
    using slot_settled_once [OF first [unfolded accepting_def], of None SLOT_DEAD] by (simp add: accepting_def)
  with p(1) first sent show ?thesis by blast
qed

end
