(* ===== verification/Geyser.thy ===== *)
theory Geyser
  imports Processor
begin

text \<open>
  The stream clients and the services that drive them: \<open>ingestor/geyser/config.go\<close>, \<open>client.go\<close>,
  \<open>service.go\<close>, \<open>failover_service.go\<close>, and the Helius client that implements the same interface
  (\<open>ingestor/helius/config.go\<close>, \<open>stream_client.go\<close>). The gRPC stream is a script of what the
  server and the context do; the goroutine of \<open>Subscribe\<close> produces a trace of requests and of the
  values it sends on its two channels.
\<close>

section \<open>Configuration\<close>

record GeyserConfig =
  gc_Endpoint :: string
  gc_APIKey :: string
  gc_ProgramFilters :: "(string, string) gomap"

datatype geyser_config_error =
    ReadPrograms | ParsePrograms
  | EndpointRequired | APIKeyRequired | NoProgramFilter | EmptyProgramID string | BadProgramIDLength string string

definition loadProgramFilters ::
  "(string \<Rightarrow> string option) \<Rightarrow> (string \<Rightarrow> (string, string) gomap option) \<Rightarrow> string \<Rightarrow>
   geyser_config_error + (string, string) gomap" where
  "loadProgramFilters readFile unmarshal path =
     (case readFile path of None \<Rightarrow> Inl ReadPrograms | Some data \<Rightarrow>
      case unmarshal data of None \<Rightarrow> Inl ParsePrograms | Some programs \<Rightarrow> Inr programs)"

definition Geyser_LoadConfig ::
  "(string \<Rightarrow> string option) \<Rightarrow> (string \<Rightarrow> (string, string) gomap option) \<Rightarrow> environ \<Rightarrow> string \<Rightarrow>
   geyser_config_error + GeyserConfig" where
  "Geyser_LoadConfig readFile unmarshal env path =
     (let cfg = \<lparr>gc_Endpoint = env ''GEYSER_ENDPOINT'', gc_APIKey = env ''GEYSER_API_KEY'', gc_ProgramFilters = []\<rparr>
      in if path = [] then Inr cfg
         else case loadProgramFilters readFile unmarshal path of
           Inl err \<Rightarrow> Inl err
         | Inr filters \<Rightarrow> Inr (cfg\<lparr>gc_ProgramFilters := filters\<rparr>))"

definition program_errors :: "string \<times> string \<Rightarrow> geyser_config_error list" where
  "program_errors entry =
     (case entry of (name, programID) \<Rightarrow>
        (if programID = [] then [EmptyProgramID name] else []) @
        (if length programID < 32 \<or> length programID > 44 then [BadProgramIDLength name programID] else []))"

text \<open>All problems are collected; the empty list is success. The filters are visited in the order
  of the argument.\<close>

definition Geyser_Validate :: "((string, string) gomap \<Rightarrow> (string, string) gomap) \<Rightarrow> GeyserConfig \<Rightarrow> geyser_config_error list" where
  "Geyser_Validate ord c =
     (if gc_Endpoint c = [] then [EndpointRequired] else []) @
     (if gc_APIKey c = [] then [APIKeyRequired] else []) @
     (if gc_ProgramFilters c = [] then [NoProgramFilter] else []) @
     concat (map program_errors (ord (gc_ProgramFilters c)))"

definition masked_key :: "string \<Rightarrow> string" where
  "masked_key key =
     (if length key > 8 then take 4 key @ ''****'' @ drop (length key - 4) key
      else if key \<noteq> [] then ''****'' else [])"

fun join_comma :: "string list \<Rightarrow> string" where
  "join_comma [] = []"
| "join_comma [x] = x"
| "join_comma (x # y # zs) = x @ '', '' @ join_comma (y # zs)"

definition Geyser_String :: "((string, string) gomap \<Rightarrow> (string, string) gomap) \<Rightarrow> GeyserConfig \<Rightarrow> string" where
  "Geyser_String ord c =
     ''Config{Endpoint='' @ gc_Endpoint c @ '', APIKey='' @ masked_key (gc_APIKey c) @ '', Programs=['' @
     join_comma (map (\<lambda>(name, i). name @ ''='' @ i) (ord (gc_ProgramFilters c))) @ '']}''"

record HeliusConfig =
  hc_GRPCEndpoint :: string
  hc_WSEndpoint :: string
  hc_APIKey :: string
  hc_RequestTimeout :: duration
  hc_ReconnectBackoff :: duration
  hc_ReplaySlots :: u64
  hc_ProgramFilters :: "(string, string) gomap"

definition Helius_DefaultConfig :: HeliusConfig where
  "Helius_DefaultConfig = \<lparr>hc_GRPCEndpoint = [], hc_WSEndpoint = [], hc_APIKey = [],
     hc_RequestTimeout = 10 * time_Second, hc_ReconnectBackoff = 5 * time_Second, hc_ReplaySlots = 64,
     hc_ProgramFilters = []\<rparr>"

datatype helius_config_error =
    HeliusConfigNil | MissingFields "string list" | InvalidRequestTimeout | InvalidReconnectBackoff
  | ReplaySlotsZero | InvalidHeliusEnv string parse_error | NoHeliusFilters

definition Helius_Validate :: "HeliusConfig option \<Rightarrow> helius_config_error option" where
  "Helius_Validate cfg =
     (case cfg of None \<Rightarrow> Some HeliusConfigNil | Some c \<Rightarrow>
      let missing = (if hc_GRPCEndpoint c = [] then [''GRPCEndpoint''] else []) @
            (if hc_WSEndpoint c = [] then [''WSEndpoint''] else []) @
            (if hc_APIKey c = [] then [''APIKey''] else [])
      in if missing \<noteq> [] then Some (MissingFields missing)
         else if hc_RequestTimeout c \<le>s 0 then Some InvalidRequestTimeout
         else if hc_ReconnectBackoff c \<le>s 0 then Some InvalidReconnectBackoff
         else if hc_ReplaySlots c = 0 then Some ReplaySlotsZero
         else None)"

text \<open>A variable that is a number but not positive is ignored.\<close>

definition helius_env_int ::
  "environ \<Rightarrow> string \<Rightarrow> (int \<Rightarrow> HeliusConfig \<Rightarrow> HeliusConfig) \<Rightarrow> helius_config_error + HeliusConfig \<Rightarrow>
   helius_config_error + HeliusConfig" where
  "helius_env_int env name upd r =
     (case r of Inl err \<Rightarrow> Inl err | Inr cfg \<Rightarrow>
      if env name = [] then Inr cfg
      else case strconv_Atoi (env name) of
        Inl err \<Rightarrow> Inl (InvalidHeliusEnv name err)
      | Inr n \<Rightarrow> Inr (if n > 0 then upd n cfg else cfg))"

definition Helius_FromEnv :: "environ \<Rightarrow> helius_config_error + HeliusConfig" where
  "Helius_FromEnv env =
     (let cfg = Helius_DefaultConfig\<lparr>hc_GRPCEndpoint := env ''HELIUS_GRPC'', hc_WSEndpoint := env ''HELIUS_WS'',
            hc_APIKey := env ''HELIUS_API_KEY''\<rparr>;
          r1 = helius_env_int env ''HELIUS_TIMEOUT_MS''
                 (\<lambda>ms c. c\<lparr>hc_RequestTimeout := word_of_int ms * time_Millisecond\<rparr>) (Inr cfg);
          r2 = helius_env_int env ''HELIUS_BACKOFF_MS''
                 (\<lambda>ms c. c\<lparr>hc_ReconnectBackoff := word_of_int ms * time_Millisecond\<rparr>) r1;
          r3 = helius_env_int env ''HELIUS_REPLAY_SLOTS'' (\<lambda>n c. c\<lparr>hc_ReplaySlots := word_of_int n\<rparr>) r2
      in case r3 of Inl err \<Rightarrow> Inl err | Inr c \<Rightarrow>
         case Helius_Validate (Some c) of Some err \<Rightarrow> Inl err | None \<Rightarrow> Inr c)"

section \<open>Subscription requests\<close>

record account_filter =
  af_Account :: "string list"
  af_Owner :: "string list"

datatype commitment = CONFIRMED

record SubscribeRequest =
  rq_Slots :: "string list"
  rq_Accounts :: "(string, account_filter) gomap"
  rq_Transactions :: "(string, string list) gomap"
  rq_BlocksMeta :: "string list"
  rq_Commitment :: commitment
  rq_FromSlot :: u64

definition account_filters :: "(string, string) gomap \<Rightarrow> (string, account_filter) gomap" where
  "account_filters programs =
     fold (\<lambda>(name, programID). map_set name \<lparr>af_Account = [], af_Owner = [programID]\<rparr>) programs []"

definition Geyser_buildSubscribeRequest :: "GeyserConfig \<Rightarrow> u64 \<Rightarrow> SubscribeRequest" where
  "Geyser_buildSubscribeRequest cfg startSlot =
     \<lparr>rq_Slots = [''client''], rq_Accounts = account_filters (gc_ProgramFilters cfg), rq_Transactions = [],
      rq_BlocksMeta = [''client''], rq_Commitment = CONFIRMED, rq_FromSlot = startSlot\<rparr>"

definition Helius_buildSubscribeRequest :: "HeliusConfig \<Rightarrow> u64 \<Rightarrow> SubscribeRequest" where
  "Helius_buildSubscribeRequest cfg startSlot =
     \<lparr>rq_Slots = [''client''], rq_Accounts = account_filters (hc_ProgramFilters cfg),
      rq_Transactions = [(''programs'', map snd (hc_ProgramFilters cfg))],
      rq_BlocksMeta = [''client''], rq_Commitment = CONFIRMED, rq_FromSlot = startSlot\<rparr>"

section \<open>The subscription loop\<close>

text \<open>The slot of an update. The Geyser client reads the field of the inner message directly, which
  panics when that is \<open>nil\<close> (\<open>None\<close>); the Helius client uses the getters, which give zero.\<close>

definition extractSlotFromUpdate :: "SubscribeUpdate \<Rightarrow> u64 option" where
  "extractSlotFromUpdate update =
     (case update of
        U_Slot s \<Rightarrow> map_option sus_Slot s
      | U_Account a \<Rightarrow> map_option sua_Slot a
      | U_Transaction t \<Rightarrow> map_option sut_Slot t
      | U_Block b \<Rightarrow> b
      | U_BlockMeta m \<Rightarrow> map_option sbm_Slot m
      | U_Other \<Rightarrow> Some 0)"

definition extractSlot :: "SubscribeUpdate \<Rightarrow> u64" where
  "extractSlot update = (case extractSlotFromUpdate update of None \<Rightarrow> 0 | Some slot \<Rightarrow> slot)"

text \<open>What \<open>Recv\<close> and the context do, one step of the inner loop each: an update that is forwarded,
  one during whose forwarding the context ends, the end of the stream, an error, or the context
  found ended before receiving.\<close>

datatype recv =
    Recv SubscribeUpdate | RecvCancelled SubscribeUpdate | RecvEOF | RecvErr | CtxEnded

datatype client_error = SubscribeFailedErr | SendFailedErr | RecvFailedErr

datatype client_event =
    SentRequest SubscribeRequest | SentUpdate SubscribeUpdate | SentErr client_error | ChannelsClosed | Panicked

datatype stream_end = StillReceiving | StreamEnded u64 | StreamCancelled | StreamPanic

fun processStream :: "(SubscribeUpdate \<Rightarrow> u64 option) \<Rightarrow> u64 \<Rightarrow> recv list \<Rightarrow> client_event list \<times> stream_end" where
  "processStream slot_of lastSlot [] = ([], StillReceiving)"
| "processStream slot_of lastSlot (r # rs) =
     (case r of
        CtxEnded \<Rightarrow> ([], StreamCancelled)
      | RecvEOF \<Rightarrow> ([], StreamEnded lastSlot)
      | RecvErr \<Rightarrow> ([SentErr RecvFailedErr], StreamEnded lastSlot)
      | RecvCancelled u \<Rightarrow> (case slot_of u of None \<Rightarrow> ([Panicked], StreamPanic) | Some _ \<Rightarrow> ([], StreamCancelled))
      | Recv u \<Rightarrow>
          (case slot_of u of
             None \<Rightarrow> ([Panicked], StreamPanic)
           | Some slot \<Rightarrow>
               (case processStream slot_of (if slot > lastSlot then slot else lastSlot) rs of
                  (evs, e) \<Rightarrow> (SentUpdate u # evs, e))))"

text \<open>A round of the outer loop: the context is found ended, subscribing or sending the request
  fails (followed by the backoff), or a stream is received from. A context that ends in a backoff
  is found ended in the next round.\<close>

datatype sub_round = RoundCancelled | SubscribeFails | SendFails | Session "recv list"

definition replay_slot :: "u64 \<Rightarrow> u64 \<Rightarrow> u64" where
  "replay_slot window currentSlot = (if currentSlot > window then currentSlot - window else currentSlot)"

fun subscribeLoop ::
  "(u64 \<Rightarrow> SubscribeRequest) \<Rightarrow> u64 \<Rightarrow> (SubscribeUpdate \<Rightarrow> u64 option) \<Rightarrow> u64 \<Rightarrow> sub_round list \<Rightarrow> client_event list" where
  "subscribeLoop build window slot_of currentSlot [] = []"
| "subscribeLoop build window slot_of currentSlot (r # rounds) =
     (let req = build (replay_slot window currentSlot) in
      case r of
        RoundCancelled \<Rightarrow> [ChannelsClosed]
      | SubscribeFails \<Rightarrow> SentErr SubscribeFailedErr # subscribeLoop build window slot_of currentSlot rounds
      | SendFails \<Rightarrow> SentErr SendFailedErr # subscribeLoop build window slot_of currentSlot rounds
      | Session recvs \<Rightarrow>
          (case processStream slot_of 0 recvs of
             (evs, StillReceiving) \<Rightarrow> SentRequest req # evs
           | (evs, StreamPanic) \<Rightarrow> SentRequest req # evs
           | (evs, StreamCancelled) \<Rightarrow> SentRequest req # evs @ [ChannelsClosed]
           | (evs, StreamEnded lastSlot) \<Rightarrow>
               SentRequest req # evs @
               subscribeLoop build window slot_of (if lastSlot > currentSlot then lastSlot else currentSlot) rounds))"

definition ReplaySlotWindow :: u64 where "ReplaySlotWindow = 64"

text \<open>A client is its configuration and whether its context was cancelled by \<open>Close\<close>, which
  nothing undoes.\<close>

record stream_client =
  sc_name :: string
  sc_build :: "u64 \<Rightarrow> SubscribeRequest"
  sc_window :: u64
  sc_slot_of :: "SubscribeUpdate \<Rightarrow> u64 option"
  sc_cancelled :: bool

definition Geyser_NewClient :: "((string, string) gomap \<Rightarrow> (string, string) gomap) \<Rightarrow> GeyserConfig \<Rightarrow> geyser_config_error list + stream_client" where
  "Geyser_NewClient ord cfg =
     (if Geyser_Validate ord cfg \<noteq> [] then Inl (Geyser_Validate ord cfg)
      else Inr \<lparr>sc_name = ''geyser'', sc_build = Geyser_buildSubscribeRequest cfg, sc_window = ReplaySlotWindow,
        sc_slot_of = extractSlotFromUpdate, sc_cancelled = False\<rparr>)"

definition NewStreamClient :: "HeliusConfig option \<Rightarrow> helius_config_error + stream_client" where
  "NewStreamClient cfg_ptr =
     (case Helius_Validate cfg_ptr of Some err \<Rightarrow> Inl err | None \<Rightarrow>
      let cfg = the cfg_ptr in
      if hc_ProgramFilters cfg = [] then Inl NoHeliusFilters
      else Inr \<lparr>sc_name = ''helius'', sc_build = Helius_buildSubscribeRequest cfg, sc_window = hc_ReplaySlots cfg,
        sc_slot_of = (\<lambda>u. Some (extractSlot u)), sc_cancelled = False\<rparr>)"

definition Client_Subscribe :: "stream_client \<Rightarrow> u64 \<Rightarrow> sub_round list \<Rightarrow> client_event list" where
  "Client_Subscribe c startSlot rounds =
     subscribeLoop (sc_build c) (sc_window c) (sc_slot_of c) startSlot
       (if sc_cancelled c then RoundCancelled # rounds else rounds)"

text \<open>The two implementations of \<open>Subscribe\<close>: the loops of the Geyser and of the Helius client, which
  differ in the request, the window and the slot of an update. (The Helius loop sleeps through its
  backoff and finds the context ended afterwards.)\<close>

definition Helius_processStream :: "u64 \<Rightarrow> recv list \<Rightarrow> client_event list \<times> stream_end" where
  "Helius_processStream lastSlot rs = processStream (\<lambda>u. Some (extractSlot u)) lastSlot rs"

definition Helius_subscribeLoop :: "HeliusConfig \<Rightarrow> u64 \<Rightarrow> sub_round list \<Rightarrow> client_event list" where
  "Helius_subscribeLoop cfg startSlot rounds =
     subscribeLoop (Helius_buildSubscribeRequest cfg) (hc_ReplaySlots cfg) (\<lambda>u. Some (extractSlot u)) startSlot rounds"

lemma Helius_Subscribe:
  "NewStreamClient (Some cfg) = Inr c \<Longrightarrow> Client_Subscribe c startSlot rounds = Helius_subscribeLoop cfg startSlot rounds"
  by (auto simp: NewStreamClient_def Client_Subscribe_def Helius_subscribeLoop_def Let_def split: option.splits if_splits)

text \<open>No update makes the Helius client panic, whatever its inner message.\<close>

lemma Helius_never_panics: "Panicked \<notin> set (fst (Helius_processStream lastSlot rs))"
  unfolding Helius_processStream_def
  by (induction rs arbitrary: lastSlot) (auto simp: case_prod_unfold split: recv.splits)

definition Client_Close :: "stream_client \<Rightarrow> stream_client" where
  "Client_Close c = c\<lparr>sc_cancelled := True\<rparr>"

section \<open>service.go and failover_service.go\<close>

text \<open>One case of the \<open>select\<close> of the consumer: the context ends, a value from the error channel
  (\<open>None\<close> when it is closed), or a value from the update channel (\<open>None\<close> when it is closed).\<close>

datatype select = SelCtx | SelErr "client_error option" | SelUpdate "SubscribeUpdate option"

datatype 'e run_end =
    RunCtx | RunClientErr client_error | RunStreamClosed | RunHandleErr 'e | RunConnectErr bool

text \<open>Without an end the consumer is still waiting.\<close>

fun consume ::
  "(SubscribeUpdate \<Rightarrow> 'p \<Rightarrow> 'p \<times> 'e option) \<Rightarrow> 'p \<Rightarrow> select list \<Rightarrow> 'p \<times> 'e run_end option" where
  "consume handle p [] = (p, None)"
| "consume handle p (s # ss) =
     (case s of
        SelCtx \<Rightarrow> (p, Some RunCtx)
      | SelErr None \<Rightarrow> consume handle p ss
      | SelErr (Some err) \<Rightarrow> (p, Some (RunClientErr err))
      | SelUpdate None \<Rightarrow> (p, Some RunStreamClosed)
      | SelUpdate (Some u) \<Rightarrow>
          (case handle u p of (p', Some err) \<Rightarrow> (p', Some (RunHandleErr err)) | (p', None) \<Rightarrow> consume handle p' ss))"

text \<open>What the consumer can see of a trace: updates and errors in the order they were sent, and a
  closed channel only after the trace has closed it and its values were taken.\<close>

fun selected_updates :: "select list \<Rightarrow> SubscribeUpdate list" where
  "selected_updates [] = []"
| "selected_updates (SelUpdate (Some u) # ss) = u # selected_updates ss"
| "selected_updates (_ # ss) = selected_updates ss"

fun selected_errors :: "select list \<Rightarrow> client_error list" where
  "selected_errors [] = []"
| "selected_errors (SelErr (Some e) # ss) = e # selected_errors ss"
| "selected_errors (_ # ss) = selected_errors ss"

fun sent_updates :: "client_event list \<Rightarrow> SubscribeUpdate list" where
  "sent_updates [] = []"
| "sent_updates (SentUpdate u # evs) = u # sent_updates evs"
| "sent_updates (_ # evs) = sent_updates evs"

fun sent_errors :: "client_event list \<Rightarrow> client_error list" where
  "sent_errors [] = []"
| "sent_errors (SentErr e # evs) = e # sent_errors evs"
| "sent_errors (_ # evs) = sent_errors evs"

definition view_ok :: "client_event list \<Rightarrow> select list \<Rightarrow> bool" where
  "view_ok trace ss \<longleftrightarrow>
     selected_updates ss = take (length (selected_updates ss)) (sent_updates trace) \<and>
     selected_errors ss = take (length (selected_errors ss)) (sent_errors trace) \<and>
     (SelUpdate None \<in> set ss \<longrightarrow> ChannelsClosed \<in> set trace \<and> selected_updates ss = sent_updates trace) \<and>
     (SelErr None \<in> set ss \<longrightarrow> ChannelsClosed \<in> set trace \<and> selected_errors ss = sent_errors trace)"

text \<open>The environment of one attempt to run a client: what \<open>Connect\<close> does (the flag of an error says
  whether it wraps \<open>context.Canceled\<close>), what the server does, and what the consumer selects.\<close>

datatype connect_result = Connected | ConnectFails bool

record attempt_env =
  ae_connect :: connect_result
  ae_rounds :: "sub_round list"
  ae_selects :: "select list"

text \<open>\<open>runClient\<close>: connect, subscribe, consume, and close on return. The client is closed whenever
  connecting succeeded and the call returned.\<close>

definition runClient ::
  "(SubscribeUpdate \<Rightarrow> 'p \<Rightarrow> 'p \<times> 'e option) \<Rightarrow> stream_client \<Rightarrow> attempt_env \<Rightarrow> 'p \<Rightarrow>
   (stream_client \<times> 'p) \<times> 'e run_end option" where
  "runClient handle c a p =
     (case ae_connect a of
        ConnectFails cancelled \<Rightarrow> ((c, p), Some (RunConnectErr cancelled))
      | Connected \<Rightarrow>
          (case consume handle p (ae_selects a) of
             (p', None) \<Rightarrow> ((c, p'), None)
           | (p', Some e) \<Rightarrow> ((Client_Close c, p'), Some e)))"

text \<open>The single-client service: a closed stream ends the run without an error.\<close>

definition Service_Run ::
  "(SubscribeUpdate \<Rightarrow> 'p \<Rightarrow> 'p \<times> 'e option) \<Rightarrow> stream_client \<Rightarrow> attempt_env \<Rightarrow> 'p \<Rightarrow>
   (stream_client \<times> 'p) \<times> 'e run_end option option" where
  "Service_Run handle c a p =
     (case runClient handle c a p of
        ((c', p'), None) \<Rightarrow> ((c', p'), None)
      | ((c', p'), Some RunStreamClosed) \<Rightarrow> ((c', p'), Some None)
      | ((c', p'), Some e) \<Rightarrow> ((c', p'), Some (Some e)))"

record failoverMetrics =
  fm_activeSource :: nat
  fm_failures :: "(string, nat) gomap"

definition setActive :: "string \<Rightarrow> failoverMetrics \<Rightarrow> failoverMetrics" where
  "setActive source m =
     m\<lparr>fm_activeSource := (if source = [] then 0 else if source = ''geyser'' then 1 else 2)\<rparr>"

definition recordFailure :: "string \<Rightarrow> failoverMetrics \<Rightarrow> failoverMetrics" where
  "recordFailure source m =
     m\<lparr>fm_failures := map_set source (case map_get (fm_failures m) source of None \<Rightarrow> 1 | Some n \<Rightarrow> n + 1) (fm_failures m)\<rparr>"

record 'p failover =
  fo_clients :: "stream_client list"
  fo_current :: nat
  fo_metrics :: failoverMetrics
  fo_proc :: 'p
  fo_sleeps :: "duration list"

definition NewFailover :: "stream_client \<Rightarrow> stream_client option \<Rightarrow> 'p \<Rightarrow> 'p failover" where
  "NewFailover primary fallback p =
     \<lparr>fo_clients = primary # (case fallback of None \<Rightarrow> [] | Some c \<Rightarrow> [c]), fo_current = 0,
      fo_metrics = \<lparr>fm_activeSource = 0, fm_failures = []\<rparr>, fo_proc = p, fo_sleeps = []\<rparr>"

text \<open>One pass of the failover loop. The second component is \<open>True\<close> when the loop
  goes on; \<open>is_canceled\<close> says which errors of the processor are a cancelled context.\<close>

definition canceled :: "('e \<Rightarrow> bool) \<Rightarrow> 'e run_end \<Rightarrow> bool" where
  "canceled is_canceled e = (case e of RunCtx \<Rightarrow> True | RunConnectErr cancelled \<Rightarrow> cancelled
      | RunHandleErr err \<Rightarrow> is_canceled err | _ \<Rightarrow> False)"

definition failover_step ::
  "(SubscribeUpdate \<Rightarrow> 'p \<Rightarrow> 'p \<times> 'e option) \<Rightarrow> ('e \<Rightarrow> bool) \<Rightarrow> attempt_env \<Rightarrow> 'p failover \<Rightarrow> 'p failover \<times> bool" where
  "failover_step handle is_canceled a s =
     (let client = fo_clients s ! fo_current s;
          m1 = setActive (sc_name client) (fo_metrics s)
      in case runClient handle client a (fo_proc s) of
           ((c', p'), None) \<Rightarrow> (s\<lparr>fo_clients := (fo_clients s)[fo_current s := c'], fo_metrics := m1, fo_proc := p'\<rparr>, False)
         | ((c', p'), Some e) \<Rightarrow>
             if canceled is_canceled e
             then (s\<lparr>fo_clients := (fo_clients s)[fo_current s := c'], fo_metrics := m1, fo_proc := p'\<rparr>, False)
             else let s1 = s\<lparr>fo_clients := (fo_clients s)[fo_current s := c'],
                   fo_metrics := recordFailure (sc_name client) m1, fo_proc := p'\<rparr>
             in if length (fo_clients s1) = 1
                then (s1\<lparr>fo_sleeps := fo_sleeps s1 @ [5 * time_Second]\<rparr>, True)
                else let current = (fo_current s1 + 1) mod length (fo_clients s1)
                     in (s1\<lparr>fo_current := current,
                          fo_sleeps := fo_sleeps s1 @ [if current = 0 then 5 * time_Second else 3 * time_Second]\<rparr>, True))"

fun failover_run ::
  "(SubscribeUpdate \<Rightarrow> 'p \<Rightarrow> 'p \<times> 'e option) \<Rightarrow> ('e \<Rightarrow> bool) \<Rightarrow> 'p failover \<Rightarrow> attempt_env list \<Rightarrow> 'p failover" where
  "failover_run handle is_canceled s [] = s"
| "failover_run handle is_canceled s (a # as) =
     (case failover_step handle is_canceled a s of (s', goes_on) \<Rightarrow> if goes_on then failover_run handle is_canceled s' as else s')"

section \<open>Reconnecting leaves no gap\<close>

text \<open>The highest slot seen: the start slot or the largest slot of the updates.\<close>

definition slot_value :: "(SubscribeUpdate \<Rightarrow> u64 option) \<Rightarrow> SubscribeUpdate \<Rightarrow> u64" where
  "slot_value slot_of u = (case slot_of u of None \<Rightarrow> 0 | Some slot \<Rightarrow> slot)"

definition highest :: "(SubscribeUpdate \<Rightarrow> u64 option) \<Rightarrow> u64 \<Rightarrow> SubscribeUpdate list \<Rightarrow> u64" where
  "highest slot_of start us = fold (\<lambda>u m. max m (slot_value slot_of u)) us start"

lemma highest_append: "highest slot_of start (us @ vs) = highest slot_of (highest slot_of start us) vs"
  by (simp add: highest_def)

lemma highest_max: "highest slot_of (max a b) us = max a (highest slot_of b us)"
  by (induction us arbitrary: b) (simp_all add: highest_def max.assoc)

lemma sent_updates_append [simp]: "sent_updates (xs @ ys) = sent_updates xs @ sent_updates ys"
  by (induction xs rule: sent_updates.induct) auto

lemma if_greater_max: "(if b < (a :: u64) then a else b) = max b a"
  by (auto simp: max_def not_less intro: order_antisym)

lemma split_at_mark:
  assumes "xs @ ys = us @ x # vs" and "x \<notin> set xs"
  obtains ws where "us = xs @ ws" and "ys = ws @ x # vs"
proof -
  from assms(1) consider ws where "us = xs @ ws" "ys = ws @ x # vs" | ws where "xs = us @ ws" "ws @ ys = x # vs"
    by (auto simp: append_eq_append_conv2)
  then show thesis
  proof cases
    case (2 ws)
    then show ?thesis
      using assms(2) that by (cases ws) auto
  qed (use that in blast)
qed

lemma processStream_spec:
  assumes "processStream slot_of lastSlot rs = (evs, e)"
  shows "SentRequest req \<notin> set evs"
    and "e = StreamEnded l \<Longrightarrow> l = highest slot_of lastSlot (sent_updates evs)"
  using assms
proof (induction rs arbitrary: lastSlot evs)
  case (Cons r rs)
  { case 1
    then show ?case
      using Cons.IH(1) by (auto split: recv.splits option.splits prod.splits)
  next
    case 2
    show ?case
    proof (cases "\<exists>u slot. r = Recv u \<and> slot_of u = Some slot")
      case True
      then obtain u slot where u: "r = Recv u" "slot_of u = Some slot" by blast
      obtain evs' e' where rec: "processStream slot_of (max lastSlot slot) rs = (evs', e')" by fastforce
      have "evs = SentUpdate u # evs'" "e = e'"
        using 2(2) u rec by (auto simp: if_greater_max)
      with 2(1) Cons.IH(2) [of "max lastSlot slot" evs'] rec show ?thesis
        by (simp add: highest_def slot_value_def u)
    next
      case False
      then show ?thesis
        using 2 by (auto simp: highest_def split: recv.splits option.splits)
    qed
  }
qed (simp_all add: highest_def)

lemma subscribeLoop_request:
  "subscribeLoop build window slot_of cur rounds = pre @ SentRequest req # post \<Longrightarrow>
   req = build (replay_slot window (highest slot_of cur (sent_updates pre)))"
proof (induction rounds arbitrary: cur pre)
  case (Cons r rounds)
  show ?case
  proof (cases r)
    case (Session recvs)
    obtain evs e where ps: "processStream slot_of 0 recvs = (evs, e)" by fastforce
    define rest where "rest = (case e of StreamEnded l \<Rightarrow> subscribeLoop build window slot_of (max cur l) rounds
        | StreamCancelled \<Rightarrow> [ChannelsClosed] | _ \<Rightarrow> [])"
    have trace: "SentRequest (build (replay_slot window cur)) # evs @ rest = pre @ SentRequest req # post"
      using Cons.prems by (cases e) (auto simp: Session ps rest_def Let_def if_greater_max)
    show ?thesis
    proof (cases pre)
      case Nil
      then show ?thesis using trace by (simp add: highest_def)
    next
      case (Cons x pre')
      then have tail: "evs @ rest = pre' @ SentRequest req # post" and x: "x = SentRequest (build (replay_slot window cur))"
        using trace by auto
      obtain pre'' where pre': "pre' = evs @ pre''" and rest: "rest = pre'' @ SentRequest req # post"
        using split_at_mark [OF tail processStream_spec(1) [OF ps]] .
      from rest obtain l where "e = StreamEnded l"
        by (cases e) (auto simp: rest_def append_eq_Cons_conv Cons_eq_append_conv)
      then have l: "l = highest slot_of 0 (sent_updates evs)" and
        loop: "subscribeLoop build window slot_of (max cur l) rounds = pre'' @ SentRequest req # post"
        using processStream_spec(2) [OF ps] rest by (auto simp: rest_def)
      have "max cur l = highest slot_of cur (sent_updates evs)"
        using highest_max [of slot_of cur 0] l by (simp add: max_absorb1)
      then show ?thesis
        using Cons.IH [OF loop] by (simp add: Cons pre' x highest_append)
    qed
  qed (use Cons in \<open>auto simp: append_eq_Cons_conv Cons_eq_append_conv\<close>)
qed simp


lemma replay_slot_bounds:
  "replay_slot window cur \<le> cur"
  "unat cur \<le> unat (replay_slot window cur) + unat window"
  by (auto simp: replay_slot_def not_less word_le_nat_alt unat_sub_if' word_less_nat_alt)

definition built_client :: "stream_client \<Rightarrow> bool" where
  "built_client c \<longleftrightarrow>
     (\<exists>ord cfg. Geyser_NewClient ord cfg = Inr c) \<or> (\<exists>cfg. NewStreamClient (Some cfg) = Inr c)"

lemma built_client_from: "built_client c \<Longrightarrow> rq_FromSlot (sc_build c slot) = slot"
  by (auto simp: built_client_def Geyser_NewClient_def NewStreamClient_def Geyser_buildSubscribeRequest_def
      Helius_buildSubscribeRequest_def Let_def split: if_splits option.splits)

text \<open>(C8) Reconnecting leaves no gap, for the Geyser and for the Helius client: whenever either of them
  sends a subscription request, the first one or one after any number of failures and reconnects, the
  requested slot is not above the highest slot seen so far (the start slot or the slot of an update
  handed to the consumer), is at most the replay window below it, and is exactly the window below it
  once that is larger than the window.\<close>

theorem subscribe_no_gap:
  assumes "Geyser_NewClient ord cfg = Inr c \<or> NewStreamClient (Some hcfg) = Inr c"
    and "Client_Subscribe c startSlot rounds = pre @ SentRequest req # post"
  shows "let seen = highest (sc_slot_of c) startSlot (sent_updates pre) in
     rq_FromSlot req \<le> seen \<and> unat seen \<le> unat (rq_FromSlot req) + unat (sc_window c) \<and>
     (sc_window c < seen \<longrightarrow> rq_FromSlot req = seen - sc_window c)"
proof -
  have "built_client c" using assms(1) by (auto simp: built_client_def)
  then have "rq_FromSlot req = replay_slot (sc_window c) (highest (sc_slot_of c) startSlot (sent_updates pre))"
    using subscribeLoop_request [OF assms(2) [unfolded Client_Subscribe_def]] by (simp add: built_client_from)
  then show ?thesis
    using replay_slot_bounds by (simp add: Let_def replay_slot_def)
qed

theorem subscribe_no_gap_witness:
  "let cfg = \<lparr>gc_Endpoint = ''e'', gc_APIKey = ''k'', gc_ProgramFilters = [(''p'', replicate 32 CHR ''1'')]\<rparr>;
       u = U_Block (Some 1000)
   in case Geyser_NewClient (\<lambda>m. m) cfg of Inl _ \<Rightarrow> False | Inr c \<Rightarrow>
     (\<exists>pre req. Client_Subscribe c 900 [SubscribeFails, Session [Recv u, RecvErr], Session []] = pre @ [SentRequest req] \<and>
        sent_updates pre = [u] \<and> rq_FromSlot req = 936)"
proof -
  define cfg where "cfg = \<lparr>gc_Endpoint = ''e'', gc_APIKey = ''k'', gc_ProgramFilters = [(''p'', replicate 32 CHR ''1'')]\<rparr>"
  define u where "u = U_Block (Some 1000)"
  obtain c where c: "Geyser_NewClient (\<lambda>m. m) cfg = Inr c" and flds: "sc_window c = 64" "sc_cancelled c = False"
    "sc_slot_of c = extractSlotFromUpdate"
    by (simp add: Geyser_NewClient_def Geyser_Validate_def program_errors_def cfg_def ReplaySlotWindow_def)
  define pre where "pre = [SentErr SubscribeFailedErr, SentRequest (sc_build c 836), SentUpdate u, SentErr RecvFailedErr]"
  have trace: "Client_Subscribe c 900 [SubscribeFails, Session [Recv u, RecvErr], Session []] =
      pre @ SentRequest (sc_build c 936) # []"
    by (simp add: Client_Subscribe_def flds replay_slot_def u_def extractSlotFromUpdate_def pre_def)
  have "rq_FromSlot (sc_build c 936) = 936" "sent_updates pre = [u]"
    using subscribe_no_gap [OF disjI1 [OF c] trace]
    by (simp_all add: flds pre_def highest_def slot_value_def u_def extractSlotFromUpdate_def Let_def)
  then show ?thesis
    using trace c unfolding Let_def cfg_def [symmetric] u_def [symmetric] by auto
qed

section \<open>Failover after every source has ended once\<close>

text \<open>Every attempt sees the channels of the client it runs.\<close>

fun views_ok ::
  "(SubscribeUpdate \<Rightarrow> 'p \<Rightarrow> 'p \<times> 'e option) \<Rightarrow> ('e \<Rightarrow> bool) \<Rightarrow> u64 \<Rightarrow> 'p failover \<Rightarrow> attempt_env list \<Rightarrow> bool" where
  "views_ok handle is_canceled startSlot s [] = True"
| "views_ok handle is_canceled startSlot s (a # as) =
     (view_ok (Client_Subscribe (fo_clients s ! fo_current s) startSlot (ae_rounds a)) (ae_selects a) \<and>
      (case failover_step handle is_canceled a s of (s', goes_on) \<Rightarrow> goes_on \<longrightarrow> views_ok handle is_canceled startSlot s' as))"

definition all_closed :: "'p failover \<Rightarrow> bool" where
  "all_closed s \<longleftrightarrow> (\<forall>c\<in>set (fo_clients s). sc_cancelled c)"

lemma consume_nothing: "selected_updates ss = [] \<Longrightarrow> fst (consume handle p ss) = p"
  by (induction ss rule: selected_updates.induct) (auto split: option.splits select.splits)

lemma view_of_closed:
  assumes "view_ok (Client_Subscribe c startSlot rounds) ss" and "sc_cancelled c"
  shows "selected_updates ss = []"
  using assms by (simp add: view_ok_def Client_Subscribe_def)

lemma runClient_closed:
  assumes "runClient handle c a p = ((c', p'), e)" and "sc_cancelled c"
  shows "sc_cancelled c'"
    and "view_ok (Client_Subscribe c startSlot (ae_rounds a)) (ae_selects a) \<Longrightarrow> p' = p"
  using assms view_of_closed [of c startSlot "ae_rounds a" "ae_selects a"] consume_nothing [of "ae_selects a" handle p]
  by (auto simp: runClient_def Client_Close_def split: connect_result.splits prod.splits option.splits)

lemma failover_step_split:
  assumes "failover_step handle is_canceled a s = (s', goes_on)" and "fo_current s < length (fo_clients s)"
  obtains c' p' e where "runClient handle (fo_clients s ! fo_current s) a (fo_proc s) = ((c', p'), e)"
    and "fo_clients s' = (fo_clients s)[fo_current s := c']" and "fo_proc s' = p'"
    and "goes_on \<Longrightarrow> e \<noteq> None \<and> fo_current s' = (fo_current s + 1) mod length (fo_clients s)"
proof -
  obtain c' p' e where run: "runClient handle (fo_clients s ! fo_current s) a (fo_proc s) = ((c', p'), e)"
    by (metis surj_pair)
  show thesis
    by (rule that [OF run]; use assms run in \<open>auto simp: failover_step_def Let_def split: option.splits if_splits\<close>)
qed

lemma failover_step_closes:
  assumes "failover_step handle is_canceled a s = (s', True)" and "ae_connect a = Connected"
    and "fo_current s < length (fo_clients s)"
  shows "\<exists>c. fo_clients s' = (fo_clients s)[fo_current s := c] \<and> sc_cancelled c"
proof -
  obtain c' p' e where "runClient handle (fo_clients s ! fo_current s) a (fo_proc s) = ((c', p'), e)"
    and "fo_clients s' = (fo_clients s)[fo_current s := c']"
    and "True \<Longrightarrow> e \<noteq> None \<and> fo_current s' = (fo_current s + 1) mod length (fo_clients s)"
    using failover_step_split [OF assms(1,3)] by metis
  then show ?thesis
    using assms(2) by (auto simp: runClient_def Client_Close_def split: prod.splits option.splits)
qed

lemma failover_step_all_closed:
  assumes "failover_step handle is_canceled a s = (s', goes_on)" and "all_closed s" and "fo_current s < length (fo_clients s)"
  shows "all_closed s'"
    and "view_ok (Client_Subscribe (fo_clients s ! fo_current s) startSlot (ae_rounds a)) (ae_selects a) \<Longrightarrow> fo_proc s' = fo_proc s"
    and "goes_on \<Longrightarrow> fo_current s' < length (fo_clients s')"
proof -
  obtain c' p' e where run: "runClient handle (fo_clients s ! fo_current s) a (fo_proc s) = ((c', p'), e)"
    and clients: "fo_clients s' = (fo_clients s)[fo_current s := c']" and proc: "fo_proc s' = p'"
    and current: "goes_on \<Longrightarrow> e \<noteq> None \<and> fo_current s' = (fo_current s + 1) mod length (fo_clients s)"
    using failover_step_split [OF assms(1,3)] by metis
  have closed: "sc_cancelled (fo_clients s ! fo_current s)"
    using assms(2,3) by (simp add: all_closed_def)
  show "all_closed s'"
    using assms(2) runClient_closed(1) [OF run closed]
    by (auto simp: all_closed_def clients dest!: set_update_subset_insert [THEN subsetD])
  show "fo_proc s' = fo_proc s"
    if "view_ok (Client_Subscribe (fo_clients s ! fo_current s) startSlot (ae_rounds a)) (ae_selects a)"
    using runClient_closed(2) [OF run closed that] proc by simp
  show "fo_current s' < length (fo_clients s')" if goes_on
    using current [OF that] assms(3) by (auto simp: clients intro: mod_less_divisor)
qed

lemma failover_run_all_closed:
  assumes "all_closed s" and "fo_current s < length (fo_clients s)" and "views_ok handle is_canceled startSlot s as"
  shows "fo_proc (failover_run handle is_canceled s as) = fo_proc s"
  using assms
proof (induction as arbitrary: s)
  case (Cons a as)
  obtain s' goes_on where step: "failover_step handle is_canceled a s = (s', goes_on)" by fastforce
  note closed = failover_step_all_closed [OF step Cons.prems(1,2)]
  have "fo_proc s' = fo_proc s"
    using Cons.prems(3) by (intro closed(2) [of startSlot]) simp
  then show ?case
    using Cons.IH [OF closed(1)] closed(3) Cons.prems(3) by (simp add: step)
qed simp

text \<open>The clients before the current one are closed; running the rest of them closes them all, unless
  the loop has returned.\<close>

lemma failover_run_closes:
  assumes "\<forall>i<fo_current s. sc_cancelled (fo_clients s ! i)" and "fo_current s < length (fo_clients s)"
    and "\<forall>a\<in>set as0. ae_connect a = Connected" and "length (fo_clients s) \<le> fo_current s + length as0"
    and "views_ok handle is_canceled startSlot s (as0 @ as)"
  shows "fo_proc (failover_run handle is_canceled s (as0 @ as)) = fo_proc (failover_run handle is_canceled s as0)"
  using assms
proof (induction as0 arbitrary: s)
  case (Cons a as0)
  obtain s' goes_on where step: "failover_step handle is_canceled a s = (s', goes_on)" by fastforce
  show ?case
  proof (cases goes_on)
    case True
    then obtain c where clients: "fo_clients s' = (fo_clients s)[fo_current s := c]" and "sc_cancelled c"
      using failover_step_closes [of handle is_canceled a s s'] step Cons.prems(2,3) by auto
    moreover have current: "fo_current s' = (fo_current s + 1) mod length (fo_clients s)"
      using failover_step_split [OF step Cons.prems(2)] True by metis
    ultimately have upto: "\<forall>i\<le>fo_current s. sc_cancelled (fo_clients s' ! i)"
      using Cons.prems(1,2) by (auto simp: nth_list_update)
    have views: "views_ok handle is_canceled startSlot s' (as0 @ as)"
      using Cons.prems(5) step True by simp
    show ?thesis
    proof (cases "fo_current s + 1 = length (fo_clients s)")
      case all: True
      then have "all_closed s'" "fo_current s' < length (fo_clients s')"
        using upto current by (auto simp: all_closed_def in_set_conv_nth clients)
      moreover have "views_ok handle is_canceled startSlot s' as0"
        using views by (induction as0 arbitrary: s') (auto split: prod.splits)
      ultimately show ?thesis
        using failover_run_all_closed [OF _ _ views] failover_run_all_closed [of s' handle is_canceled startSlot as0]
        by (simp add: step True)
    next
      case False
      then have "fo_current s' = fo_current s + 1" "fo_current s' < length (fo_clients s')"
        using current Cons.prems(2) by (simp_all add: clients)
      then show ?thesis
        using Cons.IH [of s'] upto views Cons.prems(3,4) by (simp add: step True clients less_Suc_eq_le)
    qed
  qed (simp add: step)
qed simp

text \<open>(C20) The failover loop does not recover a source. \<open>runClient\<close> closes the client it ran, which
  cancels the context the client was built with for good, so when that client's turn comes again its
  channels close at once. After as many connected attempts as there are clients, no further attempt,
  whatever its server would have sent, hands a single update to the processor: its state stays what it
  was, for any handler and any number of further attempts.\<close>

theorem failover_no_recovery:
  assumes "\<forall>a\<in>set as0. ae_connect a = Connected"
    and "length (fo_clients (NewFailover primary fallback p)) \<le> length as0"
    and "views_ok handle is_canceled startSlot (NewFailover primary fallback p) (as0 @ as)"
  shows "fo_proc (failover_run handle is_canceled (NewFailover primary fallback p) (as0 @ as)) =
     fo_proc (failover_run handle is_canceled (NewFailover primary fallback p) as0)"
  using assms by (intro failover_run_closes) (auto simp: NewFailover_def)

definition sample_client :: stream_client where
  "sample_client = \<lparr>sc_name = ''geyser'',
     sc_build = Geyser_buildSubscribeRequest \<lparr>gc_Endpoint = ''e'', gc_APIKey = ''k'', gc_ProgramFilters = []\<rparr>,
     sc_window = ReplaySlotWindow, sc_slot_of = extractSlotFromUpdate, sc_cancelled = False\<rparr>"

definition log_update :: "SubscribeUpdate \<Rightarrow> SubscribeUpdate list \<Rightarrow> SubscribeUpdate list \<times> unit option" where
  "log_update u us = (us @ [u], None)"

lemmas failover_eval =
  NewFailover_def failover_step_def runClient_def view_ok_def Client_Subscribe_def Client_Close_def sample_client_def
  log_update_def canceled_def Let_def

theorem failover_no_recovery_witness:
  "let u = U_Block (Some 7); first = \<lparr>ae_connect = Connected, ae_rounds = [Session [Recv u, RecvErr]],
         ae_selects = [SelUpdate (Some u), SelErr (Some RecvFailedErr)]\<rparr>;
       later = \<lparr>ae_connect = Connected, ae_rounds = [Session [Recv u]], ae_selects = [SelErr None, SelUpdate None]\<rparr>;
       s = NewFailover sample_client None []
   in views_ok log_update (\<lambda>_. False) 0 s ([first] @ [later]) \<and>
      fo_proc (failover_run log_update (\<lambda>_. False) s ([first] @ [later])) = [u]"
proof -
  define u where "u = U_Block (Some 7)"
  define first where "first = \<lparr>ae_connect = Connected, ae_rounds = [Session [Recv u, RecvErr]],
         ae_selects = [SelUpdate (Some u), SelErr (Some RecvFailedErr)]\<rparr>"
  define later where "later = \<lparr>ae_connect = Connected, ae_rounds = [Session [Recv u]], ae_selects = [SelErr None, SelUpdate None]\<rparr>"
  have views: "views_ok log_update (\<lambda>_. False) 0 (NewFailover sample_client None []) ([first] @ [later])"
    by (simp add: failover_eval first_def later_def u_def extractSlotFromUpdate_def)
  have "fo_proc (failover_run log_update (\<lambda>_. False) (NewFailover sample_client None []) [first]) = [u]"
    by (simp add: failover_eval first_def)
  then have "fo_proc (failover_run log_update (\<lambda>_. False) (NewFailover sample_client None []) ([first] @ [later])) = [u]"
    using failover_no_recovery [OF _ _ views] by (simp add: first_def NewFailover_def)
  with views show ?thesis
    unfolding Let_def u_def [symmetric] first_def [symmetric] later_def [symmetric] by simp
qed

end
