(* ===== verification/Helius.thy ===== *)
theory Helius
  imports Geyser
begin

text \<open>
  The Helius fallback client: \<open>ingestor/helius/client.go\<close>. \<open>run\<close> is a loop over the cases its
  \<open>select\<close> takes; the clock, and whether a send found a receiver or the context ended first, are part
  of each case. The state is the client's, with what was sent on the two channels it returns.
\<close>

record Update =
  up_BlockHead :: "BlockHead option"
  up_TxMeta :: "TxMeta option"
  up_Swap :: "SwapEvent option"

record HealthSnapshot =
  LastHeartbeat :: gotime
  LastSlot :: u64
  Healthy :: bool
  Source :: string

record HeliusClient =
  hl_cfg :: HeliusConfig
  hl_health :: HealthSnapshot
  hl_decoder :: Decoder


definition setHealth :: "(HealthSnapshot \<Rightarrow> HealthSnapshot) \<Rightarrow> HeliusClient \<Rightarrow> HeliusClient" where
  "setHealth fn c = c\<lparr>hl_health := fn (hl_health c)\<rparr>"

text \<open>A send on the update channel, or nothing when the context ended first.\<close>

definition sendUpdate :: "bool \<Rightarrow> Update \<Rightarrow> Update list \<Rightarrow> Update list" where
  "sendUpdate received update out = (if received then out @ [update] else out)"

definition head_update :: "BlockHead \<Rightarrow> Update" where
  "head_update h = \<lparr>up_BlockHead = Some h, up_TxMeta = None, up_Swap = None\<rparr>"

definition tx_update :: "TxMeta \<Rightarrow> Update" where
  "tx_update m = \<lparr>up_BlockHead = None, up_TxMeta = Some m, up_Swap = None\<rparr>"

definition swap_update :: "SwapEvent \<Rightarrow> Update" where
  "swap_update ev = \<lparr>up_BlockHead = None, up_TxMeta = None, up_Swap = Some ev\<rparr>"

text \<open>\<open>received i\<close> says what the \<open>i\<close>-th send of the call does. The slot and the entry updates, and
  whole blocks, are ignored.\<close>

definition handleSubscribeUpdate ::
  "decode_env \<Rightarrow> (nat \<Rightarrow> bool) \<Rightarrow> SubscribeUpdate \<Rightarrow> HeliusClient \<times> Update list \<Rightarrow>
   (HeliusClient \<times> Update list) \<times> DecodeError option" where
  "handleSubscribeUpdate E received u = (\<lambda>(c, out).
     case u of
       U_BlockMeta meta_ptr \<Rightarrow>
         let c1 = c\<lparr>hl_decoder := HandleBlockMeta meta_ptr (hl_decoder c)\<rparr> in
         (case meta_ptr of None \<Rightarrow> ((c1, out), None) | Some meta \<Rightarrow>
          let head = \<lparr>bh_ChainId = 501, bh_Slot = sbm_Slot meta,
                bh_TsSec = (case sbm_BlockTime meta of Some ts \<Rightarrow> ts | None \<Rightarrow> 0), bh_Status = ''confirmed''\<rparr>
          in ((c1, sendUpdate (received 0) (head_update head) out), None))
     | U_Account account \<Rightarrow> ((c\<lparr>hl_decoder := HandleAccount (env_b58 E) account (hl_decoder c)\<rparr>, out), None)
     | U_Transaction tx \<Rightarrow>
         let out1 = (case ConvertTxMeta (env_b58 E) tx of None \<Rightarrow> out
                     | Some meta \<Rightarrow> sendUpdate (received 0) (tx_update meta) out)
         in (case DecodeTransaction (env_b58 E) (env_ord E) (env_reg E) (env_kinds E) (hl_decoder c) tx of
               Inl err \<Rightarrow> ((c, out1), Some err)
             | Inr events \<Rightarrow>
                 ((c, fold (\<lambda>(i, ev). sendUpdate (received (Suc i)) (swap_update ev)) (enumerate 0 events) out1), None))
     | _ \<Rightarrow> ((c, out), None))"

definition slotFromUpdate :: "SubscribeUpdate \<Rightarrow> u64" where
  "slotFromUpdate update =
     (case update of
        U_Slot s \<Rightarrow> (case s of None \<Rightarrow> 0 | Some x \<Rightarrow> sus_Slot x)
      | U_Account a \<Rightarrow> (case a of None \<Rightarrow> 0 | Some x \<Rightarrow> sua_Slot x)
      | U_Transaction t \<Rightarrow> (case t of None \<Rightarrow> 0 | Some x \<Rightarrow> sut_Slot x)
      | U_Block b \<Rightarrow> (case b of None \<Rightarrow> 0 | Some x \<Rightarrow> x)
      | U_BlockMeta m \<Rightarrow> (case m of None \<Rightarrow> 0 | Some x \<Rightarrow> sbm_Slot x)
      | U_Other \<Rightarrow> 0)"

datatype helius_error = HeliusInit helius_config_error | HeliusConnect | HeliusStream client_error | HeliusDecode DecodeError

text \<open>The cases of the \<open>select\<close>: the context ends; a value of the error channel (\<open>None\<close> once it is
  closed) and whether the error is reported; a closed update channel; an update with the clock, the
  order in which the decoder's loop over a map visits its entries and the outcomes of its sends, the
  last of which reports the error.\<close>

datatype helius_case =
    HeliusCtx
  | HeliusErr "client_error option" bool
  | HeliusClosed
  | HeliusUpdate SubscribeUpdate gotime visit_order "nat \<Rightarrow> bool" bool

record helius_run =
  hr_client :: HeliusClient
  hr_updates :: "Update list"
  hr_errs :: "helius_error list"
  hr_returned :: bool

definition heartbeat :: "gotime \<Rightarrow> HealthSnapshot \<Rightarrow> HealthSnapshot" where
  "heartbeat now s = s\<lparr>Healthy := True, Source := ''grpc'', LastHeartbeat := now\<rparr>"

definition run_case :: "decode_env \<Rightarrow> helius_case \<Rightarrow> helius_run \<Rightarrow> helius_run" where
  "run_case E k r =
     (case k of
        HeliusCtx \<Rightarrow> r\<lparr>hr_client := setHealth (\<lambda>s. s\<lparr>Healthy := False\<rparr>) (hr_client r), hr_returned := True\<rparr>
      | HeliusErr None _ \<Rightarrow> r
      | HeliusErr (Some err) reported \<Rightarrow>
          r\<lparr>hr_client := setHealth (\<lambda>s. s\<lparr>Healthy := False, Source := ''grpc''\<rparr>) (hr_client r),
            hr_errs := (if reported then hr_errs r @ [HeliusStream err] else hr_errs r)\<rparr>
      | HeliusClosed \<Rightarrow> r\<lparr>hr_client := setHealth (\<lambda>s. s\<lparr>Healthy := False\<rparr>) (hr_client r), hr_returned := True\<rparr>
      | HeliusUpdate update now ord received reported \<Rightarrow>
          let slot = slotFromUpdate update;
              c1 = setHealth (\<lambda>s. let s1 = heartbeat now s in if slot > 0 then s1\<lparr>LastSlot := slot\<rparr> else s1) (hr_client r)
          in (case handleSubscribeUpdate (E\<lparr>env_ord := ord\<rparr>) received update (c1, hr_updates r) of
                ((c2, out), None) \<Rightarrow> r\<lparr>hr_client := c2, hr_updates := out\<rparr>
              | ((c2, out), Some err) \<Rightarrow>
                  r\<lparr>hr_client := c2, hr_updates := out,
                    hr_errs := (if reported then hr_errs r @ [HeliusDecode err] else hr_errs r)\<rparr>))"

fun run_loop :: "decode_env \<Rightarrow> helius_case list \<Rightarrow> helius_run \<Rightarrow> helius_run" where
  "run_loop E [] r = r"
| "run_loop E (k # ks) r = (let r' = run_case E k r in if hr_returned r' then r' else run_loop E ks r')"



section \<open>The health snapshot\<close>

lemma handleSubscribeUpdate_health [simp]:
  "handleSubscribeUpdate E received u (c, out) = ((c', out'), e) \<Longrightarrow> hl_health c' = hl_health c"
  by (auto simp: handleSubscribeUpdate_def Let_def split: SubscribeUpdate.splits option.splits sum.splits)

lemma run_case_returned:
  "\<not> hr_returned r \<Longrightarrow> hr_returned (run_case E k r) \<Longrightarrow> \<not> Healthy (hl_health (hr_client (run_case E k r)))"
  by (auto simp: run_case_def setHealth_def Let_def split: helius_case.splits option.splits prod.splits)

lemma run_loop_returned:
  "\<not> hr_returned r \<Longrightarrow> hr_returned (run_loop E ks r) \<Longrightarrow> \<not> Healthy (hl_health (hr_client (run_loop E ks r)))"
  by (induction ks arbitrary: r) (use run_case_returned in \<open>auto simp: Let_def\<close>)

section \<open>The same payloads from either source\<close>

text \<open>What an update announces: the specification both consumers of the stream implement.\<close>

definition stream_step :: "decode_env \<Rightarrow> SubscribeUpdate \<Rightarrow> Decoder \<Rightarrow> Decoder" where
  "stream_step E u d =
     (case u of U_BlockMeta m \<Rightarrow> HandleBlockMeta m d | U_Account a \<Rightarrow> HandleAccount (env_b58 E) a d | _ \<Rightarrow> d)"

definition decode_in :: "decode_env \<Rightarrow> Decoder \<Rightarrow> SubscribeUpdateTransaction option \<Rightarrow> DecodeError + SwapEvent list" where
  "decode_in E d tx = DecodeTransaction (env_b58 E) id (env_reg E) (env_kinds E) d tx"


fun announced_by :: "decode_env \<Rightarrow> Decoder \<Rightarrow> SubscribeUpdate \<Rightarrow> dex_message list" where
  "announced_by E d (U_BlockMeta (Some m)) =
     [MsgBlockHead \<lparr>bh_ChainId = 501, bh_Slot = sbm_Slot m,
        bh_TsSec = (case sbm_BlockTime m of Some ts \<Rightarrow> ts | None \<Rightarrow> 0), bh_Status = ''confirmed''\<rparr>]"
| "announced_by E d (U_Transaction tx) =
     (case ConvertTxMeta (env_b58 E) tx of None \<Rightarrow> [] | Some m \<Rightarrow> [MsgTxMeta m]) @
     (case decode_in E d tx of Inl _ \<Rightarrow> [] | Inr evs \<Rightarrow> map MsgSwap evs)"
| "announced_by E d _ = []"


text \<open>Every transaction of the stream decodes, with the decoder as it is when it arrives, and names the
  vaults of its swaps, so that the events do not depend on the visiting order.\<close>

definition step_decodes :: "decode_env \<Rightarrow> Decoder \<Rightarrow> SubscribeUpdate \<Rightarrow> bool" where
  "step_decodes E d u = (case u of U_Transaction tx \<Rightarrow> order_safe (env_b58 E) tx \<and> \<not> isl (decode_in E d tx) | _ \<Rightarrow> True)"


lemma env_ord_irrelevant [simp]:
  "decode_in (E\<lparr>env_ord := ord\<rparr>) = decode_in E" "stream_step (E\<lparr>env_ord := ord\<rparr>) = stream_step E"
  "step_decodes (E\<lparr>env_ord := ord\<rparr>) = step_decodes E"
  by (simp_all add: decode_in_def stream_step_def step_decodes_def fun_eq_iff cong: SubscribeUpdate.case_cong)

lemma announced_by_env_ord [simp]: "announced_by (E\<lparr>env_ord := ord\<rparr>) d u = announced_by E d u"
  by (cases "(E, d, u)" rule: announced_by.cases) simp_all


subsection \<open>The Helius client\<close>

definition update_messages :: "Update \<Rightarrow> dex_message list" where
  "update_messages u =
     (case up_BlockHead u of None \<Rightarrow> [] | Some h \<Rightarrow> [MsgBlockHead h]) @
     (case up_TxMeta u of None \<Rightarrow> [] | Some m \<Rightarrow> [MsgTxMeta m]) @
     (case up_Swap u of None \<Rightarrow> [] | Some ev \<Rightarrow> [MsgSwap ev])"

definition sent_messages :: "Update list \<Rightarrow> dex_message list" where
  "sent_messages out = concat (map update_messages out)"

lemma sent_messages_simps [simp]:
  "sent_messages [] = []"
  "sent_messages (out @ [head_update h]) = sent_messages out @ [MsgBlockHead h]"
  "sent_messages (out @ [tx_update m]) = sent_messages out @ [MsgTxMeta m]"
  "sent_messages (out @ [swap_update ev]) = sent_messages out @ [MsgSwap ev]"
  by (simp_all add: sent_messages_def update_messages_def head_update_def tx_update_def swap_update_def)







subsection \<open>The processor\<close>








end
