(* ===== verification/Api.thy ===== *)
theory Api
  imports Publisher Complex_Main
begin

text \<open>
  The HTTP API: \<open>api/http/types/types.go\<close>, \<open>api/http/cache/cache.go\<close> and the handlers of
  \<open>api/http/main.go\<close>. Redis and \<open>encoding/json\<close> are parameters; a server is a run of requests and
  of the goroutines that store what was served, in any interleaving. \<open>'f\<close> is \<open>float64\<close> and \<open>lit\<close>
  the conversion of a decimal constant of the source.
\<close>

section \<open>types.go\<close>

record HealthResponse =
  he_Status :: string
  he_Uptime :: string

record PoolResponse =
  po_ID :: string
  po_Name :: string
  po_BaseAsset :: string
  po_QuoteAsset :: string

record 'f ApiCandle =
  ac_Timestamp :: gotime
  ac_Open :: 'f
  ac_High :: 'f
  ac_Low :: 'f
  ac_Close :: 'f
  ac_Volume :: 'f

record 'f CandlesResponse =
  cr_PoolID :: string
  cr_Timeframe :: string
  cr_Candles :: "'f ApiCandle list"

definition supportedTimeframes :: "(string, unit) gomap" where
  "supportedTimeframes = [(''1m'', ()), (''5m'', ()), (''1h'', ()), (''1d'', ())]"

definition ValidateTimeframe :: "string \<Rightarrow> string option" where
  "ValidateTimeframe tf =
     (if tf = [] then Some ''missing timeframe''
      else case map_get supportedTimeframes tf of None \<Rightarrow> Some ''invalid timeframe'' | Some _ \<Rightarrow> None)"

definition SupportedTimeframes :: "((string, unit) gomap \<Rightarrow> (string, unit) gomap) \<Rightarrow> string list" where
  "SupportedTimeframes ord = sort (map fst (ord supportedTimeframes))"

section \<open>cache.go\<close>

record RedisConfig =
  rc_Enabled :: bool
  rc_Addr :: string
  rc_Password :: string
  rc_DB :: int
  rc_TTL :: duration

datatype redis_config_error = InvalidRedisDB parse_error | InvalidRedisTTL

text \<open>\<open>time.ParseDuration\<close> is an argument: \<open>None\<close> is its error.\<close>

definition LoadConfigFromEnv :: "(string \<Rightarrow> duration option) \<Rightarrow> environ \<Rightarrow> redis_config_error + RedisConfig" where
  "LoadConfigFromEnv parseDuration env =
     (let addr = env ''API_REDIS_ADDR'' in
      if addr = [] then Inr \<lparr>rc_Enabled = False, rc_Addr = [], rc_Password = [], rc_DB = 0, rc_TTL = 300 * time_Second\<rparr>
      else
        case (if env ''API_REDIS_DB'' = [] then Inr 0 else strconv_Atoi (env ''API_REDIS_DB'')) of
          Inl err \<Rightarrow> Inl (InvalidRedisDB err)
        | Inr db \<Rightarrow>
            (case (if env ''API_REDIS_TTL'' = [] then Some (300 * time_Second) else parseDuration (env ''API_REDIS_TTL'')) of
               None \<Rightarrow> Inl InvalidRedisTTL
             | Some ttl \<Rightarrow> Inr \<lparr>rc_Enabled = True, rc_Addr = addr, rc_Password = env ''API_REDIS_PASSWORD'',
                 rc_DB = db, rc_TTL = ttl\<rparr>))"

text \<open>The client of a disabled cache is \<open>nil\<close>.\<close>

record ApiCache =
  ca_client :: bool
  ca_cfg :: RedisConfig

definition ApiCache_New :: "RedisConfig \<Rightarrow> ApiCache" where
  "ApiCache_New cfg = \<lparr>ca_client = rc_Enabled cfg, ca_cfg = cfg\<rparr>"

definition cache_key :: "string \<Rightarrow> string \<Rightarrow> string" where
  "cache_key poolID timeframe = ''pool:'' @ poolID @ '':candles:'' @ timeframe"

text \<open>Redis as the code sees it, over a world of its own, and the JSON codec of candle slices (a slice
  is \<open>None\<close> when it is \<open>nil\<close>).\<close>

datatype redis_reply = RedisNil | RedisErr | RedisValue string

record 'w Redis =
  rd_Get :: "string \<Rightarrow> 'w \<Rightarrow> 'w \<times> redis_reply"
  rd_Set :: "string \<Rightarrow> string \<Rightarrow> duration \<Rightarrow> 'w \<Rightarrow> 'w \<times> bool"

record 'f Json =
  js_Marshal :: "'f ApiCandle list option \<Rightarrow> string option"
  js_Unmarshal :: "string \<Rightarrow> 'f ApiCandle list option option"

datatype cache_error = ErrDisabled | ErrNotFound | ErrRedis | ErrJson

definition GetCandles ::
  "'w Redis \<Rightarrow> 'f Json \<Rightarrow> ApiCache option \<Rightarrow> string \<Rightarrow> string \<Rightarrow> 'w \<Rightarrow>
   'w \<times> (cache_error + 'f ApiCandle list option)" where
  "GetCandles R J cache_ptr poolID timeframe w =
     (case cache_ptr of None \<Rightarrow> (w, Inl ErrDisabled) | Some cache \<Rightarrow>
      if \<not> ca_client cache then (w, Inl ErrDisabled)
      else case rd_Get R (cache_key poolID timeframe) w of
        (w', RedisNil) \<Rightarrow> (w', Inl ErrNotFound)
      | (w', RedisErr) \<Rightarrow> (w', Inl ErrRedis)
      | (w', RedisValue payload) \<Rightarrow>
          (w', case js_Unmarshal J payload of None \<Rightarrow> Inl ErrJson | Some candles \<Rightarrow> Inr candles))"

definition SetCandles ::
  "'w Redis \<Rightarrow> 'f Json \<Rightarrow> ApiCache option \<Rightarrow> string \<Rightarrow> string \<Rightarrow> 'f ApiCandle list option \<Rightarrow> 'w \<Rightarrow>
   'w \<times> cache_error option" where
  "SetCandles R J cache_ptr poolID timeframe candles w =
     (case cache_ptr of None \<Rightarrow> (w, Some ErrDisabled) | Some cache \<Rightarrow>
      if \<not> ca_client cache then (w, Some ErrDisabled)
      else case js_Marshal J candles of
        None \<Rightarrow> (w, Some ErrJson)
      | Some payload \<Rightarrow>
          (case rd_Set R (cache_key poolID timeframe) payload (rc_TTL (ca_cfg cache)) w of
             (w', failed) \<Rightarrow> (w', if failed then Some ErrRedis else None)))"

section \<open>main.go\<close>

definition durationForTimeframe :: "string \<Rightarrow> duration" where
  "durationForTimeframe tf =
     (if tf = ''1m'' then 60 * time_Second else if tf = ''5m'' then 300 * time_Second
      else if tf = ''1h'' then 3600 * time_Second else if tf = ''1d'' then 86400 * time_Second
      else 60 * time_Second)"

definition stubCandles :: "(rat \<Rightarrow> 'f) \<Rightarrow> string \<Rightarrow> 'f ApiCandle list" where
  "stubCandles lit tf =
     (let base = 0; step = word_of_int (sint (durationForTimeframe tf) div sint time_Second) in
      [\<lparr>ac_Timestamp = base, ac_Open = lit (2510 / 100), ac_High = lit (2542 / 100), ac_Low = lit (2498 / 100),
        ac_Close = lit (2530 / 100), ac_Volume = lit 1250\<rparr>,
       \<lparr>ac_Timestamp = base + step, ac_Open = lit (2530 / 100), ac_High = lit (2560 / 100), ac_Low = lit (2512 / 100),
        ac_Close = lit (2550 / 100), ac_Volume = lit 1480\<rparr>])"

datatype 'f response =
    HealthOK HealthResponse
  | PoolOK PoolResponse
  | CandlesOK "'f CandlesResponse"
  | BadRequest string
  | InternalServerError string

definition healthzHandler :: "string \<Rightarrow> 'f response" where
  "healthzHandler uptime = HealthOK \<lparr>he_Status = ''ok'', he_Uptime = uptime\<rparr>"

definition poolHandler :: "string \<Rightarrow> 'f response" where
  "poolHandler poolID = PoolOK \<lparr>po_ID = poolID, po_Name = ''stub-pool'', po_BaseAsset = ''SOL'', po_QuoteAsset = ''USDC''\<rparr>"

text \<open>The last component is the goroutine that the handler starts: what it will store.\<close>

type_synonym 'f seed = "string \<times> string \<times> 'f ApiCandle list"

definition candlesHandler ::
  "(rat \<Rightarrow> 'f) \<Rightarrow> 'w Redis \<Rightarrow> 'f Json \<Rightarrow> ApiCache option \<Rightarrow> string \<Rightarrow> string \<Rightarrow> 'w \<Rightarrow>
   'w \<times> 'f response \<times> 'f seed list" where
  "candlesHandler lit R J cache_ptr poolID timeframe w =
     (case ValidateTimeframe timeframe of Some err \<Rightarrow> (w, BadRequest err, []) | None \<Rightarrow>
      let (w', got) = (if cache_ptr = None then (w, Inr None) else GetCandles R J cache_ptr poolID timeframe w);
          serve = (\<lambda>candles.
            (w', CandlesOK \<lparr>cr_PoolID = poolID, cr_Timeframe = timeframe, cr_Candles = candles\<rparr>,
             if cache_ptr = None then [] else [(poolID, timeframe, candles)]))
      in case got of
           Inl ErrDisabled \<Rightarrow> serve (stubCandles lit timeframe)
         | Inl ErrNotFound \<Rightarrow> serve (stubCandles lit timeframe)
         | Inl _ \<Rightarrow> (w', InternalServerError ''internal error'', [])
         | Inr None \<Rightarrow> serve (stubCandles lit timeframe)
         | Inr (Some candles) \<Rightarrow> serve candles)"

text \<open>The server: requests on the routes of \<open>NewServer\<close>, and the goroutines, each of which runs at some
  point after its request. Between them other clients of Redis may write any value under any key.\<close>

datatype api_event =
    GetHealthz string | GetPool string | GetCandlesOf string string | RunSeed nat | OtherWrite string string duration

record ('w, 'f) ApiServer =
  sv_world :: 'w
  sv_seeds :: "'f seed list"
  sv_served :: "'f response list"

definition api_step ::
  "(rat \<Rightarrow> 'f) \<Rightarrow> 'w Redis \<Rightarrow> 'f Json \<Rightarrow> ApiCache option \<Rightarrow> api_event \<Rightarrow> ('w, 'f) ApiServer \<Rightarrow> ('w, 'f) ApiServer" where
  "api_step lit R J cache_ptr ev s =
     (case ev of
        GetHealthz uptime \<Rightarrow> s\<lparr>sv_served := sv_served s @ [healthzHandler uptime]\<rparr>
      | GetPool poolID \<Rightarrow> s\<lparr>sv_served := sv_served s @ [poolHandler poolID]\<rparr>
      | GetCandlesOf poolID tf \<Rightarrow>
          (case candlesHandler lit R J cache_ptr poolID tf (sv_world s) of
             (w', resp, seeds) \<Rightarrow>
               s\<lparr>sv_world := w', sv_seeds := sv_seeds s @ seeds, sv_served := sv_served s @ [resp]\<rparr>)
      | RunSeed n \<Rightarrow>
          if n < length (sv_seeds s)
          then (case sv_seeds s ! n of (poolID, tf, candles) \<Rightarrow>
            s\<lparr>sv_world := fst (SetCandles R J cache_ptr poolID tf (Some candles) (sv_world s)),
              sv_seeds := take n (sv_seeds s) @ drop (Suc n) (sv_seeds s)\<rparr>)
          else s
      | OtherWrite key v ttl \<Rightarrow> s\<lparr>sv_world := fst (rd_Set R key v ttl (sv_world s))\<rparr>)"

definition api_run ::
  "(rat \<Rightarrow> 'f) \<Rightarrow> 'w Redis \<Rightarrow> 'f Json \<Rightarrow> ApiCache option \<Rightarrow> api_event list \<Rightarrow> 'w \<Rightarrow> ('w, 'f) ApiServer" where
  "api_run lit R J cache_ptr evs w =
     fold (api_step lit R J cache_ptr) evs \<lparr>sv_world = w, sv_seeds = [], sv_served = []\<rparr>"

section \<open>What Redis and the codec promise\<close>

text \<open>\<open>stored\<close> is what a key holds. A read returns what is stored; reading stores nothing; a write may
  store its value under its key; anything may expire at any time. Writes of other clients are events
  of their own.\<close>

definition redis_law :: "'w Redis \<Rightarrow> ('w \<Rightarrow> string \<Rightarrow> string option) \<Rightarrow> bool" where
  "redis_law R stored \<longleftrightarrow>
     (\<forall>k w w' r. rd_Get R k w = (w', r) \<longrightarrow>
        (\<forall>v. r = RedisValue v \<longrightarrow> stored w k = Some v) \<and> (\<forall>j. stored w' j \<in> {stored w j, None})) \<and>
     (\<forall>k v ttl w w' r. rd_Set R k v ttl w = (w', r) \<longrightarrow>
        (\<forall>j. stored w' j \<in> {stored w j, None} \<or> j = k \<and> stored w' j = Some v))"

definition json_law :: "'f Json \<Rightarrow> bool" where
  "json_law J \<longleftrightarrow> (\<forall>cs payload. js_Marshal J (Some cs) = Some payload \<longrightarrow> js_Unmarshal J payload = Some (Some cs))"

section \<open>Lemmas\<close>

lemma supported_length: "ValidateTimeframe tf = None \<Longrightarrow> length tf = 2"
  by (auto simp: ValidateTimeframe_def supportedTimeframes_def map_get_def split: option.splits if_splits)

text \<open>Keys of supported timeframes identify pool and timeframe, whatever the pool identifier contains.\<close>

lemma cache_key_inject:
  assumes "cache_key p tf = cache_key p' tf'" and "ValidateTimeframe tf = None" and "ValidateTimeframe tf' = None"
  shows "p = p' \<and> tf = tf'"
proof -
  have "length tf = length tf'" using assms(2,3) by (simp add: supported_length)
  moreover from this have "length p = length p'"
    using arg_cong [OF assms(1), of length] by (simp add: cache_key_def)
  ultimately show ?thesis using assms(1) by (simp add: cache_key_def)
qed

text \<open>The candles that may be served for a pool and timeframe: the stub, or what others put under their key;
  \<open>others key\<close> are the values that a key held when the server started or that another client wrote
  under it.\<close>

definition own_series ::
  "(rat \<Rightarrow> 'f) \<Rightarrow> 'f Json \<Rightarrow> (string \<Rightarrow> string set) \<Rightarrow> string \<Rightarrow> string \<Rightarrow> 'f ApiCandle list \<Rightarrow> bool" where
  "own_series lit J others poolID tf cs \<longleftrightarrow>
     cs = stubCandles lit tf \<or>
     (\<exists>v \<in> others (cache_key poolID tf). js_Unmarshal J v = Some (Some cs))"

definition own_content :: "(rat \<Rightarrow> 'f) \<Rightarrow> 'f Json \<Rightarrow> (string \<Rightarrow> string set) \<Rightarrow> (string \<Rightarrow> string option) \<Rightarrow> bool" where
  "own_content lit J others now \<longleftrightarrow>
     (\<forall>poolID tf v cs. ValidateTimeframe tf = None \<longrightarrow> now (cache_key poolID tf) = Some v \<longrightarrow>
        js_Unmarshal J v = Some (Some cs) \<longrightarrow> own_series lit J others poolID tf cs)"

definition own_response :: "(rat \<Rightarrow> 'f) \<Rightarrow> 'f Json \<Rightarrow> (string \<Rightarrow> string set) \<Rightarrow> 'f response \<Rightarrow> bool" where
  "own_response lit J others resp =
     (case resp of
        CandlesOK r \<Rightarrow> ValidateTimeframe (cr_Timeframe r) = None \<and>
          own_series lit J others (cr_PoolID r) (cr_Timeframe r) (cr_Candles r)
      | _ \<Rightarrow> True)"

definition own_seed :: "(rat \<Rightarrow> 'f) \<Rightarrow> 'f Json \<Rightarrow> (string \<Rightarrow> string set) \<Rightarrow> 'f seed \<Rightarrow> bool" where
  "own_seed lit J others = (\<lambda>(poolID, tf, cs). ValidateTimeframe tf = None \<and> own_series lit J others poolID tf cs)"

lemma own_content_fewer:
  "own_content lit J others now \<Longrightarrow> \<forall>j. now' j \<in> {now j, None} \<Longrightarrow> own_content lit J others now'"
  unfolding own_content_def by (metis insertE option.distinct(1) singletonD)

lemma GetCandles_own:
  assumes "redis_law R stored" and "own_content lit J others (stored w)"
    and "GetCandles R J cache_ptr poolID tf w = (w', got)" and "ValidateTimeframe tf = None"
  shows "own_content lit J others (stored w')"
    and "got = Inr (Some cs) \<Longrightarrow> own_series lit J others poolID tf cs"
proof -
  have get: "(\<forall>v. r = RedisValue v \<longrightarrow> stored w k = Some v) \<and> (\<forall>j. stored w1 j \<in> {stored w j, None})"
    if "rd_Get R k w = (w1, r)" for k w1 r
    using assms(1) that unfolding redis_law_def by blast
  show "own_content lit J others (stored w')"
    using assms(2,3) get own_content_fewer [OF assms(2)]
    by (auto simp: GetCandles_def split: option.splits if_splits prod.splits redis_reply.splits)
  show "own_series lit J others poolID tf cs" if "got = Inr (Some cs)"
    using assms(2-4) get that
    by (auto simp: GetCandles_def own_content_def split: option.splits if_splits prod.splits redis_reply.splits)
qed

lemma candlesHandler_own:
  assumes "redis_law R stored" and "own_content lit J others (stored w)"
    and "candlesHandler lit R J cache_ptr poolID tf w = (w', resp, seeds)"
  shows "own_content lit J others (stored w') \<and> own_response lit J others resp \<and>
    list_all (own_seed lit J others) seeds"
proof (cases "ValidateTimeframe tf")
  case None
  obtain w1 got where got: "(if cache_ptr = None then (w, Inr None) else GetCandles R J cache_ptr poolID tf w) = (w1, got)"
    by fastforce
  have w1: "own_content lit J others (stored w1)" and
    series: "\<And>cs. got = Inr (Some cs) \<Longrightarrow> own_series lit J others poolID tf cs"
    using got GetCandles_own [OF assms(1,2) _ None] assms(2) by (auto split: if_splits)
  have stub: "own_series lit J others poolID tf (stubCandles lit tf)" by (simp add: own_series_def)
  show ?thesis
    using assms(3) w1 series stub None
    by (auto simp: candlesHandler_def got own_response_def own_seed_def Let_def
        split: sum.splits option.splits cache_error.splits if_splits)
next
  case (Some err)
  then show ?thesis using assms by (auto simp: candlesHandler_def own_response_def)
qed

lemma SetCandles_own:
  assumes "redis_law R stored" and "json_law J" and "own_content lit J others (stored w)"
    and "own_seed lit J others (poolID, tf, cs)"
  shows "own_content lit J others (stored (fst (SetCandles R J cache_ptr poolID tf (Some cs) w)))"
proof -
  have set: "own_content lit J others (stored w')"
    if put: "rd_Set R (cache_key poolID tf) payload ttl w = (w', r)" and enc: "js_Marshal J (Some cs) = Some payload"
    for payload ttl w' r
    unfolding own_content_def
  proof (intro allI impI)
    fix p t v c
    assume t: "ValidateTimeframe t = None" and v: "stored w' (cache_key p t) = Some v" and c: "js_Unmarshal J v = Some (Some c)"
    have "stored w' (cache_key p t) \<in> {stored w (cache_key p t), None} \<or>
        cache_key p t = cache_key poolID tf \<and> stored w' (cache_key p t) = Some payload"
      using assms(1) put unfolding redis_law_def by blast
    then consider "stored w (cache_key p t) = Some v" | "cache_key p t = cache_key poolID tf" "v = payload"
      using v by auto
    then show "own_series lit J others p t c"
    proof cases
      case 1
      then show ?thesis using assms(3) t c by (auto simp: own_content_def)
    next
      case 2
      then have "p = poolID" "t = tf" "c = cs"
        using cache_key_inject [of p t poolID tf] t c assms(2,4) enc by (auto simp: own_seed_def json_law_def)
      then show ?thesis using assms(4) by (simp add: own_seed_def)
    qed
  qed
  then show ?thesis
    using assms(3) by (auto simp: SetCandles_def split: option.splits prod.splits)
qed

lemma OtherWrite_own:
  assumes "redis_law R stored" and "own_content lit J others (stored w)" and "v \<in> others key"
  shows "own_content lit J others (stored (fst (rd_Set R key v ttl w)))"
  unfolding own_content_def
proof (intro allI impI)
  fix p t v' c
  let ?w = "fst (rd_Set R key v ttl w)"
  assume t: "ValidateTimeframe t = None" and v': "stored ?w (cache_key p t) = Some v'" and c: "js_Unmarshal J v' = Some (Some c)"
  have "stored ?w (cache_key p t) \<in> {stored w (cache_key p t), None} \<or> cache_key p t = key \<and> stored ?w (cache_key p t) = Some v"
    using assms(1) unfolding redis_law_def by (metis prod.collapse)
  then consider "stored w (cache_key p t) = Some v'" | "cache_key p t = key" "v' = v"
    using v' by auto
  then show "own_series lit J others p t c"
    using assms(2,3) t c by cases (auto simp: own_content_def own_series_def)
qed

definition server_ok ::
  "(rat \<Rightarrow> 'f) \<Rightarrow> 'f Json \<Rightarrow> ('w \<Rightarrow> string \<Rightarrow> string option) \<Rightarrow> (string \<Rightarrow> string set) \<Rightarrow> ('w, 'f) ApiServer \<Rightarrow> bool" where
  "server_ok lit J stored others s \<longleftrightarrow>
     own_content lit J others (stored (sv_world s)) \<and> list_all (own_seed lit J others) (sv_seeds s) \<and>
     list_all (own_response lit J others) (sv_served s)"

lemma api_step_ok:
  assumes "redis_law R stored" and "json_law J" and "server_ok lit J stored others s"
    and "\<And>key v ttl. ev = OtherWrite key v ttl \<Longrightarrow> v \<in> others key"
  shows "server_ok lit J stored others (api_step lit R J cache_ptr ev s)"
proof (cases ev)
  case (GetCandlesOf poolID tf)
  obtain w' resp seeds where h: "candlesHandler lit R J cache_ptr poolID tf (sv_world s) = (w', resp, seeds)"
    by (metis prod.exhaust)
  then show ?thesis
    using assms(3) candlesHandler_own [OF assms(1) _ h, of others]
    by (simp add: GetCandlesOf api_step_def server_ok_def)
next
  case (RunSeed n)
  show ?thesis
  proof (cases "n < length (sv_seeds s)")
    case True
    obtain poolID tf cs where seed: "sv_seeds s ! n = (poolID, tf, cs)" by (metis prod.exhaust)
    then have "own_seed lit J others (poolID, tf, cs)"
      using assms(3) True by (metis server_ok_def list_all_length)
    moreover have "list_all (own_seed lit J others) (take n (sv_seeds s) @ drop (Suc n) (sv_seeds s))"
      using assms(3) by (auto simp: server_ok_def list_all_iff dest: in_set_takeD in_set_dropD)
    ultimately show ?thesis
      using assms(3) SetCandles_own [OF assms(1,2)] True seed by (simp add: RunSeed api_step_def server_ok_def)
  qed (use assms(3) in \<open>simp add: RunSeed api_step_def\<close>)
next
  case (OtherWrite key v ttl)
  then show ?thesis
    using assms(3) OtherWrite_own [where w = "sv_world s" and others = others and lit = lit and J = J and ttl = ttl,
        OF assms(1) _ assms(4) [OF OtherWrite]]
    by (simp add: api_step_def server_ok_def)
qed (use assms(3) in \<open>simp_all add: api_step_def server_ok_def own_response_def healthzHandler_def poolHandler_def\<close>)

definition foreign_values :: "(string \<Rightarrow> string option) \<Rightarrow> api_event list \<Rightarrow> string \<Rightarrow> string set" where
  "foreign_values at_start evs key = set_option (at_start key) \<union> {v. \<exists>ttl. OtherWrite key v ttl \<in> set evs}"

lemma api_run_ok:
  assumes "redis_law R stored" and "json_law J"
  shows "server_ok lit J stored (foreign_values (stored w) evs) (api_run lit R J cache_ptr evs w)"
proof -
  let ?others = "foreign_values (stored w) evs"
  have "server_ok lit J stored ?others (fold (api_step lit R J cache_ptr) es s)"
    if "server_ok lit J stored ?others s" and "set es \<subseteq> set evs" for s es
    using that
  proof (induction es arbitrary: s)
    case (Cons e es)
    have "v \<in> ?others key" if "e = OtherWrite key v ttl" for key v ttl
      using Cons.prems(2) that by (auto simp: foreign_values_def)
    then have "server_ok lit J stored ?others (api_step lit R J cache_ptr e s)"
      using Cons.prems(1) by (intro api_step_ok [OF assms])
    with Cons show ?case by simp
  qed simp
  moreover have "server_ok lit J stored ?others \<lparr>sv_world = w, sv_seeds = [], sv_served = []\<rparr>"
    by (auto simp: server_ok_def own_content_def own_series_def foreign_values_def)
  ultimately show ?thesis by (simp add: api_run_def)
qed

text \<open>What a request on the candle route is answered with.\<close>

lemma candlesHandler_status:
  "candlesHandler lit R J cache_ptr poolID tf w = (w', resp, seeds) \<Longrightarrow>
     (case resp of
        BadRequest err \<Rightarrow> ValidateTimeframe tf = Some err \<and> w' = w \<and> seeds = []
      | CandlesOK r \<Rightarrow> ValidateTimeframe tf = None \<and> cr_PoolID r = poolID \<and> cr_Timeframe r = tf
      | InternalServerError _ \<Rightarrow> ValidateTimeframe tf = None \<and> seeds = []
      | _ \<Rightarrow> False)"
  by (auto simp: candlesHandler_def Let_def split: option.splits prod.splits sum.splits cache_error.splits if_splits)

section \<open>Properties\<close>

text \<open>(C24) The API serves each pool its own series: whatever the requests, the interleaving of the
  goroutines that fill the cache, the failures and expirations of Redis and the writes of its other
  clients, candles that are served for a pool and timeframe are for a supported timeframe and are the
  built-in stub of that timeframe, or decode from a value that Redis held under the key of exactly that
  pool and timeframe when the server started or that another client wrote under this key.\<close>

theorem api_serves_own_series:
  assumes "redis_law R stored" and "json_law J"
    and "CandlesOK r \<in> set (sv_served (api_run lit R J cache_ptr evs w))"
  shows "cr_Timeframe r \<in> set (SupportedTimeframes id) \<and>
     (cr_Candles r = stubCandles lit (cr_Timeframe r) \<or>
      (\<exists>v. (stored w (cache_key (cr_PoolID r) (cr_Timeframe r)) = Some v \<or>
          (\<exists>ttl. OtherWrite (cache_key (cr_PoolID r) (cr_Timeframe r)) v ttl \<in> set evs)) \<and>
        js_Unmarshal J v = Some (Some (cr_Candles r))))"
proof -
  have "own_response lit J (foreign_values (stored w) evs) (CandlesOK r)"
    using api_run_ok [OF assms(1,2)] assms(3) by (metis server_ok_def list_all_iff)
  then have series: "own_series lit J (foreign_values (stored w) evs) (cr_PoolID r) (cr_Timeframe r) (cr_Candles r)"
    and "cr_Timeframe r \<in> set (SupportedTimeframes id)"
    by (auto simp: own_response_def ValidateTimeframe_def SupportedTimeframes_def map_get_def
        dest: map_of_SomeD split: if_splits option.splits intro!: image_eqI)
  then show ?thesis by (auto simp: own_series_def foreign_values_def)
qed

text \<open>The property at a Redis that keeps everything, a codec of two series, and a server that answers
  one request from the stub and one from what Redis held.\<close>

definition memory_redis :: "(string \<Rightarrow> string option) Redis" where
  "memory_redis = \<lparr>rd_Get = (\<lambda>k w. (w, case w k of None \<Rightarrow> RedisNil | Some v \<Rightarrow> RedisValue v)),
     rd_Set = (\<lambda>k v ttl w. (w(k := Some v), False))\<rparr>"

definition sample_json :: "nat Json" where
  "sample_json = \<lparr>js_Marshal = (\<lambda>cs. if cs = Some [] then Some ''[]'' else if cs = Some (stubCandles (\<lambda>_. 0) ''1m'') then Some ''stub'' else None),
     js_Unmarshal = (\<lambda>v. if v = ''[]'' then Some (Some []) else if v = ''stub'' then Some (Some (stubCandles (\<lambda>_. 0) ''1m'')) else None)\<rparr>"

definition sample_cache :: ApiCache where
  "sample_cache = ApiCache_New \<lparr>rc_Enabled = True, rc_Addr = ''a'', rc_Password = [], rc_DB = 0, rc_TTL = 1\<rparr>"

theorem api_serves_own_series_witness:
  "let evs = [GetCandlesOf ''p'' ''1m'', RunSeed 0, OtherWrite (cache_key ''p'' ''5m'') ''stub'' 1, GetCandlesOf ''p'' ''1h''];
       w = (\<lambda>k. if k = cache_key ''p'' ''1h'' then Some ''[]'' else None);
       served = sv_served (api_run (\<lambda>_. 0) memory_redis sample_json (Some sample_cache) evs w);
       r = \<lparr>cr_PoolID = ''p'', cr_Timeframe = ''1h'', cr_Candles = []\<rparr>
   in redis_law memory_redis (\<lambda>w. w) \<and> json_law sample_json \<and> CandlesOK r \<in> set served \<and>
      cr_Timeframe r \<in> set (SupportedTimeframes id)"
proof -
  define w where "w = (\<lambda>k. if k = cache_key ''p'' ''1h'' then Some ''[]'' else None)"
  define r :: "nat CandlesResponse" where "r = \<lparr>cr_PoolID = ''p'', cr_Timeframe = ''1h'', cr_Candles = []\<rparr>"
  have redis: "redis_law memory_redis (\<lambda>w. w)"
    by (auto simp: redis_law_def memory_redis_def split: option.splits)
  have json: "json_law sample_json"
    by (auto simp: json_law_def sample_json_def stubCandles_def)
  have served: "CandlesOK r \<in> set (sv_served (api_run (\<lambda>_. 0) memory_redis sample_json (Some sample_cache)
      [GetCandlesOf ''p'' ''1m'', RunSeed 0, OtherWrite (cache_key ''p'' ''5m'') ''stub'' 1, GetCandlesOf ''p'' ''1h''] w))"
    by (simp add: api_run_def api_step_def candlesHandler_def GetCandles_def SetCandles_def ValidateTimeframe_def
        supportedTimeframes_def map_get_def sample_cache_def ApiCache_New_def memory_redis_def sample_json_def
        cache_key_def w_def r_def Let_def)
  from api_serves_own_series [OF redis json served] redis json served show ?thesis
    unfolding Let_def w_def [symmetric] r_def [symmetric] by simp
qed

end
