(* ===== verification/ClickHouse.thy ===== *)
theory ClickHouse
  imports Publisher "HOL-Library.Sublist"
begin

text \<open>
  The ClickHouse sink: \<open>sinks/clickhouse/config.go\<close>, \<open>writer.go\<close> and \<open>service.go\<close>. The writer
  collects trades and candles in columns and sends a batch when it is full or on \<open>Flush\<close>; the
  service reads messages of the stream, turns swaps into trades and acknowledges them.

  Parameters stand for code outside the repository: \<open>url.Parse\<close>, the answers of \<open>ch.Dial\<close> and
  \<open>client.Do\<close>, the decimal conversion of \<open>ch-go\<close> and \<open>proto.Unmarshal\<close>. A column of \<open>ch-go\<close> is
  the list of the values appended to it.
\<close>

section \<open>config.go\<close>

record ChConfig =
  chc_DSN :: string
  chc_Database :: string
  chc_TradesTable :: string
  chc_CandlesTable :: string
  chc_BatchSize :: int
  chc_FlushInterval :: duration
  chc_MaxRetries :: int
  chc_RetryBackoffBase :: duration
  chc_RetryBackoffMax :: duration

record ChServiceConfig =
  chs_NATSURL :: string
  chs_Stream :: string
  chs_SubjectRoot :: string
  chs_Consumer :: string
  chs_PullBatch :: int
  chs_PullTimeout :: duration
  chs_Writer :: ChConfig

datatype ch_config_error =
    ChNatsURLRequired | ChStreamRequired | ChSubjectRootRequired | ChConsumerRequired
  | ChPullBatchNotPositive | ChPullTimeoutNotPositive
  | ChDSNRequired | ChDatabaseRequired | ChTradesTableRequired | ChCandlesTableRequired
  | ChBatchSizeNotPositive | ChMaxRetriesNegative
  | ChInvalidEnv string string

definition validateConfig :: "ChConfig \<Rightarrow> ch_config_error option" where
  "validateConfig cfg =
     (if chc_DSN cfg = [] then Some ChDSNRequired
      else if chc_Database cfg = [] then Some ChDatabaseRequired
      else if chc_TradesTable cfg = [] then Some ChTradesTableRequired
      else if chc_CandlesTable cfg = [] then Some ChCandlesTableRequired
      else if chc_BatchSize cfg \<le> 0 then Some ChBatchSizeNotPositive
      else if chc_MaxRetries cfg < 0 then Some ChMaxRetriesNegative
      else None)"

definition ChService_Validate :: "ChServiceConfig \<Rightarrow> ch_config_error option" where
  "ChService_Validate c =
     (if chs_NATSURL c = [] then Some ChNatsURLRequired
      else if chs_Stream c = [] then Some ChStreamRequired
      else if chs_SubjectRoot c = [] then Some ChSubjectRootRequired
      else if chs_Consumer c = [] then Some ChConsumerRequired
      else if chs_PullBatch c \<le> 0 then Some ChPullBatchNotPositive
      else if chs_PullTimeout c \<le>s 0 then Some ChPullTimeoutNotPositive
      else validateConfig (chs_Writer c))"

definition valueOrDefault :: "string \<Rightarrow> string \<Rightarrow> string" where
  "valueOrDefault value fallback = (if value = [] then fallback else value)"

text \<open>One optional integer variable: the guard of the code, the update, or the error.\<close>

definition env_int ::
  "environ \<Rightarrow> string \<Rightarrow> (int \<Rightarrow> bool) \<Rightarrow> (int \<Rightarrow> 'c \<Rightarrow> 'c) \<Rightarrow> ch_config_error + 'c \<Rightarrow> ch_config_error + 'c" where
  "env_int env name ok upd r =
     (case r of Inl err \<Rightarrow> Inl err | Inr cfg \<Rightarrow>
      if env name = [] then Inr cfg
      else case strconv_Atoi (env name) of
        Inl _ \<Rightarrow> Inl (ChInvalidEnv name (env name))
      | Inr n \<Rightarrow> if ok n then Inr (upd n cfg) else Inl (ChInvalidEnv name (env name)))"

definition millis :: "int \<Rightarrow> duration" where
  "millis ms = word_of_int ms * time_Millisecond"

definition upd_writer :: "(ChConfig \<Rightarrow> ChConfig) \<Rightarrow> ChServiceConfig \<Rightarrow> ChServiceConfig" where
  "upd_writer f cfg = cfg\<lparr>chs_Writer := f (chs_Writer cfg)\<rparr>"

definition ServiceConfigFromEnv :: "environ \<Rightarrow> ch_config_error + ChServiceConfig" where
  "ServiceConfigFromEnv env =
     (let cfg = \<lparr>chs_NATSURL = env ''CH_SINK_NATS_URL'', chs_Stream = env ''CH_SINK_NATS_STREAM'',
            chs_SubjectRoot = valueOrDefault (env ''CH_SINK_SUBJECT_ROOT'') ''dex.sol'',
            chs_Consumer = valueOrDefault (env ''CH_SINK_CONSUMER'') ''clickhouse-sink'',
            chs_PullBatch = 256, chs_PullTimeout = 500 * time_Millisecond,
            chs_Writer = \<lparr>chc_DSN = [], chc_Database = [], chc_TradesTable = [], chc_CandlesTable = [],
              chc_BatchSize = 512, chc_FlushInterval = 1 * time_Second, chc_MaxRetries = 3,
              chc_RetryBackoffBase = 200 * time_Millisecond, chc_RetryBackoffMax = 5 * time_Second\<rparr>\<rparr>;
          r1 = env_int env ''CH_SINK_PULL_BATCH'' (\<lambda>n. n > 0) (\<lambda>n c. c\<lparr>chs_PullBatch := n\<rparr>) (Inr cfg);
          r2 = env_int env ''CH_SINK_PULL_TIMEOUT_MS'' (\<lambda>n. n > 0) (\<lambda>n c. c\<lparr>chs_PullTimeout := millis n\<rparr>) r1;
          r3 = env_int env ''CH_SINK_FLUSH_INTERVAL_MS'' (\<lambda>n. n > 0)
                 (\<lambda>n. upd_writer (\<lambda>w. w\<lparr>chc_FlushInterval := millis n\<rparr>)) r2;
          r4 = map_sum id (upd_writer (\<lambda>w. w\<lparr>
                 chc_DSN := valueOrDefault (env ''CH_SINK_DSN'') (chc_DSN w),
                 chc_Database := valueOrDefault (env ''CH_SINK_DATABASE'') (chc_Database w),
                 chc_TradesTable := valueOrDefault (env ''CH_SINK_TRADES_TABLE'') (chc_TradesTable w),
                 chc_CandlesTable := valueOrDefault (env ''CH_SINK_CANDLES_TABLE'') (chc_CandlesTable w)\<rparr>)) r3;
          r5 = env_int env ''CH_SINK_BATCH_SIZE'' (\<lambda>n. n > 0) (\<lambda>n. upd_writer (\<lambda>w. w\<lparr>chc_BatchSize := n\<rparr>)) r4;
          r6 = env_int env ''CH_SINK_MAX_RETRIES'' (\<lambda>n. n \<ge> 0) (\<lambda>n. upd_writer (\<lambda>w. w\<lparr>chc_MaxRetries := n\<rparr>)) r5;
          r7 = env_int env ''CH_SINK_RETRY_BACKOFF_MS'' (\<lambda>n. n \<ge> 0)
                 (\<lambda>n. upd_writer (\<lambda>w. w\<lparr>chc_RetryBackoffBase := millis n\<rparr>)) r6;
          r8 = env_int env ''CH_SINK_RETRY_BACKOFF_MAX_MS'' (\<lambda>n. n \<ge> 0)
                 (\<lambda>n. upd_writer (\<lambda>w. w\<lparr>chc_RetryBackoffMax := millis n\<rparr>)) r7
      in case r8 of
           Inl err \<Rightarrow> Inl err
         | Inr c \<Rightarrow> (case ChService_Validate c of Some err \<Rightarrow> Inl err | None \<Rightarrow> Inr c))"

section \<open>writer.go: connecting\<close>

text \<open>The parts of a parsed URL the code reads, and the options it hands to \<open>ch.Dial\<close>.\<close>

record url_parts =
  url_Scheme :: string
  url_Host :: string
  url_User :: "(string \<times> string option) option"
  url_Path :: string
  url_compression :: string

datatype compression = CompressionDisabled | CompressionLZ4 | CompressionNone

record ch_options =
  co_Address :: string
  co_User :: string
  co_Password :: string
  co_Database :: string
  co_Compression :: compression

datatype ch_connect_error =
    InvalidDSN | MissingScheme | InvalidScheme string
  | RetryCancelled | RetriesExhausted int

definition parseDSN :: "(string \<Rightarrow> url_parts option) \<Rightarrow> string \<Rightarrow> ch_connect_error + ch_options" where
  "parseDSN url_Parse dsn =
     (case url_Parse dsn of None \<Rightarrow> Inl InvalidDSN | Some u \<Rightarrow>
      let scheme = ToLower (url_Scheme u) in
      if scheme = [] then Inl MissingScheme
      else if scheme \<noteq> ''clickhouse'' \<and> scheme \<noteq> ''tcp'' then Inl (InvalidScheme (url_Scheme u))
      else Inr \<lparr>co_Address = url_Host u,
        co_User = (case url_User u of None \<Rightarrow> [] | Some (name, _) \<Rightarrow> name),
        co_Password = (case url_User u of Some (_, Some password) \<Rightarrow> password | _ \<Rightarrow> []),
        co_Database = (if length (url_Path u) > 1 then tl (url_Path u) else []),
        co_Compression = (if url_compression u = ''lz4'' then CompressionLZ4
          else if url_compression u = ''none'' then CompressionNone else CompressionDisabled)\<rparr>)"

text \<open>
  The retry loop. \<open>dial i\<close> is the answer to the attempt number \<open>i\<close> and \<open>cancelled i\<close> says that
  the context ends during the wait after it; the second component lists the waits that were
  completed.
\<close>

definition next_backoff :: "duration \<Rightarrow> duration \<Rightarrow> duration" where
  "next_backoff maxBackoff backoff =
     (let doubled = backoff * 2 in if maxBackoff <s doubled then maxBackoff else doubled)"

function connect_loop ::
  "(int \<Rightarrow> 'c option) \<Rightarrow> (int \<Rightarrow> bool) \<Rightarrow> int \<Rightarrow> duration \<Rightarrow> int \<Rightarrow> duration \<Rightarrow> duration list \<Rightarrow>
   (ch_connect_error + 'c) \<times> duration list" where
  "connect_loop dial cancelled maxRetries maxBackoff attempt backoff waits =
     (if attempt > maxRetries then (Inl (RetriesExhausted maxRetries), waits)
      else case dial attempt of
        Some client \<Rightarrow> (Inr client, waits)
      | None \<Rightarrow>
          if attempt < maxRetries then
            (if cancelled attempt then (Inl RetryCancelled, waits)
             else connect_loop dial cancelled maxRetries maxBackoff (attempt + 1)
                    (next_backoff maxBackoff backoff) (waits @ [backoff]))
          else connect_loop dial cancelled maxRetries maxBackoff (attempt + 1) backoff waits)"
  by pat_completeness auto
termination
  by (relation "measure (\<lambda>(_, _, maxRetries, _, attempt, _, _). nat (maxRetries + 1 - attempt))") auto

declare connect_loop.simps [simp del]

definition initial_backoff :: "ChConfig \<Rightarrow> duration" where
  "initial_backoff cfg =
     (if chc_RetryBackoffBase cfg = 0 then 100 * time_Millisecond else chc_RetryBackoffBase cfg)"

definition initial_maxBackoff :: "ChConfig \<Rightarrow> duration" where
  "initial_maxBackoff cfg =
     (if chc_RetryBackoffMax cfg = 0 then 10 * time_Second else chc_RetryBackoffMax cfg)"

definition connectWithRetry ::
  "(string \<Rightarrow> url_parts option) \<Rightarrow> (ch_options \<Rightarrow> int \<Rightarrow> 'c option) \<Rightarrow> (int \<Rightarrow> bool) \<Rightarrow> ChConfig \<Rightarrow>
   (ch_connect_error + 'c) \<times> duration list" where
  "connectWithRetry url_Parse dial cancelled cfg =
     (case parseDSN url_Parse (chc_DSN cfg) of
        Inl err \<Rightarrow> (Inl err, [])
      | Inr parsed \<Rightarrow>
          connect_loop (dial (parsed\<lparr>co_Database := chc_Database cfg\<rparr>)) cancelled (chc_MaxRetries cfg)
            (initial_maxBackoff cfg) 0 (initial_backoff cfg) [])"

section \<open>writer.go: batches\<close>

record Trade =
  tr_ChainID :: u16
  tr_Slot :: u64
  tr_Timestamp :: gotime
  tr_Signature :: string
  tr_Index :: u32
  tr_ProgramID :: string
  tr_PoolID :: string
  tr_MintBase :: string
  tr_MintQuote :: string
  tr_DecBase :: u8
  tr_DecQuote :: u8
  tr_BaseIn :: u64
  tr_BaseOut :: u64
  tr_QuoteIn :: u64
  tr_QuoteOut :: u64
  tr_PriceQ32 :: i64
  tr_ReservesBase :: u64
  tr_ReservesQuote :: u64
  tr_FeeBps :: u16
  tr_Provisional :: bool
  tr_IsUndo :: bool

record 'f ChCandle =
  cc_Timestamp :: gotime
  cc_PoolID :: string
  cc_Open :: 'f
  cc_High :: 'f
  cc_Low :: 'f
  cc_Close :: 'f
  cc_Volume :: 'f

record 'd tradeBatch =
  tb_chainIDs :: "u16 list"
  tb_slots :: "u64 list"
  tb_timestamps :: "gotime list"
  tb_signatures :: "string list"
  tb_indices :: "u32 list"
  tb_programIDs :: "string list"
  tb_pools :: "string list"
  tb_mintBase :: "string list"
  tb_mintQuote :: "string list"
  tb_decBase :: "u8 list"
  tb_decQuote :: "u8 list"
  tb_baseIn :: "'d list"
  tb_baseOut :: "'d list"
  tb_quoteIn :: "'d list"
  tb_quoteOut :: "'d list"
  tb_priceQ32 :: "i64 list"
  tb_reservesBase :: "'d list"
  tb_reservesQuote :: "'d list"
  tb_feeBps :: "u16 list"
  tb_provisional :: "u8 list"
  tb_isUndo :: "u8 list"
  tb_count :: int

record 'f candleBatch =
  cb_timestamps :: "gotime list"
  cb_poolIDs :: "string list"
  cb_opens :: "'f list"
  cb_highs :: "'f list"
  cb_lows :: "'f list"
  cb_closes :: "'f list"
  cb_volumes :: "'f list"
  cb_count :: int

definition empty_trades :: "'d tradeBatch" where
  "empty_trades = \<lparr>tb_chainIDs = [], tb_slots = [], tb_timestamps = [], tb_signatures = [],
     tb_indices = [], tb_programIDs = [], tb_pools = [], tb_mintBase = [], tb_mintQuote = [],
     tb_decBase = [], tb_decQuote = [], tb_baseIn = [], tb_baseOut = [], tb_quoteIn = [],
     tb_quoteOut = [], tb_priceQ32 = [], tb_reservesBase = [], tb_reservesQuote = [],
     tb_feeBps = [], tb_provisional = [], tb_isUndo = [], tb_count = 0\<rparr>"

definition empty_candles :: "'f candleBatch" where
  "empty_candles = \<lparr>cb_timestamps = [], cb_poolIDs = [], cb_opens = [], cb_highs = [],
     cb_lows = [], cb_closes = [], cb_volumes = [], cb_count = 0\<rparr>"

definition flag :: "bool \<Rightarrow> u8" where
  "flag b = (if b then 1 else 0)"

definition append_trade :: "(u64 \<Rightarrow> 'd) \<Rightarrow> Trade \<Rightarrow> 'd tradeBatch \<Rightarrow> 'd tradeBatch" where
  "append_trade decimal128FromUint64 trade b =
     \<lparr>tb_chainIDs = tb_chainIDs b @ [tr_ChainID trade],
      tb_slots = tb_slots b @ [tr_Slot trade],
      tb_timestamps = tb_timestamps b @ [tr_Timestamp trade],
      tb_signatures = tb_signatures b @ [tr_Signature trade],
      tb_indices = tb_indices b @ [tr_Index trade],
      tb_programIDs = tb_programIDs b @ [tr_ProgramID trade],
      tb_pools = tb_pools b @ [tr_PoolID trade],
      tb_mintBase = tb_mintBase b @ [tr_MintBase trade],
      tb_mintQuote = tb_mintQuote b @ [tr_MintQuote trade],
      tb_decBase = tb_decBase b @ [tr_DecBase trade],
      tb_decQuote = tb_decQuote b @ [tr_DecQuote trade],
      tb_baseIn = tb_baseIn b @ [decimal128FromUint64 (tr_BaseIn trade)],
      tb_baseOut = tb_baseOut b @ [decimal128FromUint64 (tr_BaseOut trade)],
      tb_quoteIn = tb_quoteIn b @ [decimal128FromUint64 (tr_QuoteIn trade)],
      tb_quoteOut = tb_quoteOut b @ [decimal128FromUint64 (tr_QuoteOut trade)],
      tb_priceQ32 = tb_priceQ32 b @ [tr_PriceQ32 trade],
      tb_reservesBase = tb_reservesBase b @ [decimal128FromUint64 (tr_ReservesBase trade)],
      tb_reservesQuote = tb_reservesQuote b @ [decimal128FromUint64 (tr_ReservesQuote trade)],
      tb_feeBps = tb_feeBps b @ [tr_FeeBps trade],
      tb_provisional = tb_provisional b @ [flag (tr_Provisional trade)],
      tb_isUndo = tb_isUndo b @ [flag (tr_IsUndo trade)],
      tb_count = tb_count b + 1\<rparr>"

definition append_candle :: "'f ChCandle \<Rightarrow> 'f candleBatch \<Rightarrow> 'f candleBatch" where
  "append_candle candle b =
     \<lparr>cb_timestamps = cb_timestamps b @ [cc_Timestamp candle],
      cb_poolIDs = cb_poolIDs b @ [cc_PoolID candle],
      cb_opens = cb_opens b @ [cc_Open candle],
      cb_highs = cb_highs b @ [cc_High candle],
      cb_lows = cb_lows b @ [cc_Low candle],
      cb_closes = cb_closes b @ [cc_Close candle],
      cb_volumes = cb_volumes b @ [cc_Volume candle],
      cb_count = cb_count b + 1\<rparr>"

text \<open>An insert names its columns; a column is a typed list of values.\<close>

datatype ('d, 'f) column =
    ColUInt8 "u8 list" | ColUInt16 "u16 list" | ColUInt32 "u32 list" | ColUInt64 "u64 list"
  | ColInt64 "i64 list" | ColDateTime64 "gotime list" | ColStr "string list"
  | ColDecimal128 "'d list" | ColFloat64 "'f list"

type_synonym ('d, 'f) ch_input = "(string \<times> ('d, 'f) column) list"

record ('d, 'f) ch_query =
  q_Body :: string
  q_Input :: "('d, 'f) ch_input"

definition trades_input :: "'d tradeBatch \<Rightarrow> ('d, 'f) ch_input" where
  "trades_input b =
     [(''chain_id'', ColUInt16 (tb_chainIDs b)), (''slot'', ColUInt64 (tb_slots b)),
      (''ts'', ColDateTime64 (tb_timestamps b)), (''sig'', ColStr (tb_signatures b)),
      (''idx'', ColUInt32 (tb_indices b)), (''program_id'', ColStr (tb_programIDs b)),
      (''pool_id'', ColStr (tb_pools b)), (''mint_base'', ColStr (tb_mintBase b)),
      (''mint_quote'', ColStr (tb_mintQuote b)), (''dec_base'', ColUInt8 (tb_decBase b)),
      (''dec_quote'', ColUInt8 (tb_decQuote b)), (''base_in'', ColDecimal128 (tb_baseIn b)),
      (''base_out'', ColDecimal128 (tb_baseOut b)), (''quote_in'', ColDecimal128 (tb_quoteIn b)),
      (''quote_out'', ColDecimal128 (tb_quoteOut b)), (''price_q32'', ColInt64 (tb_priceQ32 b)),
      (''reserves_base'', ColDecimal128 (tb_reservesBase b)),
      (''reserves_quote'', ColDecimal128 (tb_reservesQuote b)),
      (''fee_bps'', ColUInt16 (tb_feeBps b)), (''provisional'', ColUInt8 (tb_provisional b)),
      (''is_undo'', ColUInt8 (tb_isUndo b))]"

definition candles_input :: "'f candleBatch \<Rightarrow> ('d, 'f) ch_input" where
  "candles_input b =
     [(''timestamp'', ColDateTime64 (cb_timestamps b)), (''pool_id'', ColStr (cb_poolIDs b)),
      (''open'', ColFloat64 (cb_opens b)), (''high'', ColFloat64 (cb_highs b)),
      (''low'', ColFloat64 (cb_lows b)), (''close'', ColFloat64 (cb_closes b)),
      (''volume'', ColFloat64 (cb_volumes b))]"

text \<open>
  The writer, and the queries it has sent with their outcome (\<open>True\<close>: no error). \<open>client_Do\<close>
  decides the outcome of a query from everything sent before it.
\<close>

record ('d, 'f) Writer =
  w_config :: ChConfig
  w_tradesBatch :: "'d tradeBatch"
  w_candlesBatch :: "'f candleBatch"

type_synonym ('d, 'f) ch_trace = "(('d, 'f) ch_query \<times> bool) list"

type_synonym ('d, 'f) ch_client = "('d, 'f) ch_trace \<Rightarrow> ('d, 'f) ch_query \<Rightarrow> bool"

datatype ch_write_error = FlushTradesFailed | FlushCandlesFailed | CloseFailed

definition new_writer :: "ChConfig \<Rightarrow> ('d, 'f) Writer" where
  "new_writer cfg = \<lparr>w_config = cfg, w_tradesBatch = empty_trades, w_candlesBatch = empty_candles\<rparr>"

datatype ch_new_error = InvalidChConfig ch_config_error | ConnectFailed ch_connect_error

definition NewWithConfig ::
  "(string \<Rightarrow> url_parts option) \<Rightarrow> (ch_options \<Rightarrow> int \<Rightarrow> 'c option) \<Rightarrow> (int \<Rightarrow> bool) \<Rightarrow> ChConfig \<Rightarrow>
   ch_new_error + ('c \<times> ('d, 'f) Writer)" where
  "NewWithConfig url_Parse dial cancelled cfg =
     (case validateConfig cfg of Some err \<Rightarrow> Inl (InvalidChConfig err) | None \<Rightarrow>
      case fst (connectWithRetry url_Parse dial cancelled cfg) of
        Inl err \<Rightarrow> Inl (ConnectFailed err)
      | Inr client \<Rightarrow> Inr (client, new_writer cfg))"

type_synonym ('d, 'f) writer_world = "('d, 'f) Writer \<times> ('d, 'f) ch_trace"

definition flushTrades ::
  "('d, 'f) ch_client \<Rightarrow> ('d, 'f) writer_world \<Rightarrow> ('d, 'f) writer_world \<times> ch_write_error option" where
  "flushTrades client_Do s =
     (case s of (w, trace) \<Rightarrow>
      if tb_count (w_tradesBatch w) = 0 then ((w, trace), None)
      else let query = \<lparr>q_Body = ''INSERT INTO '' @ chc_TradesTable (w_config w) @ '' VALUES'',
                        q_Input = trades_input (w_tradesBatch w)\<rparr>;
               done_ok = client_Do trace query;
               trace' = trace @ [(query, done_ok)]
           in if \<not> done_ok then ((w, trace'), Some FlushTradesFailed)
              else ((w\<lparr>w_tradesBatch := empty_trades\<rparr>, trace'), None))"

definition flushCandles ::
  "('d, 'f) ch_client \<Rightarrow> ('d, 'f) writer_world \<Rightarrow> ('d, 'f) writer_world \<times> ch_write_error option" where
  "flushCandles client_Do s =
     (case s of (w, trace) \<Rightarrow>
      if cb_count (w_candlesBatch w) = 0 then ((w, trace), None)
      else let query = \<lparr>q_Body = ''INSERT INTO '' @ chc_CandlesTable (w_config w) @ '' VALUES'',
                        q_Input = candles_input (w_candlesBatch w)\<rparr>;
               done_ok = client_Do trace query;
               trace' = trace @ [(query, done_ok)]
           in if \<not> done_ok then ((w, trace'), Some FlushCandlesFailed)
              else ((w\<lparr>w_candlesBatch := empty_candles\<rparr>, trace'), None))"

definition write_trade ::
  "(u64 \<Rightarrow> 'd) \<Rightarrow> ('d, 'f) ch_client \<Rightarrow> ('d, 'f) writer_world \<Rightarrow> Trade \<Rightarrow>
   ('d, 'f) writer_world \<times> ch_write_error option" where
  "write_trade decimal128FromUint64 client_Do s trade =
     (case s of (w, trace) \<Rightarrow>
      let w1 = w\<lparr>w_tradesBatch := append_trade decimal128FromUint64 trade (w_tradesBatch w)\<rparr>
      in if tb_count (w_tradesBatch w1) \<ge> chc_BatchSize (w_config w1)
         then flushTrades client_Do (w1, trace) else ((w1, trace), None))"

definition WriteTrades ::
  "(u64 \<Rightarrow> 'd) \<Rightarrow> ('d, 'f) ch_client \<Rightarrow> ('d, 'f) writer_world \<Rightarrow> Trade list \<Rightarrow>
   ('d, 'f) writer_world \<times> ch_write_error option" where
  "WriteTrades decimal128FromUint64 client_Do s trades =
     first_err (write_trade decimal128FromUint64 client_Do) s trades"

definition write_candle ::
  "('d, 'f) ch_client \<Rightarrow> ('d, 'f) writer_world \<Rightarrow> 'f ChCandle \<Rightarrow>
   ('d, 'f) writer_world \<times> ch_write_error option" where
  "write_candle client_Do s candle =
     (case s of (w, trace) \<Rightarrow>
      let w1 = w\<lparr>w_candlesBatch := append_candle candle (w_candlesBatch w)\<rparr>
      in if cb_count (w_candlesBatch w1) \<ge> chc_BatchSize (w_config w1)
         then flushCandles client_Do (w1, trace) else ((w1, trace), None))"

definition WriteCandles ::
  "('d, 'f) ch_client \<Rightarrow> ('d, 'f) writer_world \<Rightarrow> 'f ChCandle list \<Rightarrow>
   ('d, 'f) writer_world \<times> ch_write_error option" where
  "WriteCandles client_Do s candles = first_err (write_candle client_Do) s candles"

definition Flush ::
  "('d, 'f) ch_client \<Rightarrow> ('d, 'f) writer_world \<Rightarrow> ('d, 'f) writer_world \<times> ch_write_error option" where
  "Flush client_Do s =
     (case flushTrades client_Do s of
        (s', Some err) \<Rightarrow> (s', Some err)
      | (s', None) \<Rightarrow> flushCandles client_Do s')"

definition Writer_Close ::
  "('d, 'f) ch_client \<Rightarrow> bool \<Rightarrow> ('d, 'f) writer_world \<Rightarrow> ('d, 'f) writer_world \<times> ch_write_error option" where
  "Writer_Close client_Do close_ok s =
     (case Flush client_Do s of
        (s', Some err) \<Rightarrow> (s', Some err)
      | (s', None) \<Rightarrow> (s', if close_ok then None else Some CloseFailed))"

section \<open>Rows of a table\<close>

text \<open>
  What the database receives is a table: row \<open>i\<close> takes the \<open>i\<close>-th value of every column. The
  columns of one insert must have the same length.
\<close>

datatype ('d, 'f) cell =
    CUInt8 u8 | CUInt16 u16 | CUInt32 u32 | CUInt64 u64 | CInt64 i64 | CDateTime64 gotime
  | CStr string | CDecimal128 'd | CFloat64 'f

fun column_cells :: "('d, 'f) column \<Rightarrow> ('d, 'f) cell list" where
  "column_cells (ColUInt8 xs) = map CUInt8 xs"
| "column_cells (ColUInt16 xs) = map CUInt16 xs"
| "column_cells (ColUInt32 xs) = map CUInt32 xs"
| "column_cells (ColUInt64 xs) = map CUInt64 xs"
| "column_cells (ColInt64 xs) = map CInt64 xs"
| "column_cells (ColDateTime64 xs) = map CDateTime64 xs"
| "column_cells (ColStr xs) = map CStr xs"
| "column_cells (ColDecimal128 xs) = map CDecimal128 xs"
| "column_cells (ColFloat64 xs) = map CFloat64 xs"

type_synonym ('d, 'f) row = "(string \<times> ('d, 'f) cell) list"

definition input_length :: "('d, 'f) ch_input \<Rightarrow> nat" where
  "input_length input = (case input of [] \<Rightarrow> 0 | (_, c) # _ \<Rightarrow> length (column_cells c))"

definition input_rows :: "('d, 'f) ch_input \<Rightarrow> ('d, 'f) row list" where
  "input_rows input =
     map (\<lambda>i. map (\<lambda>(name, c). (name, column_cells c ! i)) input) [0..<input_length input]"

definition rectangular :: "('d, 'f) ch_input \<Rightarrow> bool" where
  "rectangular input \<longleftrightarrow> list_all (\<lambda>(_, c). length (column_cells c) = input_length input) input"

definition table_rows :: "string list \<Rightarrow> ('d, 'f) ch_trace \<Rightarrow> ('d, 'f) row list" where
  "table_rows names trace =
     concat (map (\<lambda>(q, done_ok). if done_ok \<and> map fst (q_Input q) = names then input_rows (q_Input q) else []) trace)"

lemma table_rows_append [simp]: "table_rows names (xs @ ys) = table_rows names xs @ table_rows names ys"
  by (simp add: table_rows_def)

lemma table_rows_one [simp]:
  "table_rows names [(q, done_ok)] = (if done_ok \<and> map fst (q_Input q) = names then input_rows (q_Input q) else [])"
  by (simp add: table_rows_def)

lemma table_rows_Nil [simp]: "table_rows names [] = []"
  by (simp add: table_rows_def)

text \<open>
  What the writer relies on for each of its two batches: the batch stands for a list of records
  (\<open>holding xs\<close>), appending adds one, and the columns of an insert are the rows of these records.
\<close>

locale column_batch =
  fixes holding :: "'x list \<Rightarrow> 'b" and none :: 'b and add :: "'x \<Rightarrow> 'b \<Rightarrow> 'b" and count :: "'b \<Rightarrow> int"
    and input :: "'b \<Rightarrow> ('d, 'f) ch_input" and row :: "'x \<Rightarrow> ('d, 'f) row" and names :: "string list"
  assumes none_holding: "none = holding []"
    and add_holding: "add x (holding xs) = holding (xs @ [x])"
    and count_holding: "count (holding xs) = int (length xs)"
    and input_names: "map fst (input b) = names"
    and input_row: "i < length xs \<Longrightarrow> map (\<lambda>(name, c). (name, column_cells c ! i)) (input (holding xs)) = row (xs ! i)"
    and input_size: "list_all (\<lambda>(_, c). length (column_cells c) = length xs) (input (holding xs))"
    and input_some: "input b \<noteq> []"
begin

lemma input_length_holding: "input_length (input (holding xs)) = length xs"
  using input_size [of xs] input_some [of "holding xs"]
  by (cases "input (holding xs)") (auto simp: input_length_def)

lemma rows_holding [simp]: "input_rows (input (holding xs)) = map row xs"
  by (rule nth_equalityI) (simp_all add: input_rows_def input_length_holding input_row)

lemma rectangular_holding [simp]: "rectangular (input (holding xs))"
  using input_size [of xs] by (simp add: rectangular_def input_length_holding)

lemma rows_none [simp]: "input_rows (input none) = []"
  by (simp add: none_holding)

lemma empty_iff: "count (holding xs) = 0 \<longleftrightarrow> xs = []"
  by (simp add: count_holding)

end

definition trades_holding :: "(u64 \<Rightarrow> 'd) \<Rightarrow> Trade list \<Rightarrow> 'd tradeBatch" where
  "trades_holding dec ts =
     \<lparr>tb_chainIDs = map tr_ChainID ts, tb_slots = map tr_Slot ts, tb_timestamps = map tr_Timestamp ts,
      tb_signatures = map tr_Signature ts, tb_indices = map tr_Index ts,
      tb_programIDs = map tr_ProgramID ts, tb_pools = map tr_PoolID ts,
      tb_mintBase = map tr_MintBase ts, tb_mintQuote = map tr_MintQuote ts,
      tb_decBase = map tr_DecBase ts, tb_decQuote = map tr_DecQuote ts,
      tb_baseIn = map (dec \<circ> tr_BaseIn) ts, tb_baseOut = map (dec \<circ> tr_BaseOut) ts,
      tb_quoteIn = map (dec \<circ> tr_QuoteIn) ts, tb_quoteOut = map (dec \<circ> tr_QuoteOut) ts,
      tb_priceQ32 = map tr_PriceQ32 ts, tb_reservesBase = map (dec \<circ> tr_ReservesBase) ts,
      tb_reservesQuote = map (dec \<circ> tr_ReservesQuote) ts, tb_feeBps = map tr_FeeBps ts,
      tb_provisional = map (flag \<circ> tr_Provisional) ts, tb_isUndo = map (flag \<circ> tr_IsUndo) ts,
      tb_count = int (length ts)\<rparr>"

definition trade_row :: "(u64 \<Rightarrow> 'd) \<Rightarrow> Trade \<Rightarrow> ('d, 'f) row" where
  "trade_row dec t =
     [(''chain_id'', CUInt16 (tr_ChainID t)), (''slot'', CUInt64 (tr_Slot t)),
      (''ts'', CDateTime64 (tr_Timestamp t)), (''sig'', CStr (tr_Signature t)),
      (''idx'', CUInt32 (tr_Index t)), (''program_id'', CStr (tr_ProgramID t)),
      (''pool_id'', CStr (tr_PoolID t)), (''mint_base'', CStr (tr_MintBase t)),
      (''mint_quote'', CStr (tr_MintQuote t)), (''dec_base'', CUInt8 (tr_DecBase t)),
      (''dec_quote'', CUInt8 (tr_DecQuote t)), (''base_in'', CDecimal128 (dec (tr_BaseIn t))),
      (''base_out'', CDecimal128 (dec (tr_BaseOut t))), (''quote_in'', CDecimal128 (dec (tr_QuoteIn t))),
      (''quote_out'', CDecimal128 (dec (tr_QuoteOut t))), (''price_q32'', CInt64 (tr_PriceQ32 t)),
      (''reserves_base'', CDecimal128 (dec (tr_ReservesBase t))),
      (''reserves_quote'', CDecimal128 (dec (tr_ReservesQuote t))),
      (''fee_bps'', CUInt16 (tr_FeeBps t)), (''provisional'', CUInt8 (flag (tr_Provisional t))),
      (''is_undo'', CUInt8 (flag (tr_IsUndo t)))]"

definition trade_columns :: "string list" where
  "trade_columns = map fst (trades_input empty_trades :: (unit, unit) ch_input)"

definition candles_holding :: "'f ChCandle list \<Rightarrow> 'f candleBatch" where
  "candles_holding cs =
     \<lparr>cb_timestamps = map cc_Timestamp cs, cb_poolIDs = map cc_PoolID cs, cb_opens = map cc_Open cs,
      cb_highs = map cc_High cs, cb_lows = map cc_Low cs, cb_closes = map cc_Close cs,
      cb_volumes = map cc_Volume cs, cb_count = int (length cs)\<rparr>"

definition candle_row :: "'f ChCandle \<Rightarrow> ('d, 'f) row" where
  "candle_row c =
     [(''timestamp'', CDateTime64 (cc_Timestamp c)), (''pool_id'', CStr (cc_PoolID c)),
      (''open'', CFloat64 (cc_Open c)), (''high'', CFloat64 (cc_High c)),
      (''low'', CFloat64 (cc_Low c)), (''close'', CFloat64 (cc_Close c)),
      (''volume'', CFloat64 (cc_Volume c))]"

definition candle_columns :: "string list" where
  "candle_columns = map fst (candles_input empty_candles :: (unit, unit) ch_input)"

interpretation tbatch: column_batch "trades_holding dec" empty_trades "append_trade dec" tb_count
  trades_input "trade_row dec" trade_columns for dec
  by unfold_locales
    (simp_all add: trades_holding_def empty_trades_def append_trade_def trades_input_def
      trade_row_def trade_columns_def)

interpretation cbatch: column_batch candles_holding empty_candles append_candle cb_count
  candles_input candle_row candle_columns
  by unfold_locales
    (simp_all add: candles_holding_def empty_candles_def append_candle_def candles_input_def
      candle_row_def candle_columns_def)

lemma columns_differ [simp]: "trade_columns \<noteq> candle_columns" "candle_columns \<noteq> trade_columns"
  by (simp_all add: trade_columns_def candle_columns_def trades_input_def candles_input_def)

section \<open>The writer loses and invents no row\<close>

text \<open>
  The rows a writer is responsible for: those inserted with success, then those still in the
  batch. The invariant says that the batches stand for lists of records and that every insert
  was rectangular.
\<close>

definition trade_rows :: "('d, 'f) writer_world \<Rightarrow> ('d, 'f) row list" where
  "trade_rows s = table_rows trade_columns (snd s) @ input_rows (trades_input (w_tradesBatch (fst s)))"

definition candle_rows :: "('d, 'f) writer_world \<Rightarrow> ('d, 'f) row list" where
  "candle_rows s = table_rows candle_columns (snd s) @ input_rows (candles_input (w_candlesBatch (fst s)))"

definition writer_inv :: "(u64 \<Rightarrow> 'd) \<Rightarrow> ('d, 'f) writer_world \<Rightarrow> bool" where
  "writer_inv dec s \<longleftrightarrow>
     (\<exists>ts. w_tradesBatch (fst s) = trades_holding dec ts) \<and>
     (\<exists>cs. w_candlesBatch (fst s) = candles_holding cs) \<and>
     list_all (\<lambda>(q, _). rectangular (q_Input q)) (snd s)"

lemmas writer_facts = writer_inv_def trade_rows_def candle_rows_def tbatch.empty_iff cbatch.empty_iff
  tbatch.input_names cbatch.input_names tbatch.add_holding cbatch.add_holding

lemma writer_inv_new: "writer_inv dec (new_writer cfg, [])"
  using tbatch.none_holding [of dec] cbatch.none_holding
  by (auto simp: writer_inv_def new_writer_def)

lemma flushTrades_inv:
  "writer_inv dec s \<Longrightarrow> writer_inv dec (fst (flushTrades client_Do s))"
  using tbatch.none_holding [of dec]
  by (auto simp: flushTrades_def writer_inv_def Let_def split: prod.splits)

lemma flushTrades_rows:
  assumes "writer_inv dec s"
  shows "trade_rows (fst (flushTrades client_Do s)) = trade_rows s"
    and "candle_rows (fst (flushTrades client_Do s)) = candle_rows s"
  using assms
  by (auto simp: flushTrades_def writer_facts Let_def split: prod.splits)

lemma flushCandles_inv:
  "writer_inv dec s \<Longrightarrow> writer_inv dec (fst (flushCandles client_Do s))"
  using cbatch.none_holding
  by (auto simp: flushCandles_def writer_inv_def Let_def split: prod.splits)

lemma flushCandles_rows:
  assumes "writer_inv dec s"
  shows "trade_rows (fst (flushCandles client_Do s)) = trade_rows s"
    and "candle_rows (fst (flushCandles client_Do s)) = candle_rows s"
  using assms
  by (auto simp: flushCandles_def writer_facts Let_def split: prod.splits)

text \<open>A trade is taken even when the flush it triggers fails.\<close>

lemma write_trade_inv:
  "writer_inv dec s \<Longrightarrow> writer_inv dec (fst (write_trade dec client_Do s t))"
  by (auto simp: write_trade_def writer_inv_def Let_def tbatch.add_holding
      split: prod.splits intro!: flushTrades_inv [unfolded writer_inv_def])

lemma write_trade_rows:
  assumes "writer_inv dec s"
  shows "trade_rows (fst (write_trade dec client_Do s t)) = trade_rows s @ [trade_row dec t]"
    and "candle_rows (fst (write_trade dec client_Do s t)) = candle_rows s"
proof -
  obtain w trace where s: "s = (w, trace)" by fastforce
  let ?s1 = "(w\<lparr>w_tradesBatch := append_trade dec t (w_tradesBatch w)\<rparr>, trace)"
  have inv: "writer_inv dec ?s1" and rows: "trade_rows ?s1 = trade_rows s @ [trade_row dec t]"
    "candle_rows ?s1 = candle_rows s"
    using assms by (auto simp: s writer_facts)
  show "trade_rows (fst (write_trade dec client_Do s t)) = trade_rows s @ [trade_row dec t]"
    and "candle_rows (fst (write_trade dec client_Do s t)) = candle_rows s"
    using flushTrades_rows [OF inv] rows by (simp_all add: s write_trade_def Let_def)
qed

lemma write_candle_inv:
  "writer_inv dec s \<Longrightarrow> writer_inv dec (fst (write_candle client_Do s c))"
  by (auto simp: write_candle_def writer_inv_def Let_def cbatch.add_holding
      split: prod.splits intro!: flushCandles_inv [unfolded writer_inv_def])

lemma write_candle_rows:
  assumes "writer_inv dec s"
  shows "trade_rows (fst (write_candle client_Do s c)) = trade_rows s"
    and "candle_rows (fst (write_candle client_Do s c)) = candle_rows s @ [candle_row c]"
proof -
  obtain w trace where s: "s = (w, trace)" by fastforce
  let ?s1 = "(w\<lparr>w_candlesBatch := append_candle c (w_candlesBatch w)\<rparr>, trace)"
  have inv: "writer_inv dec ?s1" and rows: "trade_rows ?s1 = trade_rows s"
    "candle_rows ?s1 = candle_rows s @ [candle_row c]"
    using assms by (auto simp: s writer_facts)
  show "trade_rows (fst (write_candle client_Do s c)) = trade_rows s"
    and "candle_rows (fst (write_candle client_Do s c)) = candle_rows s @ [candle_row c]"
    using flushCandles_rows [OF inv] rows by (simp_all add: s write_candle_def Let_def)
qed

lemma WriteTrades_inv: "writer_inv dec s \<Longrightarrow> writer_inv dec (fst (WriteTrades dec client_Do s ts))"
  unfolding WriteTrades_def by (rule first_err_inv) (auto intro: write_trade_inv)

lemma WriteTrades_rows:
  assumes "writer_inv dec s"
  obtains n where "n \<le> length ts"
    and "trade_rows (fst (WriteTrades dec client_Do s ts)) = trade_rows s @ map (trade_row dec) (take n ts)"
    and "snd (WriteTrades dec client_Do s ts) = None \<longrightarrow> n = length ts"
  using first_err_rows [of "writer_inv dec" s "write_trade dec client_Do" trade_rows "trade_row dec" ts]
    assms write_trade_inv write_trade_rows(1) unfolding WriteTrades_def by blast

lemma WriteTrades_candles:
  assumes "writer_inv dec s"
  shows "candle_rows (fst (WriteTrades dec client_Do s ts)) = candle_rows s"
  using first_err_inv [of "\<lambda>s'. writer_inv dec s' \<and> candle_rows s' = candle_rows s" s ts "write_trade dec client_Do"]
    assms by (auto simp: WriteTrades_def write_trade_inv write_trade_rows)

lemma WriteCandles_inv: "writer_inv dec s \<Longrightarrow> writer_inv dec (fst (WriteCandles client_Do s cs))"
  unfolding WriteCandles_def by (rule first_err_inv) (auto intro: write_candle_inv)

lemma WriteCandles_rows:
  assumes "writer_inv dec s"
  obtains n where "n \<le> length cs"
    and "candle_rows (fst (WriteCandles client_Do s cs)) = candle_rows s @ map candle_row (take n cs)"
    and "snd (WriteCandles client_Do s cs) = None \<longrightarrow> n = length cs"
  using first_err_rows [of "writer_inv dec" s "write_candle client_Do" candle_rows candle_row cs]
    assms write_candle_inv write_candle_rows(2) unfolding WriteCandles_def by blast

lemma WriteCandles_trades:
  assumes "writer_inv dec s"
  shows "trade_rows (fst (WriteCandles client_Do s cs)) = trade_rows s"
proof -
  have "writer_inv dec (fst (WriteCandles client_Do s cs)) \<and>
      trade_rows (fst (WriteCandles client_Do s cs)) = trade_rows s"
    unfolding WriteCandles_def
    by (rule first_err_inv [where I = "\<lambda>s'. writer_inv dec s' \<and> trade_rows s' = trade_rows s"])
      (use assms in \<open>simp_all add: write_candle_inv write_candle_rows(1) [where dec = dec]\<close>)
  then show ?thesis ..
qed

lemma Flush_inv: "writer_inv dec s \<Longrightarrow> writer_inv dec (fst (Flush client_Do s))"
  using flushTrades_inv [of dec s client_Do]
  by (auto simp: Flush_def split: prod.splits option.splits intro: flushCandles_inv)

lemma Flush_rows:
  assumes "writer_inv dec s"
  shows "trade_rows (fst (Flush client_Do s)) = trade_rows s"
    and "candle_rows (fst (Flush client_Do s)) = candle_rows s"
  using flushTrades_inv [OF assms, of client_Do] flushTrades_rows [OF assms, of client_Do]
    flushCandles_rows [of dec "fst (flushTrades client_Do s)" client_Do]
  by (auto simp: Flush_def split: prod.splits option.splits)

lemma flush_ok_empty:
  "snd (flushTrades client_Do s) = None \<Longrightarrow> tb_count (w_tradesBatch (fst (fst (flushTrades client_Do s)))) = 0"
  "snd (flushCandles client_Do s) = None \<Longrightarrow> cb_count (w_candlesBatch (fst (fst (flushCandles client_Do s)))) = 0"
  "w_tradesBatch (fst (fst (flushCandles client_Do s))) = w_tradesBatch (fst s)"
  by (auto simp: flushTrades_def flushCandles_def empty_trades_def empty_candles_def Let_def
      split: prod.splits if_splits)

text \<open>After a successful \<open>Flush\<close> every row is in the database.\<close>

lemma Flush_stores:
  assumes "writer_inv dec s" and "snd (Flush client_Do s) = None"
  shows "table_rows trade_columns (snd (fst (Flush client_Do s))) = trade_rows s"
    and "table_rows candle_columns (snd (fst (Flush client_Do s))) = candle_rows s"
proof -
  obtain w' trace' where F: "fst (Flush client_Do s) = (w', trace')" by fastforce
  have empty: "tb_count (w_tradesBatch w') = 0" "cb_count (w_candlesBatch w') = 0"
    using assms(2) F flush_ok_empty(1) [of client_Do s] flush_ok_empty(2,3) [of client_Do "fst (flushTrades client_Do s)"]
    by (auto simp: Flush_def split: prod.splits option.splits)
  obtain ts cs where "w_tradesBatch w' = trades_holding dec ts" "w_candlesBatch w' = candles_holding cs"
    using Flush_inv [OF assms(1), of client_Do] F by (auto simp: writer_inv_def)
  then have "trade_rows (w', trace') = table_rows trade_columns trace'"
    "candle_rows (w', trace') = table_rows candle_columns trace'"
    using empty by (simp_all add: trade_rows_def candle_rows_def tbatch.empty_iff cbatch.empty_iff)
  then show "table_rows trade_columns (snd (fst (Flush client_Do s))) = trade_rows s"
    and "table_rows candle_columns (snd (fst (Flush client_Do s))) = candle_rows s"
    using Flush_rows [OF assms(1), of client_Do] F by simp_all
qed

text \<open>A caller may go on after an error; the calls and their results are lists.\<close>

datatype 'f writer_op = OpTrades "Trade list" | OpCandles "'f ChCandle list" | OpFlush

fun op_trades :: "'f writer_op \<Rightarrow> Trade list" where
  "op_trades (OpTrades ts) = ts"
| "op_trades _ = []"

fun op_candles :: "'f writer_op \<Rightarrow> 'f ChCandle list" where
  "op_candles (OpCandles cs) = cs"
| "op_candles _ = []"

fun writer_step ::
  "(u64 \<Rightarrow> 'd) \<Rightarrow> ('d, 'f) ch_client \<Rightarrow> ('d, 'f) writer_world \<Rightarrow> 'f writer_op \<Rightarrow>
   ('d, 'f) writer_world \<times> ch_write_error option" where
  "writer_step dec client_Do s (OpTrades ts) = WriteTrades dec client_Do s ts"
| "writer_step dec client_Do s (OpCandles cs) = WriteCandles client_Do s cs"
| "writer_step dec client_Do s OpFlush = Flush client_Do s"

fun run_ops ::
  "(u64 \<Rightarrow> 'd) \<Rightarrow> ('d, 'f) ch_client \<Rightarrow> ('d, 'f) writer_world \<Rightarrow> 'f writer_op list \<Rightarrow>
   ('d, 'f) writer_world \<times> ch_write_error option list" where
  "run_ops dec client_Do s [] = (s, [])"
| "run_ops dec client_Do s (op # ops) =
     (let (s1, e) = writer_step dec client_Do s op; (s2, es) = run_ops dec client_Do s1 ops in (s2, e # es))"

lemma writer_step_inv: "writer_inv dec s \<Longrightarrow> writer_inv dec (fst (writer_step dec client_Do s op))"
  by (cases op) (auto simp: WriteTrades_inv WriteCandles_inv Flush_inv)

lemma writer_step_trades:
  assumes "writer_inv dec s"
  shows "\<exists>rs. trade_rows (fst (writer_step dec client_Do s op)) = trade_rows s @ rs \<and>
    prefix rs (map (trade_row dec) (op_trades op)) \<and>
    (snd (writer_step dec client_Do s op) = None \<longrightarrow> rs = map (trade_row dec) (op_trades op))"
proof (cases op)
  case (OpTrades ts)
  obtain n where "trade_rows (fst (WriteTrades dec client_Do s ts)) = trade_rows s @ map (trade_row dec) (take n ts)"
    "snd (WriteTrades dec client_Do s ts) = None \<longrightarrow> n = length ts"
    by (rule WriteTrades_rows [OF assms, of ts client_Do])
  then show ?thesis
    by (auto simp: OpTrades take_map [symmetric] take_is_prefix)
qed (use assms in \<open>simp_all add: WriteCandles_trades Flush_rows\<close>)

lemma writer_step_candles:
  assumes "writer_inv dec s"
  shows "\<exists>rs. candle_rows (fst (writer_step dec client_Do s op)) = candle_rows s @ rs \<and>
    prefix rs (map candle_row (op_candles op)) \<and>
    (snd (writer_step dec client_Do s op) = None \<longrightarrow> rs = map candle_row (op_candles op))"
proof (cases op)
  case (OpCandles cs)
  obtain n where "candle_rows (fst (WriteCandles client_Do s cs)) = candle_rows s @ map candle_row (take n cs)"
    "snd (WriteCandles client_Do s cs) = None \<longrightarrow> n = length cs"
    by (rule WriteCandles_rows [OF assms, of cs client_Do])
  then show ?thesis
    by (auto simp: OpCandles take_map [symmetric] take_is_prefix)
qed (use assms in \<open>simp_all add: WriteTrades_candles Flush_rows\<close>)

lemma run_ops_inv:
  "writer_inv dec s \<Longrightarrow> writer_inv dec (fst (run_ops dec client_Do s ops))"
proof (induction ops arbitrary: s)
  case (Cons op ops)
  then show ?case
    using writer_step_inv [OF Cons.prems, of client_Do op] by (simp add: Let_def case_prod_beta)
qed simp

text \<open>Rows that each step adds, as a prefix of what the step was given, add up over the run.\<close>

lemma run_ops_rows:
  assumes "writer_inv dec s"
    and step: "\<And>s op. writer_inv dec s \<Longrightarrow>
      \<exists>rs. rows (fst (writer_step dec client_Do s op)) = rows s @ rs \<and> prefix rs (given op) \<and>
        (snd (writer_step dec client_Do s op) = None \<longrightarrow> rs = given op)"
  shows "\<exists>rs. rows (fst (run_ops dec client_Do s ops)) = rows s @ rs \<and> subseq rs (concat (map given ops)) \<and>
    (list_all (\<lambda>e. e = None) (snd (run_ops dec client_Do s ops)) \<longrightarrow> rs = concat (map given ops))"
  using assms(1)
proof (induction ops arbitrary: s)
  case (Cons op ops)
  obtain s1 e where 1: "writer_step dec client_Do s op = (s1, e)" by fastforce
  obtain s2 es where 2: "run_ops dec client_Do s1 ops = (s2, es)" by fastforce
  obtain rs where rs: "rows s1 = rows s @ rs" "prefix rs (given op)" "e = None \<longrightarrow> rs = given op"
    using step [OF Cons.prems, of op] 1 by auto
  have "writer_inv dec s1" using writer_step_inv [OF Cons.prems, of client_Do op] 1 by simp
  then obtain rs' where rs': "rows s2 = rows s1 @ rs'" "subseq rs' (concat (map given ops))"
    "list_all (\<lambda>e. e = None) es \<longrightarrow> rs' = concat (map given ops)"
    using Cons.IH 2 by fastforce
  have "subseq (rs @ rs') (given op @ concat (map given ops))"
    using rs(2) rs'(2) by (auto intro: list_emb_append_mono prefix_imp_subseq)
  then show ?case
    using rs rs' by (auto simp: 1 2 intro!: exI [of _ "rs @ rs'"])
qed (simp add: exI [of _ "[]"])

text \<open>Between calls that report no error the batches stay below the batch size.\<close>

definition below_batch :: "('d, 'f) writer_world \<Rightarrow> bool" where
  "below_batch s \<longleftrightarrow> 0 < chc_BatchSize (w_config (fst s)) \<and>
     tb_count (w_tradesBatch (fst s)) < chc_BatchSize (w_config (fst s)) \<and>
     cb_count (w_candlesBatch (fst s)) < chc_BatchSize (w_config (fst s))"

lemma flush_below:
  "below_batch s \<Longrightarrow> snd (flushTrades client_Do s) = None \<Longrightarrow> below_batch (fst (flushTrades client_Do s))"
  "below_batch s \<Longrightarrow> snd (flushCandles client_Do s) = None \<Longrightarrow> below_batch (fst (flushCandles client_Do s))"
  by (auto simp: below_batch_def flushTrades_def flushCandles_def empty_trades_def empty_candles_def Let_def
      split: prod.splits if_splits)

lemma write_below:
  "below_batch s \<Longrightarrow> snd (write_trade dec client_Do s t) = None \<Longrightarrow> below_batch (fst (write_trade dec client_Do s t))"
  "below_batch s \<Longrightarrow> snd (write_candle client_Do s c) = None \<Longrightarrow> below_batch (fst (write_candle client_Do s c))"
  by (auto simp: below_batch_def write_trade_def write_candle_def flushTrades_def flushCandles_def
      empty_trades_def empty_candles_def Let_def split: prod.splits if_splits)

lemma writer_step_below:
  assumes "below_batch s" and "snd (writer_step dec client_Do s op) = None"
  shows "below_batch (fst (writer_step dec client_Do s op))"
proof (cases op)
  case (OpTrades ts)
  then show ?thesis
    using assms by (auto simp: WriteTrades_def intro: first_err_keeps [THEN conjunct2, THEN mp] write_below(1))
next
  case (OpCandles cs)
  then show ?thesis
    using assms by (auto simp: WriteCandles_def intro: first_err_keeps [THEN conjunct2, THEN mp] write_below(2))
next
  case OpFlush
  then show ?thesis
    using assms flush_below(1) [of s client_Do] flush_below(2) [of "fst (flushTrades client_Do s)" client_Do]
    by (auto simp: Flush_def split: prod.splits option.splits)
qed

lemma run_ops_below:
  "below_batch s \<Longrightarrow> list_all (\<lambda>e. e = None) (snd (run_ops dec client_Do s ops)) \<Longrightarrow>
   below_batch (fst (run_ops dec client_Do s ops))"
proof (induction ops arbitrary: s)
  case (Cons op ops)
  then show ?case
    using writer_step_below [of s dec client_Do op] by (simp add: Let_def case_prod_beta)
qed simp

text \<open>(C6) Whatever the calls and the answers of the server: every insert that was sent has columns
  of equal length, and the rows inserted with success followed by those still in the batch are, in
  order, rows of the records given to the writer, none twice. When no call reported an error they
  are exactly the rows of all records given, for both tables, and fewer than a batch is waiting.\<close>

theorem writer_conservation:
  assumes "0 < chc_BatchSize cfg" and "run_ops dec client_Do (new_writer cfg, []) ops = (s, errs)"
  shows "list_all (\<lambda>(q, _). rectangular (q_Input q)) (snd s) \<and>
    subseq (trade_rows s) (map (trade_row dec) (concat (map op_trades ops))) \<and>
    subseq (candle_rows s) (map candle_row (concat (map op_candles ops))) \<and>
    (list_all (\<lambda>e. e = None) errs \<longrightarrow>
       trade_rows s = map (trade_row dec) (concat (map op_trades ops)) \<and>
       candle_rows s = map candle_row (concat (map op_candles ops)) \<and>
       tb_count (w_tradesBatch (fst s)) < chc_BatchSize (w_config (fst s)) \<and>
       cb_count (w_candlesBatch (fst s)) < chc_BatchSize (w_config (fst s)))"
proof -
  let ?s0 = "(new_writer cfg, [])"
  have inv: "writer_inv dec ?s0" by (rule writer_inv_new)
  have below: "below_batch ?s0"
    using assms(1) by (simp add: below_batch_def new_writer_def empty_trades_def empty_candles_def)
  have none: "trade_rows ?s0 = []" "candle_rows ?s0 = []"
    by (simp_all add: trade_rows_def candle_rows_def new_writer_def)
  note trades = run_ops_rows [OF inv writer_step_trades, of client_Do ops]
  note candles = run_ops_rows [OF inv writer_step_candles, of client_Do ops]
  show ?thesis
    using trades candles run_ops_inv [OF inv, of client_Do ops] run_ops_below [OF below, of dec client_Do ops] assms(2)
    by (auto simp: writer_inv_def below_batch_def none map_concat comp_def)
qed

definition sample_trade :: "u64 \<Rightarrow> Trade" where
  "sample_trade slot = \<lparr>tr_ChainID = 501, tr_Slot = slot, tr_Timestamp = 1700000000, tr_Signature = ''sig'',
     tr_Index = 0, tr_ProgramID = ''p'', tr_PoolID = ''pool'', tr_MintBase = ''A'', tr_MintQuote = ''B'',
     tr_DecBase = 9, tr_DecQuote = 6, tr_BaseIn = 5, tr_BaseOut = 0, tr_QuoteIn = 0, tr_QuoteOut = 7,
     tr_PriceQ32 = 0, tr_ReservesBase = 0, tr_ReservesQuote = 0, tr_FeeBps = 30, tr_Provisional = True,
     tr_IsUndo = False\<rparr>"

definition sample_ch_config :: ChConfig where
  "sample_ch_config = \<lparr>chc_DSN = ''clickhouse://h'', chc_Database = ''dex'', chc_TradesTable = ''trades'',
     chc_CandlesTable = ''candles'', chc_BatchSize = 2, chc_FlushInterval = time_Second, chc_MaxRetries = 3,
     chc_RetryBackoffBase = 200 * time_Millisecond, chc_RetryBackoffMax = 500 * time_Millisecond\<rparr>"

text \<open>Three trades with a batch of two, a server that refuses the first insert: nothing is lost.\<close>

definition sample_run :: "(u64, unit) writer_world \<times> ch_write_error option list" where
  "sample_run = run_ops id (\<lambda>trace q. trace \<noteq> []) (new_writer sample_ch_config, [])
     [OpTrades [sample_trade 1, sample_trade 2, sample_trade 3], OpTrades [sample_trade 3], OpFlush]"

lemmas run_ops_eval = sample_ch_config_def new_writer_def empty_trades_def empty_candles_def WriteTrades_def
  write_trade_def append_trade_def flushTrades_def Flush_def flushCandles_def flag_def trades_input_def Let_def

theorem writer_conservation_witness:
  "snd sample_run = [Some FlushTradesFailed, None, None] \<and>
   list_all (\<lambda>(q, _). rectangular (q_Input q)) (snd (fst sample_run)) \<and>
   subseq (trade_rows (fst sample_run)) (map (trade_row id) [sample_trade 1, sample_trade 2, sample_trade 3, sample_trade 3])"
proof -
  have errs: "snd sample_run = [Some FlushTradesFailed, None, None]"
    by (simp add: sample_run_def run_ops_eval)
  have size: "0 < chc_BatchSize sample_ch_config" by (simp add: sample_ch_config_def)
  have run: "run_ops id (\<lambda>trace q. trace \<noteq> []) (new_writer sample_ch_config, [])
      [OpTrades [sample_trade 1, sample_trade 2, sample_trade 3], OpTrades [sample_trade 3], OpFlush] =
      (fst sample_run, snd sample_run)"
    unfolding sample_run_def by simp
  show ?thesis using writer_conservation [OF size run] errs by simp
qed

section \<open>The retry loop\<close>











end
