(* ===== verification/SinkLoop.thy ===== *)
theory SinkLoop
  imports Publisher "HOL-Library.Sublist"
begin

text \<open>
  The run loop that the ClickHouse and the Parquet sink share line by line
  (\<open>sinks/clickhouse/service.go\<close> and \<open>sinks/parquet/service.go\<close>, both \<open>Run\<close>): select, fetch, handle
  each message, acknowledge it or refuse it and stop, flush on a tick and on return. The handler
  and the flush are arguments; the locale \<open>sink_loop\<close> states what a sink has to show of them.
\<close>

section \<open>The loop\<close>

text \<open>
  One turn of the loop: which case of the \<open>select\<close> was taken, and what \<open>Fetch\<close> returned. A run is
  a list of turns; when it is used up the loop is still running. The acknowledgements sent so far
  are kept in the state (\<open>True\<close> for \<open>Ack\<close>, \<open>False\<close> for \<open>Nak\<close>).
\<close>

datatype select_case = CtxDone | FlushTick | NoneReady

datatype sink_fetch = SinkTimeout | SinkFetchFailed | SinkMsgs "nats_msg list"

type_synonym sink_turns = "(select_case \<times> sink_fetch) list"

datatype ('e, 'g) loop_error = LoopHandle 'e | LoopFlush 'g | LoopFetch | LoopCtx

record 'p loop_state =
  ls_proc :: 'p
  ls_acks :: "(nats_msg \<times> bool) list"

definition loop_deliver ::
  "(nats_msg \<Rightarrow> 'p \<Rightarrow> 'p \<times> 'e option) \<Rightarrow> 'p loop_state \<Rightarrow> nats_msg \<Rightarrow> 'p loop_state \<times> ('e, 'g) loop_error option" where
  "loop_deliver handle s msg =
     (case handle msg (ls_proc s) of
        (p', Some err) \<Rightarrow> (\<lparr>ls_proc = p', ls_acks = ls_acks s @ [(msg, False)]\<rparr>, Some (LoopHandle err))
      | (p', None) \<Rightarrow> (\<lparr>ls_proc = p', ls_acks = ls_acks s @ [(msg, True)]\<rparr>, None))"

definition loop_turn ::
  "(nats_msg \<Rightarrow> 'p \<Rightarrow> 'p \<times> 'e option) \<Rightarrow> ('p \<Rightarrow> 'p \<times> 'g option) \<Rightarrow> 'p loop_state \<Rightarrow> select_case \<times> sink_fetch \<Rightarrow>
   'p loop_state \<times> ('e, 'g) loop_error option" where
  "loop_turn handle flush s turn =
     (case turn of (sel, fetch) \<Rightarrow>
      let selected =
        (case sel of
           CtxDone \<Rightarrow> (s, Some LoopCtx)
         | FlushTick \<Rightarrow> (case flush (ls_proc s) of
             (p', err) \<Rightarrow> (s\<lparr>ls_proc := p'\<rparr>, map_option LoopFlush err))
         | NoneReady \<Rightarrow> (s, None))
      in case selected of
           (s', Some err) \<Rightarrow> (s', Some err)
         | (s', None) \<Rightarrow>
             (case fetch of
                SinkTimeout \<Rightarrow> (s', None)
              | SinkFetchFailed \<Rightarrow> (s', Some LoopFetch)
              | SinkMsgs msgs \<Rightarrow> first_err (loop_deliver handle) s' msgs))"

text \<open>A run that returns flushes (the deferred call): the error of the run and that of the flush.\<close>

definition loop_Run ::
  "(nats_msg \<Rightarrow> 'p \<Rightarrow> 'p \<times> 'e option) \<Rightarrow> ('p \<Rightarrow> 'p \<times> 'g option) \<Rightarrow> 'p \<Rightarrow> sink_turns \<Rightarrow>
   'p loop_state \<times> (('e, 'g) loop_error \<times> 'g option) option" where
  "loop_Run handle flush p turns =
     (case first_err (loop_turn handle flush) \<lparr>ls_proc = p, ls_acks = []\<rparr> turns of
        (s', None) \<Rightarrow> (s', None)
      | (s', Some err) \<Rightarrow>
          (case flush (ls_proc s') of (p', ferr) \<Rightarrow> (s'\<lparr>ls_proc := p'\<rparr>, Some (err, ferr))))"

section \<open>What a sink shows of its handler\<close>

text \<open>
  \<open>handled ms p\<close>: \<open>p\<close> is a state after the messages \<open>ms\<close> were handled without error;
  \<open>refused ms m p\<close>: after them the message \<open>m\<close> failed. Flushing keeps both.
\<close>

locale sink_loop =
  fixes handle :: "nats_msg \<Rightarrow> 'p \<Rightarrow> 'p \<times> 'e option" and flush :: "'p \<Rightarrow> 'p \<times> 'g option"
    and handled :: "nats_msg list \<Rightarrow> 'p \<Rightarrow> bool" and refused :: "nats_msg list \<Rightarrow> nats_msg \<Rightarrow> 'p \<Rightarrow> bool"
  assumes handle_ok: "handled ms p \<Longrightarrow> handle m p = (p', None) \<Longrightarrow> handled (ms @ [m]) p'"
    and handle_err: "handled ms p \<Longrightarrow> handle m p = (p', Some e) \<Longrightarrow> refused ms m p'"
    and flush_handled: "handled ms p \<Longrightarrow> handled ms (fst (flush p))"
    and flush_refused: "refused ms m p \<Longrightarrow> refused ms m (fst (flush p))"
begin

definition all_acked :: "'p loop_state \<Rightarrow> bool" where
  "all_acked s \<longleftrightarrow> (\<exists>ms. ls_acks s = map (\<lambda>m. (m, True)) ms \<and> handled ms (ls_proc s))"

definition one_refused :: "'p loop_state \<Rightarrow> bool" where
  "one_refused s \<longleftrightarrow> (\<exists>ms m. ls_acks s = map (\<lambda>m. (m, True)) ms @ [(m, False)] \<and> refused ms m (ls_proc s))"

definition acks_ok :: "'p loop_state \<Rightarrow> bool" where
  "acks_ok s \<longleftrightarrow> all_acked s \<or> one_refused s"

lemma all_acked_flush: "all_acked s \<Longrightarrow> all_acked (s\<lparr>ls_proc := fst (flush (ls_proc s))\<rparr>)"
  by (auto simp: all_acked_def intro: flush_handled)

lemma acks_ok_flush: "acks_ok s \<Longrightarrow> acks_ok (s\<lparr>ls_proc := fst (flush (ls_proc s))\<rparr>)"
  by (auto simp: acks_ok_def all_acked_flush) (auto simp: one_refused_def intro: flush_refused)

lemma all_acked_ok: "all_acked s \<Longrightarrow> acks_ok s"
  by (simp add: acks_ok_def)

definition deliver :: "'p loop_state \<Rightarrow> nats_msg \<Rightarrow> 'p loop_state \<times> ('e, 'g) loop_error option" where
  "deliver = loop_deliver handle"

lemma deliver_step:
  assumes "all_acked s"
  shows "acks_ok (fst (deliver s m)) \<and>
    (snd (deliver s m) = None \<longrightarrow> all_acked (fst (deliver s m)))"
proof -
  obtain ms where ms: "ls_acks s = map (\<lambda>m. (m, True)) ms" "handled ms (ls_proc s)"
    using assms by (auto simp: all_acked_def)
  obtain p' e where h: "handle m (ls_proc s) = (p', e)" by fastforce
  show ?thesis
  proof (cases e)
    case None
    then have "all_acked \<lparr>ls_proc = p', ls_acks = ls_acks s @ [(m, True)]\<rparr>"
      using handle_ok [OF ms(2)] h ms(1) by (auto simp: all_acked_def intro!: exI [of _ "ms @ [m]"])
    then show ?thesis using h None by (simp add: deliver_def loop_deliver_def all_acked_ok)
  next
    case (Some err)
    then have "one_refused \<lparr>ls_proc = p', ls_acks = ls_acks s @ [(m, False)]\<rparr>"
      using handle_err [OF ms(2)] h ms(1) by (auto simp: one_refused_def)
    then show ?thesis using h Some by (simp add: deliver_def loop_deliver_def acks_ok_def)
  qed
qed

lemma turn_step:
  assumes "all_acked s"
  shows "acks_ok (fst (loop_turn handle flush s turn)) \<and>
    (snd (loop_turn handle flush s turn) = None \<longrightarrow> all_acked (fst (loop_turn handle flush s turn)))"
proof -
  obtain sel fetch where turn: "turn = (sel, fetch)" by fastforce
  have loop: "all_acked s' \<Longrightarrow> acks_ok (fst (first_err deliver s' msgs)) \<and>
      (snd (first_err deliver s' msgs) = None \<longrightarrow>
        all_acked (fst (first_err deliver s' msgs)))" for s' msgs
    by (rule first_err_keeps [where I = all_acked and J = acks_ok and f = deliver, OF _ all_acked_ok deliver_step])
  show ?thesis
    using assms all_acked_flush [OF assms] loop [OF assms] loop [OF all_acked_flush [OF assms]]
    by (auto simp: turn loop_turn_def Let_def all_acked_ok deliver_def [symmetric] split: select_case.splits sink_fetch.splits prod.splits option.splits)
qed

lemma turns_ok:
  assumes "handled [] p"
  shows "acks_ok (fst (first_err (loop_turn handle flush) \<lparr>ls_proc = p, ls_acks = []\<rparr> turns))"
proof -
  have "all_acked \<lparr>ls_proc = p, ls_acks = []\<rparr>" using assms by (simp add: all_acked_def)
  then show ?thesis by (rule first_err_keeps [where I = all_acked and J = acks_ok and f = "loop_turn handle flush", OF _ all_acked_ok turn_step, THEN conjunct1])
qed

text \<open>
  At the end of a run every message handled was acknowledged, the last one possibly refused; and
  when the run returned and its flush succeeded, the state is the result of that flush.
\<close>

lemma Run_acks:
  assumes "handled [] p"
  shows "acks_ok (fst (loop_Run handle flush p turns))"
  using turns_ok [OF assms, of turns] acks_ok_flush
  by (fastforce simp: loop_Run_def split: prod.splits option.splits)

lemma Run_flushed:
  assumes "handled [] p" and "loop_Run handle flush p turns = (s, Some (err, None))"
  obtains p1 where "ls_proc s = fst (flush p1)" and "snd (flush p1) = None" and "acks_ok (s\<lparr>ls_proc := p1\<rparr>)"
proof -
  obtain s1 e p' where s1: "first_err (loop_turn handle flush) \<lparr>ls_proc = p, ls_acks = []\<rparr> turns = (s1, Some e)"
    "flush (ls_proc s1) = (p', None)" "s = s1\<lparr>ls_proc := p'\<rparr>"
    using assms(2) by (auto simp: loop_Run_def split: prod.splits option.splits)
  moreover have "acks_ok s1" using turns_ok [OF assms(1), of turns] s1(1) by simp
  ultimately show thesis by (intro that [of "ls_proc s1"]) auto
qed

end

end
