(* ===== verification/ChService.thy ===== *)
theory ChService
  imports ClickHouse SinkLoop
begin

text \<open>
  The service of the ClickHouse sink, \<open>sinks/clickhouse/service.go\<close>: the processor that keeps the
  block times and turns swaps into trades, the routing of messages by subject, and the run loop
  with its acknowledgements. The processor talks to the writer through the interface
  \<open>tradeWriter\<close>; its contract is the locale \<open>trade_writer\<close>, which the writer of \<open>ClickHouse\<close>
  provides.
\<close>

section \<open>The processor\<close>

record ('w, 'e) tradeWriter =
  tw_WriteTrades :: "'w \<Rightarrow> Trade list \<Rightarrow> 'w \<times> 'e option"
  tw_Flush :: "'w \<Rightarrow> 'w \<times> 'e option"

record 'w ch_processor =
  cp_writer :: 'w
  cp_slotTimes :: "(u64, gotime) gomap"

definition newProcessor :: "'w \<Rightarrow> 'w ch_processor" where
  "newProcessor writer = \<lparr>cp_writer = writer, cp_slotTimes = []\<rparr>"

definition head_times :: "BlockHead \<Rightarrow> (u64, gotime) gomap \<Rightarrow> (u64, gotime) gomap" where
  "head_times head stimes =
     (let ts = bh_TsSec head in
      if time_IsZero ts then stimes
      else let times1 = map_set (bh_Slot head) ts stimes
           in if ToLower (bh_Status head) = ''dead'' then map_del (bh_Slot head) times1 else times1)"

definition sink_handleBlockHead :: "BlockHead option \<Rightarrow> 'w ch_processor \<Rightarrow> 'w ch_processor" where
  "sink_handleBlockHead head s =
     (case head of None \<Rightarrow> s | Some h \<Rightarrow> s\<lparr>cp_slotTimes := head_times h (cp_slotTimes s)\<rparr>)"

definition swap_trade :: "(u64, gotime) gomap \<Rightarrow> SwapEvent \<Rightarrow> Trade" where
  "swap_trade stimes event =
     \<lparr>tr_ChainID = ucast (se_ChainId event), tr_Slot = se_Slot event,
      tr_Timestamp = (case map_get stimes (se_Slot event) of None \<Rightarrow> time_zero | Some ts \<Rightarrow> ts),
      tr_Signature = se_Sig event, tr_Index = se_Index event, tr_ProgramID = se_ProgramId event,
      tr_PoolID = se_PoolId event, tr_MintBase = se_MintBase event, tr_MintQuote = se_MintQuote event,
      tr_DecBase = ucast (se_DecBase event), tr_DecQuote = ucast (se_DecQuote event),
      tr_BaseIn = se_BaseIn event, tr_BaseOut = se_BaseOut event, tr_QuoteIn = se_QuoteIn event,
      tr_QuoteOut = se_QuoteOut event, tr_PriceQ32 = 0, tr_ReservesBase = se_ReservesBase event,
      tr_ReservesQuote = se_ReservesQuote event, tr_FeeBps = ucast (se_FeeBps event),
      tr_Provisional = se_Provisional event, tr_IsUndo = se_IsUndo event\<rparr>"

definition sink_handleSwap ::
  "('w, 'e) tradeWriter \<Rightarrow> SwapEvent option \<Rightarrow> 'w ch_processor \<Rightarrow> 'w ch_processor \<times> 'e option" where
  "sink_handleSwap writer event s =
     (case event of None \<Rightarrow> (s, None) | Some ev \<Rightarrow>
      case tw_WriteTrades writer (cp_writer s) [swap_trade (cp_slotTimes s) ev] of
        (w', err) \<Rightarrow> (s\<lparr>cp_writer := w'\<rparr>, err))"

section \<open>The service\<close>

text \<open>\<open>proto.Unmarshal\<close> for the two kinds of messages the sink reads.\<close>

record codec =
  unmarshal_swap :: "bytes \<Rightarrow> SwapEvent option"
  unmarshal_head :: "bytes \<Rightarrow> BlockHead option"

datatype 'e sink_error = UnmarshalSwap | UnmarshalHead | SinkWriteErr 'e

definition sink_handleMessage ::
  "('w, 'e) tradeWriter \<Rightarrow> codec \<Rightarrow> nats_msg \<Rightarrow> 'w ch_processor \<Rightarrow> 'w ch_processor \<times> 'e sink_error option" where
  "sink_handleMessage writer c msg s =
     (let subject = nm_Subject msg in
      if HasSuffix subject ''.swap'' then
        (case unmarshal_swap c (nm_Data msg) of
           None \<Rightarrow> (s, Some UnmarshalSwap)
         | Some ev \<Rightarrow> map_prod id (map_option SinkWriteErr) (sink_handleSwap writer (Some ev) s))
      else if HasSuffix subject ''.blocks.head'' then
        (case unmarshal_head c (nm_Data msg) of
           None \<Rightarrow> (s, Some UnmarshalHead)
         | Some head \<Rightarrow> (sink_handleBlockHead (Some head) s, None))
      else (s, None))"

definition sink_flush :: "('w, 'e) tradeWriter \<Rightarrow> 'w ch_processor \<Rightarrow> 'w ch_processor \<times> 'e option" where
  "sink_flush writer p = (case tw_Flush writer (cp_writer p) of (w', err) \<Rightarrow> (p\<lparr>cp_writer := w'\<rparr>, err))"

definition sink_Run ::
  "('w, 'e) tradeWriter \<Rightarrow> codec \<Rightarrow> 'w ch_processor \<Rightarrow> sink_turns \<Rightarrow>
   'w ch_processor loop_state \<times> (('e sink_error, 'e) loop_error \<times> 'e option) option" where
  "sink_Run writer c = loop_Run (sink_handleMessage writer c) (sink_flush writer)"

section \<open>What the messages mean\<close>

text \<open>The trades that a sequence of messages describes: a swap takes the block time known when it
  is read.\<close>

fun sink_trades :: "codec \<Rightarrow> (u64, gotime) gomap \<Rightarrow> nats_msg list \<Rightarrow> Trade list" where
  "sink_trades c stimes [] = []"
| "sink_trades c stimes (m # ms) =
     (if HasSuffix (nm_Subject m) ''.swap'' then
        (case unmarshal_swap c (nm_Data m) of
           None \<Rightarrow> sink_trades c stimes ms
         | Some ev \<Rightarrow> swap_trade stimes ev # sink_trades c stimes ms)
      else if HasSuffix (nm_Subject m) ''.blocks.head'' then
        (case unmarshal_head c (nm_Data m) of
           None \<Rightarrow> sink_trades c stimes ms
         | Some head \<Rightarrow> sink_trades c (head_times head stimes) ms)
      else sink_trades c stimes ms)"

fun sink_times :: "codec \<Rightarrow> (u64, gotime) gomap \<Rightarrow> nats_msg list \<Rightarrow> (u64, gotime) gomap" where
  "sink_times c stimes [] = stimes"
| "sink_times c stimes (m # ms) =
     sink_times c
       (if HasSuffix (nm_Subject m) ''.swap'' then stimes
        else if HasSuffix (nm_Subject m) ''.blocks.head'' then
          (case unmarshal_head c (nm_Data m) of None \<Rightarrow> stimes | Some head \<Rightarrow> head_times head stimes)
        else stimes) ms"

lemma sink_times_append [simp]: "sink_times c stimes (xs @ ys) = sink_times c (sink_times c stimes xs) ys"
  by (induction xs arbitrary: stimes) simp_all

lemma sink_trades_append:
  "sink_trades c stimes (xs @ ys) = sink_trades c stimes xs @ sink_trades c (sink_times c stimes xs) ys"
  by (induction xs arbitrary: stimes) (auto split: option.splits)

text \<open>
  The contract of the interface: the writer answers for the rows it has \<open>taken\<close>, in order; a call
  without error takes every trade it was given, a failing one a prefix; what is \<open>stored\<close> is a
  prefix of what was taken, and all of it after a successful flush.
\<close>

locale trade_writer =
  fixes writer :: "('w, 'e) tradeWriter" and ok :: "'w \<Rightarrow> bool" and row :: "Trade \<Rightarrow> 'r"
    and taken :: "'w \<Rightarrow> 'r list" and stored :: "'w \<Rightarrow> 'r list"
  assumes write_ok: "ok w \<Longrightarrow> ok (fst (tw_WriteTrades writer w ts))"
    and flush_ok: "ok w \<Longrightarrow> ok (fst (tw_Flush writer w))"
    and write_taken: "ok w \<Longrightarrow> \<exists>n \<le> length ts.
      taken (fst (tw_WriteTrades writer w ts)) = taken w @ map row (take n ts) \<and>
      (snd (tw_WriteTrades writer w ts) = None \<longrightarrow> n = length ts)"
    and flush_taken: "ok w \<Longrightarrow> taken (fst (tw_Flush writer w)) = taken w"
    and flush_stored: "ok w \<Longrightarrow> snd (tw_Flush writer w) = None \<Longrightarrow> stored (fst (tw_Flush writer w)) = taken w"
begin

text \<open>The state after messages handled without error, and after a further one that failed: its
  trade may have been taken already.\<close>

definition sink_handled :: "codec \<Rightarrow> 'r list \<Rightarrow> nats_msg list \<Rightarrow> 'w ch_processor \<Rightarrow> bool" where
  "sink_handled c rows0 ms p \<longleftrightarrow> ok (cp_writer p) \<and>
     taken (cp_writer p) = rows0 @ map row (sink_trades c [] ms) \<and> cp_slotTimes p = sink_times c [] ms"

definition sink_refused :: "codec \<Rightarrow> 'r list \<Rightarrow> nats_msg list \<Rightarrow> nats_msg \<Rightarrow> 'w ch_processor \<Rightarrow> bool" where
  "sink_refused c rows0 ms m p \<longleftrightarrow> ok (cp_writer p) \<and>
     (\<exists>extra. taken (cp_writer p) = rows0 @ map row (sink_trades c [] ms) @ extra \<and>
        prefix extra (map row (sink_trades c (sink_times c [] ms) [m])))"

lemma handle_sink:
  assumes "sink_handled c rows0 ms p"
  shows "case sink_handleMessage writer c m p of
    (p', None) \<Rightarrow> sink_handled c rows0 (ms @ [m]) p' | (p', Some _) \<Rightarrow> sink_refused c rows0 ms m p'"
proof -
  have ok: "ok (cp_writer p)" and times: "cp_slotTimes p = sink_times c [] ms"
    and taken: "taken (cp_writer p) = rows0 @ map row (sink_trades c [] ms)"
    using assms by (simp_all add: sink_handled_def)
  show ?thesis
  proof (cases "HasSuffix (nm_Subject m) ''.swap'' \<and> unmarshal_swap c (nm_Data m) \<noteq> None")
    case True
    then obtain ev where ev: "unmarshal_swap c (nm_Data m) = Some ev" by blast
    let ?t = "swap_trade (sink_times c [] ms) ev"
    obtain w' e' where w: "tw_WriteTrades writer (cp_writer p) [?t] = (w', e')" by fastforce
    have "ok w'" using write_ok [OF ok, of "[?t]"] w by simp
    obtain n where n: "n \<le> 1" "taken w' = taken (cp_writer p) @ map row (take n [?t])" "e' = None \<longrightarrow> n = 1"
      using write_taken [OF ok, of "[?t]"] w by auto
    have h: "sink_handleMessage writer c m p = (p\<lparr>cp_writer := w'\<rparr>, map_option SinkWriteErr e')"
      using True ev w times by (simp add: sink_handleMessage_def sink_handleSwap_def)
    show ?thesis
      using True ev n \<open>ok w'\<close> times taken
      by (cases e'; cases n) (auto simp: h sink_handled_def sink_refused_def sink_trades_append)
  next
    case False
    then show ?thesis
      using ok times taken
      by (cases "HasSuffix (nm_Subject m) ''.swap''"; cases "HasSuffix (nm_Subject m) ''.blocks.head''";
          cases "unmarshal_head c (nm_Data m)")
        (auto simp: sink_handleMessage_def sink_handleBlockHead_def sink_handled_def sink_refused_def sink_trades_append)
  qed
qed

lemma sink_handle_ok:
  "sink_handled c rows0 ms p \<Longrightarrow> sink_handleMessage writer c m p = (p', None) \<Longrightarrow> sink_handled c rows0 (ms @ [m]) p'"
  using handle_sink [of c rows0 ms p m] by simp

lemma sink_handle_err:
  "sink_handled c rows0 ms p \<Longrightarrow> sink_handleMessage writer c m p = (p', Some e) \<Longrightarrow> sink_refused c rows0 ms m p'"
  using handle_sink [of c rows0 ms p m] by simp

lemma sink_flush_handled: "sink_handled c rows0 ms p \<Longrightarrow> sink_handled c rows0 ms (fst (sink_flush writer p))"
  using flush_ok [of "cp_writer p"] flush_taken [of "cp_writer p"]
  by (auto simp: sink_flush_def sink_handled_def split: prod.splits)

lemma sink_flush_refused: "sink_refused c rows0 ms m p \<Longrightarrow> sink_refused c rows0 ms m (fst (sink_flush writer p))"
  using flush_ok [of "cp_writer p"] flush_taken [of "cp_writer p"]
  by (auto simp: sink_flush_def sink_refused_def split: prod.splits)

end

text \<open>A sink over any such writer meets the contract of the run loop.\<close>

sublocale trade_writer \<subseteq> sloop: sink_loop "sink_handleMessage writer c" "sink_flush writer"
  "sink_handled c rows0" "sink_refused c rows0" for c rows0
  by unfold_locales (fact sink_handle_ok sink_handle_err sink_flush_handled sink_flush_refused)+

context trade_writer
begin

text \<open>When a run returns and its deferred flush succeeds, the trades of every acknowledged message
  are stored, in order.\<close>

lemma Run_stores:
  assumes "ok w" and "sink_Run writer c (newProcessor w) turns = (s, Some (err, None))"
  shows "\<exists>rows. stored (cp_writer (ls_proc s)) = taken w @ rows \<and>
    prefix (map row (sink_trades c [] (map fst (filter snd (ls_acks s))))) rows \<and>
    prefix rows (map row (sink_trades c [] (map fst (ls_acks s))))"
proof -
  have "sink_handled c (taken w) [] (newProcessor w)"
    using assms(1) by (simp add: sink_handled_def newProcessor_def)
  then obtain p1 where p1: "ls_proc s = fst (sink_flush writer p1)" "snd (sink_flush writer p1) = None"
    and acks: "sloop.acks_ok c (taken w) (s\<lparr>ls_proc := p1\<rparr>)"
    using assms(2) unfolding sink_Run_def by (rule sloop.Run_flushed)
  have "ok (cp_writer p1)"
    using acks by (auto simp: sloop.acks_ok_def sloop.all_acked_def sloop.one_refused_def sink_handled_def sink_refused_def)
  then have "stored (cp_writer (ls_proc s)) = taken (cp_writer p1)"
    using p1 flush_stored [of "cp_writer p1"] by (auto simp: sink_flush_def split: prod.splits)
  then show ?thesis
    using acks by (auto simp: sloop.acks_ok_def sloop.all_acked_def sloop.one_refused_def sink_handled_def
        sink_refused_def filter_map comp_def sink_trades_append)
qed

end

section \<open>The writer provides the interface\<close>

definition ch_writer :: "(u64 \<Rightarrow> 'd) \<Rightarrow> ('d, 'f) ch_client \<Rightarrow> (('d, 'f) writer_world, ch_write_error) tradeWriter" where
  "ch_writer dec client_Do = \<lparr>tw_WriteTrades = WriteTrades dec client_Do, tw_Flush = Flush client_Do\<rparr>"

lemma ch_writer_sel [simp]:
  "tw_WriteTrades (ch_writer dec client_Do) = WriteTrades dec client_Do"
  "tw_Flush (ch_writer dec client_Do) = Flush client_Do"
  by (simp_all add: ch_writer_def)

interpretation chw: trade_writer "ch_writer dec client_Do" "writer_inv dec" "trade_row dec" trade_rows
  "\<lambda>s. table_rows trade_columns (snd s)" for dec client_Do
proof (unfold_locales, goal_cases)
  case (3 w ts)
  show ?case
    by (rule WriteTrades_rows [OF 3, of ts client_Do]) (auto simp: ch_writer_sel)
qed (simp_all add: WriteTrades_inv Flush_inv Flush_rows Flush_stores)

definition ch_service ::
  "(u64 \<Rightarrow> 'd) \<Rightarrow> ('d, 'f) ch_client \<Rightarrow> codec \<Rightarrow> ChConfig \<Rightarrow> sink_turns \<Rightarrow>
   ('d, 'f) writer_world ch_processor loop_state \<times>
   ((ch_write_error sink_error, ch_write_error) loop_error \<times> ch_write_error option) option" where
  "ch_service dec client_Do c cfg turns =
     sink_Run (ch_writer dec client_Do) c (newProcessor (new_writer cfg, [])) turns"

lemma trade_rows_new: "trade_rows (new_writer cfg, []) = []"
  by (simp add: trade_rows_def new_writer_def)

text \<open>(C12) In a run of the ClickHouse sink that returns and whose deferred flush succeeds, whatever
  the messages, their order and the answers of the server: the trades table holds the trades of
  the acknowledged swap messages, in order, each with the block time known when it was read; the
  only further row it can hold is that of the one message that was refused last.\<close>

theorem sink_acked_stored:
  assumes "ch_service dec client_Do c cfg turns = (s, Some (err, None))"
  shows "prefix (map (trade_row dec) (sink_trades c [] (map fst (filter snd (ls_acks s)))))
      (table_rows trade_columns (snd (cp_writer (ls_proc s)))) \<and>
    prefix (table_rows trade_columns (snd (cp_writer (ls_proc s))))
      (map (trade_row dec) (sink_trades c [] (map fst (ls_acks s))))"
proof -
  have "sink_Run (ch_writer dec client_Do) c (newProcessor (new_writer cfg, [])) turns = (s, Some (err, None))"
    using assms by (simp add: ch_service_def)
  from chw.Run_stores [OF writer_inv_new this] show ?thesis
    by (auto simp: trade_rows_new)
qed

definition sample_codec :: codec where
  "sample_codec = \<lparr>unmarshal_swap = (\<lambda>bs. Some (zero_SwapEvent\<lparr>se_Slot := ucast (hd bs), se_BaseIn := 5\<rparr>)),
     unmarshal_head = (\<lambda>bs. Some \<lparr>bh_ChainId = 501, bh_Slot = ucast (hd bs), bh_TsSec = 1700000000, bh_Status = ''confirmed''\<rparr>)\<rparr>"

definition sample_msg :: "string \<Rightarrow> nats_msg" where
  "sample_msg subject = \<lparr>nm_Subject = subject, nm_Header = [], nm_Data = [7]\<rparr>"

definition sample_turns :: sink_turns where
  "sample_turns = [(NoneReady, SinkMsgs [sample_msg ''x.blocks.head'', sample_msg ''x.orca.swap'']), (CtxDone, SinkTimeout)]"

lemmas sink_eval = sample_turns_def sample_msg_def sample_codec_def ch_service_def sink_Run_def loop_Run_def loop_turn_def loop_deliver_def sink_flush_def
  sink_handleMessage_def sink_handleSwap_def sink_handleBlockHead_def newProcessor_def head_times_def HasSuffix_def
  time_IsZero_def time_zero_def ToLower_def to_lower_char_def swap_trade_def ch_writer_def run_ops_eval

theorem sink_acked_stored_witness:
  "let run = ch_service id (\<lambda>_ _. True) sample_codec sample_ch_config sample_turns :: (u64, unit) writer_world ch_processor loop_state \<times> _
   in snd run = Some (LoopCtx, None) \<and>
     prefix (map (trade_row id) (sink_trades sample_codec [] (map fst (filter snd (ls_acks (fst run))))))
       (table_rows trade_columns (snd (cp_writer (ls_proc (fst run)))))"
proof -
  let ?run = "ch_service id (\<lambda>_ _. True) sample_codec sample_ch_config sample_turns :: (u64, unit) writer_world ch_processor loop_state \<times> _"
  have "snd ?run = Some (LoopCtx, None)" by (simp add: sink_eval)
  then have "?run = (fst ?run, Some (LoopCtx, None))" by (metis prod.collapse)
  from sink_acked_stored [OF this] show ?thesis
    using \<open>snd ?run = Some (LoopCtx, None)\<close> by (simp add: Let_def)
qed

text \<open>A swap is acknowledged when it is in the batch, not when it is in the database: there is a
  run in which a swap message is acknowledged, the server refuses every insert, and the run
  returns with the trades table empty, so the acknowledged swap is lost.\<close>

theorem sink_acked_lost:
  "let run = ch_service id (\<lambda>_ _. False) sample_codec sample_ch_config sample_turns :: (u64, unit) writer_world ch_processor loop_state \<times> _
   in (sample_msg ''x.orca.swap'', True) \<in> set (ls_acks (fst run)) \<and>
     snd run = Some (LoopCtx, Some FlushTradesFailed) \<and>
     table_rows trade_columns (snd (cp_writer (ls_proc (fst run)))) = []"
  by (simp add: sink_eval)

end
