(* ===== verification/Pipeline.thy ===== *)
theory Pipeline
  imports Processor ChService
begin

text \<open>
  From the ingestor to the database: the processor of \<open>ingestor/geyser/processor.go\<close> publishing
  through \<open>sinks/nats/publisher.go\<close>, and the ClickHouse sink of \<open>sinks/clickhouse/service.go\<close>
  reading what was published. The locale \<open>publisher_invariant\<close> states what a property of the
  published messages must satisfy to hold after every run of the processor; it is interpreted on the
  publisher with the property that subject and data belong to the message.
\<close>

section \<open>Properties of the published messages\<close>

locale publisher_invariant =
  fixes P :: "('w, 'e) SwapPublisher" and I :: "'w \<Rightarrow> bool"
  assumes swap_keeps: "I w \<Longrightarrow> I (fst (sp_PublishSwap P ctx (Some ev) w))"
    and head_keeps: "I w \<Longrightarrow> I (fst (sp_PublishBlockHead P ctx (Some h) w))"
    and tx_keeps: "I w \<Longrightarrow> I (fst (sp_PublishTxMeta P ctx (Some m) w))"
begin

lemma settle_one_keeps: "I (snd pw) \<Longrightarrow> I (snd (fst (settle_one P kinds ctx undo pw ev)))"
  using swap_keeps [of "snd pw" ctx "settled undo ev"]
  by (cases pw; cases "sp_PublishSwap P ctx (Some (settled undo ev)) (snd pw)")
    (auto simp: settle_one_def split: option.splits)

lemma emit_one_keeps: "I (snd pw) \<Longrightarrow> I (snd (fst (emit_one P kinds ctx pw ev)))"
  using swap_keeps [of "snd pw" ctx ev]
  by (cases pw; cases "sp_PublishSwap P ctx (Some ev) (snd pw)") (auto simp: emit_one_def Let_def split: option.splits)

lemma head_status_keeps: "I (snd pw) \<Longrightarrow> I (snd (fst (publishBlockHeadStatus P ctx slot status pw)))"
proof (cases "map_get (pr_blockHeads (fst pw)) slot")
  case (Some h)
  assume "I (snd pw)"
  then show ?thesis
    using Some head_keeps [of "snd pw" ctx "h\<lparr>bh_Status := status\<rparr>"]
    by (cases pw; cases "sp_PublishBlockHead P ctx (Some (h\<lparr>bh_Status := status\<rparr>)) (snd pw)")
      (auto simp: publishBlockHeadStatus_def Let_def split: option.splits)
qed (auto simp: publishBlockHeadStatus_def split: prod.splits)

lemma settleSlot_keeps:
  assumes "I (snd pw)"
  shows "I (snd (fst (settleSlot P kinds ctx undo slot pw)))"
proof -
  have "I (snd (fst (first_err (settle_one P kinds ctx undo) pw evs)))" for evs
    using first_err_inv [where I = "\<lambda>pw. I (snd pw)" and f = "settle_one P kinds ctx undo", OF assms]
    by (blast intro: settle_one_keeps)
  from this [of "pending_of (fst pw) slot"] assms show ?thesis
    by (cases "first_err (settle_one P kinds ctx undo) pw (pending_of (fst pw) slot)")
      (auto simp: settleSlot_def Let_def split: option.splits prod.splits)
qed

lemma handleSlot_keeps:
  assumes "I (snd pw)"
  shows "I (snd (fst (handleSlot P kinds ctx u pw)))"
proof -
  have "I (snd (fst (case settleSlot P kinds ctx undo slot pw of (pw', Some err) \<Rightarrow> (pw', Some err)
      | (pw', None) \<Rightarrow> publishBlockHeadStatus P ctx slot status pw')))" for undo slot status
    using settleSlot_keeps [OF assms, of kinds ctx undo slot] head_status_keeps
    by (cases "settleSlot P kinds ctx undo slot pw") (auto split: option.splits)
  with assms show ?thesis
    by (auto simp: handleSlot_def finalizeSlot_def undoSlot_def Let_def split: option.splits SlotStatus.splits)
qed

lemma handleTransaction_keeps:
  assumes "I (snd pw)"
  shows "I (snd (fst (handleTransaction P E ctx tx pw)))"
proof -
  obtain p w where pw: "pw = (p, w)" by fastforce
  define pub where "pub = (case ConvertTxMeta (env_b58 E) tx of
    None \<Rightarrow> (w, None) | Some meta \<Rightarrow> sp_PublishTxMeta P ctx (Some meta) w)"
  obtain w1 r1 where w1: "pub = (w1, r1)" by fastforce
  have "I (fst pub)" using assms pw tx_keeps by (auto simp: pub_def split: option.splits)
  then have "I w1" using w1 by simp
  then have "I (snd (fst (first_err (emit_one P (env_kinds E) ctx) (p, w1) evs)))" for evs
    using first_err_inv [where I = "\<lambda>pw. I (snd pw)" and s = "(p, w1)" and f = "emit_one P (env_kinds E) ctx"]
    by (auto intro: emit_one_keeps)
  with \<open>I w1\<close> assms w1 show ?thesis
    unfolding pub_def by (cases r1) (auto simp: pw handleTransaction_def split: option.splits sum.splits)
qed

lemma handleBlockMeta_keeps: "I (snd pw) \<Longrightarrow> I (snd (fst (handleBlockMeta P ctx m pw)))"
  using head_keeps [of "snd pw" ctx]
  by (auto simp: handleBlockMeta_def Let_def split: option.splits prod.splits) (metis fst_conv)+

lemma HandleUpdate_keeps: "I (snd pw) \<Longrightarrow> I (snd (fst (HandleUpdate P E ctx u pw)))"
  using handleTransaction_keeps handleBlockMeta_keeps handleSlot_keeps
  by (auto simp: HandleUpdate_def split: option.splits SubscribeUpdate.splits)

lemma process_keeps: "I (snd pw) \<Longrightarrow> I (snd (process P E us pw))"
  unfolding process_def by (induction us arbitrary: pw) (simp_all add: HandleUpdate_keeps case_prod_unfold)

end

text \<open>What the publisher attempts: the data encodes the message and the subject names its kind.\<close>

definition attempt_ok :: "(dex_message \<Rightarrow> bytes option) \<Rightarrow> NatsConfig \<Rightarrow> attempt \<Rightarrow> bool" where
  "attempt_ok marshal cfg a \<longleftrightarrow>
     marshal (at_Message a) = Some (nm_Data (at_Msg a)) \<and>
     (case at_Message a of
        MsgSwap ev \<Rightarrow> nm_Subject (at_Msg a) = swap_subject cfg ev
      | MsgBlockHead _ \<Rightarrow> nm_Subject (at_Msg a) = nc_SubjectRoot cfg @ ''.blocks.head''
      | MsgTxMeta _ \<Rightarrow> nm_Subject (at_Msg a) = nc_SubjectRoot cfg @ ''.tx.meta''
      | _ \<Rightarrow> False)"

interpretation npi: publisher_invariant "natsx_Publisher marshal js cfg" "list_all (attempt_ok marshal cfg)"
  for marshal js cfg
  by unfold_locales
    (auto simp: natsx_Publisher_def PublishSwap_def PublishBlockHead_def PublishTxMeta_def publish_def
      build_msg_def attempt_ok_def Let_def split: option.splits)

section \<open>What the sink reads\<close>

text \<open>The messages of a stream that stores some of the messages it accepts, in order: those at the positions
  \<open>S\<close>. A stream without duplicate detection stores all of them, one with a duplicate window leaves out
  the duplicates.\<close>

definition stream_of :: "NatsConfig \<Rightarrow> nat set \<Rightarrow> world \<Rightarrow> nats_msg list" where
  "stream_of cfg S w = nths (map at_Msg (filter (\<lambda>a. reply_error cfg (nm_Subject (at_Msg a)) (at_Reply a) = None) w)) S"

text \<open>Protobuf coding: the sink decodes what the publisher encoded.\<close>

definition codec_law :: "(dex_message \<Rightarrow> bytes option) \<Rightarrow> codec \<Rightarrow> bool" where
  "codec_law marshal c \<longleftrightarrow>
     (\<forall>ev data. marshal (MsgSwap ev) = Some data \<longrightarrow> unmarshal_swap c data = Some ev) \<and>
     (\<forall>h data. marshal (MsgBlockHead h) = Some data \<longrightarrow> unmarshal_head c data = Some h)"

text \<open>The trades a sequence of protobuf messages describes, with no reference to subjects or bytes.\<close>

fun message_trades :: "(u64, gotime) gomap \<Rightarrow> dex_message list \<Rightarrow> Trade list" where
  "message_trades stimes [] = []"
| "message_trades stimes (MsgSwap ev # ms) = swap_trade stimes ev # message_trades stimes ms"
| "message_trades stimes (MsgBlockHead h # ms) = message_trades (head_times h stimes) ms"
| "message_trades stimes (_ # ms) = message_trades stimes ms"

lemma suffix_of_subject [simp]:
  "HasSuffix (swap_subject cfg ev) ''.swap''"
  "\<not> HasSuffix (r @ ''.blocks.head'') ''.swap''" "HasSuffix (r @ ''.blocks.head'') ''.blocks.head''"
  "\<not> HasSuffix (r @ ''.tx.meta'') ''.swap''" "\<not> HasSuffix (r @ ''.tx.meta'') ''.blocks.head''"
  using HasSuffix_append [of "nc_SubjectRoot cfg @ ''.'' @ programSegment (se_ProgramId ev)" "''.swap''"]
  by (auto simp: swap_subject_def HasSuffix_iff dest!: arg_cong [of _ _ rev])

lemma sink_trades_of_attempts:
  assumes "codec_law marshal c" and "list_all (attempt_ok marshal cfg) as"
  shows "sink_trades c stimes (map at_Msg as) = message_trades stimes (map at_Message as)"
  using assms(2)
proof (induction as arbitrary: stimes)
  case (Cons a as)
  then have "attempt_ok marshal cfg a" by simp
  with Cons assms(1) show ?case
    by (cases "at_Message a") (auto simp: attempt_ok_def codec_law_def)
qed simp

lemma stream_trades:
  assumes "codec_law marshal c" and "process (natsx_Publisher marshal js cfg) E us (NewProcessor cache, []) = (p, w)"
  shows "sink_trades c [] (stream_of cfg S w) = message_trades [] (nths (natsx_sent cfg w) S)"
proof -
  have "list_all (attempt_ok marshal cfg) w"
    using npi.process_keeps [of marshal cfg "(NewProcessor cache, [])" js E us] assms(2) by simp
  then show ?thesis
    unfolding stream_of_def natsx_sent_def nths_map
    by (intro sink_trades_of_attempts [OF assms(1), of cfg]) (auto simp: list_all_iff dest: in_set_nthsD)
qed

section \<open>Properties\<close>

text \<open>
  (C7) From the stream of updates to the database: let the processor handle any updates, with any
  encoder the sink can decode and any answers of the messaging server; let the stream store any of the
  messages it accepted, and let the ClickHouse sink acknowledge exactly the stored messages, in their
  order, and return with a successful flush. Then the trades table holds exactly one row per stored swap
  message, in the order of publication, each with the block time known from the block heads stored
  before it. The sink merges nothing: a final or undo copy that the stream stores is a second row for
  the slot, signature and index of the provisional one.
\<close>

theorem pipeline_stores_swaps:
  assumes "codec_law marshal c"
    and "process (natsx_Publisher marshal js cfg) E us (NewProcessor cache, []) = (p, w)"
    and "ch_service dec client_Do c ccfg turns = (s, Some (err, None))"
    and "ls_acks s = map (\<lambda>m. (m, True)) (stream_of cfg S w)"
  shows "table_rows trade_columns (snd (cp_writer (ls_proc s))) =
    map (trade_row dec) (message_trades [] (nths (natsx_sent cfg w) S))"
proof -
  have run: "sink_Run (ch_writer dec client_Do) c (newProcessor (new_writer ccfg, [])) turns = (s, Some (err, None))"
    using assms(3) by (simp add: ch_service_def)
  have acks: "map fst (filter snd (ls_acks s)) = stream_of cfg S w" "map fst (ls_acks s) = stream_of cfg S w"
    using assms(4) by (simp_all add: comp_def)
  from chw.Run_stores [OF writer_inv_new run] show ?thesis
    unfolding acks stream_trades [OF assms(1,2)] by (auto simp: trade_rows_new intro: prefix_order.antisym)
qed

lemma sample_pipeline:
  fixes ev :: SwapEvent
  defines "marshal \<equiv> \<lambda>m. case m of MsgSwap e \<Rightarrow> if e = ev then Some [] else None | MsgTxMeta _ \<Rightarrow> Some [] | _ \<Rightarrow> None"
  assumes "DecodeTransaction sample_b58 id initial_registry programKinds (Decoder_New None) (Some sample_tx) = Inr [ev]"
  shows "\<exists>p w m. process (natsx_Publisher marshal (\<lambda>_ _ _ _. JsAck None) Nats_DefaultConfig) sample_decode_env
      [(id, Some (U_Transaction (Some sample_tx)))] (NewProcessor None, []) = (p, w)
    \<and> natsx_sent Nats_DefaultConfig w = [MsgTxMeta m, MsgSwap ev]
    \<and> stream_of Nats_DefaultConfig UNIV w =
       [build_msg ''dex.sol.tx.meta'' [] (tx_msgID m), build_msg (swap_subject Nats_DefaultConfig ev) [] (swap_msgID ev)]"
proof -
  obtain m where m: "ConvertTxMeta sample_b58 (Some sample_tx) = Some m"
    by (simp add: ConvertTxMeta_def sample_tx_def)
  show ?thesis
    using assms(2) m
    by (simp add: process_def sample_decode_env_id HandleUpdate_def handleTransaction_def sample_decode_env_def NewProcessor_def emit_one_def
        natsx_Publisher_def PublishSwap_def PublishTxMeta_def publish_def marshal_def reply_error_def natsx_sent_def
        stream_of_def nths_all Nats_DefaultConfig_def Let_def)
qed

lemma sample_pipeline_sink:
  fixes ev :: SwapEvent
  defines "c \<equiv> \<lparr>unmarshal_swap = \<lambda>_. Some ev, unmarshal_head = \<lambda>_. None\<rparr>"
  assumes "\<not> HasSuffix s1 ''.swap''" "\<not> HasSuffix s1 ''.blocks.head''" "HasSuffix s2 ''.swap''"
  shows "\<exists>s. (ch_service id (\<lambda>_ _. True) c sample_ch_config
        [(NoneReady, SinkMsgs [build_msg s1 [] i1, build_msg s2 [] i2]), (CtxDone, SinkTimeout)]
        :: (u64, unit) writer_world ch_processor loop_state \<times> _) = (s, Some (LoopCtx, None))
    \<and> ls_acks s = [(build_msg s1 [] i1, True), (build_msg s2 [] i2, True)]"
  using assms(2,3,4) unfolding c_def build_msg_def
  by (simp add: ch_service_def sink_Run_def loop_Run_def loop_turn_def loop_deliver_def sink_flush_def
      sink_handleMessage_def sink_handleSwap_def newProcessor_def time_IsZero_def time_zero_def
      swap_trade_def ch_writer_def run_ops_eval)

text \<open>The property at a transaction with one swap, accepted by the stream and read by the sink.\<close>

theorem pipeline_stores_swaps_witness:
  "\<exists>p w m ev marshal c s. codec_law marshal c \<and>
     process (natsx_Publisher marshal (\<lambda>_ _ _ _. JsAck None) Nats_DefaultConfig) sample_decode_env
       [(id, Some (U_Transaction (Some sample_tx)))] (NewProcessor None, []) = (p, w) \<and>
     natsx_sent Nats_DefaultConfig w = [MsgTxMeta m, MsgSwap ev] \<and>
     (ch_service id (\<lambda>_ _. True) c sample_ch_config
        [(NoneReady, SinkMsgs (stream_of Nats_DefaultConfig UNIV w)), (CtxDone, SinkTimeout)]
        :: (u64, unit) writer_world ch_processor loop_state \<times> _) = (s, Some (LoopCtx, None)) \<and>
     ls_acks s = map (\<lambda>m. (m, True)) (stream_of Nats_DefaultConfig UNIV w) \<and>
     table_rows trade_columns (snd (cp_writer (ls_proc s))) = [trade_row id (swap_trade [] ev)]"
proof -
  obtain ev where dec: "DecodeTransaction sample_b58 id initial_registry programKinds (Decoder_New None) (Some sample_tx) = Inr [ev]"
    using sample_tx_decodes by blast
  define marshal where "marshal = (\<lambda>m. case m of MsgSwap e \<Rightarrow> if e = ev then Some [] else None
    | MsgTxMeta _ \<Rightarrow> Some ([] :: bytes) | _ \<Rightarrow> None)"
  let ?c = "\<lparr>unmarshal_swap = \<lambda>_. Some ev, unmarshal_head = \<lambda>_. None\<rparr>"
  have law: "codec_law marshal ?c" by (simp add: codec_law_def marshal_def)
  obtain p w m where run: "process (natsx_Publisher marshal (\<lambda>_ _ _ _. JsAck None) Nats_DefaultConfig) sample_decode_env
      [(id, Some (U_Transaction (Some sample_tx)))] (NewProcessor None, []) = (p, w)"
    and sent: "natsx_sent Nats_DefaultConfig w = [MsgTxMeta m, MsgSwap ev]"
    and stream: "stream_of Nats_DefaultConfig UNIV w = [build_msg ''dex.sol.tx.meta'' [] (tx_msgID m),
      build_msg (swap_subject Nats_DefaultConfig ev) [] (swap_msgID ev)]"
    using sample_pipeline [OF dec] unfolding marshal_def by blast
  obtain s where svc: "(ch_service id (\<lambda>_ _. True) ?c sample_ch_config
        [(NoneReady, SinkMsgs (stream_of Nats_DefaultConfig UNIV w)), (CtxDone, SinkTimeout)]
        :: (u64, unit) writer_world ch_processor loop_state \<times> _) = (s, Some (LoopCtx, None))"
    and acks: "ls_acks s = map (\<lambda>m. (m, True)) (stream_of Nats_DefaultConfig UNIV w)"
    using sample_pipeline_sink [where ?s1.0 = "''dex.sol.tx.meta''" and ?s2.0 = "swap_subject Nats_DefaultConfig ev"
        and ?i1.0 = "tx_msgID m" and ?i2.0 = "swap_msgID ev" and ev = ev]
      suffix_of_subject(4,5) [of "''dex.sol''"] unfolding stream by auto
  have rows: "table_rows trade_columns (snd (cp_writer (ls_proc s))) = [trade_row id (swap_trade [] ev)]"
    using pipeline_stores_swaps [OF law run svc acks] sent by (simp add: nths_all)
  show ?thesis by (intro exI conjI) (fact law run sent svc acks rows)+
qed

end
