(* ===== verification/ProcState.thy ===== *)
theory ProcState
  imports Processor
begin

text \<open>
  The types of the processor's state (\<open>ingestor/geyser/processor.go\<close>) and of its decoder
  (\<open>ingestor/decoder/decoder.go\<close>) that Go does not check: which keys the maps may have and what is
  stored under them. Every handler keeps them, whatever the publisher does.
\<close>

section \<open>Entries of maps\<close>

lemma list_all_map_set [simp, intro]: "P (k, v) \<Longrightarrow> list_all P m \<Longrightarrow> list_all P (map_set k v m)"
  unfolding map_set_def by (induction m) auto

lemma list_all_map_del [simp, intro]: "list_all P m \<Longrightarrow> list_all P (map_del k m)"
  unfolding map_del_def by (auto simp: list_all_iff AList.delete_eq)

lemma list_all_map_get: "list_all P m \<Longrightarrow> map_get m k = Some v \<Longrightarrow> P (k, v)"
  by (auto simp: list_all_iff dest: map_get_Some_mem)

section \<open>The state invariant\<close>

definition decoder_wf :: "Decoder \<Rightarrow> bool" where
  "decoder_wf d \<longleftrightarrow> cache_inv (slotCache d) \<and> map_ok (poolConfig d) \<and> map_ok (poolFees d) \<and>
     map_ok (configFees d) \<and> map_ok (orcaPools d)"

text \<open>Pending: never an empty list, and only provisional swaps of the slot they are stored under.\<close>

definition pending_entry :: "u64 \<times> SwapEvent list \<Rightarrow> bool" where
  "pending_entry = (\<lambda>(slot, evs). evs \<noteq> [] \<and> list_all (\<lambda>ev. se_Slot ev = slot \<and> se_Provisional ev \<and> \<not> se_IsUndo ev) evs)"

text \<open>Block heads: confirmed heads of the slot they are stored under.\<close>

definition head_entry :: "u64 \<times> BlockHead \<Rightarrow> bool" where
  "head_entry = (\<lambda>(slot, h). bh_Slot h = slot \<and> bh_ChainId h = 501 \<and> bh_Status h = ''confirmed'')"

definition processor_wf :: "Processor \<Rightarrow> bool" where
  "processor_wf p \<longleftrightarrow> decoder_wf (pr_decoder p) \<and> map_ok (pr_pending p) \<and> map_ok (pr_blockHeads p) \<and>
     list_all pending_entry (pr_pending p) \<and> list_all head_entry (pr_blockHeads p)"

lemma processor_wf_fields [simp]:
  "processor_wf (p\<lparr>pr_metrics := m\<rparr>) = processor_wf p"
  "processor_wf p \<Longrightarrow> processor_wf (p\<lparr>pr_pending := map_del slot (pr_pending p)\<rparr>)"
  "processor_wf p \<Longrightarrow> decoder_wf d \<Longrightarrow> processor_wf (p\<lparr>pr_decoder := d\<rparr>)"
  by (auto simp: processor_wf_def)

lemma processor_wf_decoder: "processor_wf p \<Longrightarrow> decoder_wf (pr_decoder p)"
  by (simp add: processor_wf_def)

lemma decoder_wf_cache [simp]: "decoder_wf d \<Longrightarrow> decoder_wf (d\<lparr>slotCache := Cache_Set (slotCache d) s t\<rparr>)"
  by (auto simp: decoder_wf_def cache_inv_def Cache_Set_def)

lemma HandleBlockMeta_wf: "decoder_wf d \<Longrightarrow> decoder_wf (HandleBlockMeta m d)"
  by (auto simp: HandleBlockMeta_def split: option.splits)

lemma record_pool_wf: "decoder_wf d \<Longrightarrow> decoder_wf (record_pool b58 pk cfg d)"
  by (auto simp: record_pool_def decoder_wf_def Let_def split: option.splits)

lemma record_config_wf: "decoder_wf d \<Longrightarrow> decoder_wf (record_config pk rate d)"
  by (auto simp: record_config_def decoder_wf_def Let_def intro: gm.ok_fold_put)

lemma handleRaydiumAccount_wf: "decoder_wf d \<Longrightarrow> decoder_wf (handleRaydiumAccount b58 pk data d)"
  by (auto simp: handleRaydiumAccount_def Let_def record_pool_wf record_config_wf split: option.splits sum.splits if_splits)

lemma HandleAccount_wf: "decoder_wf d \<Longrightarrow> decoder_wf (HandleAccount b58 a d)"
  by (auto simp: HandleAccount_def Let_def handleRaydiumAccount_wf split: option.splits sum.splits)
    (auto simp: decoder_wf_def)

section \<open>Every handler keeps it\<close>

lemma appendPending_wf:
  assumes "processor_wf p" and "se_Provisional ev" and "\<not> se_IsUndo ev"
  shows "processor_wf (appendPending (se_Slot ev) ev p)"
proof -
  have "list_all (\<lambda>ev'. se_Slot ev' = se_Slot ev \<and> se_Provisional ev' \<and> \<not> se_IsUndo ev') (pending_of p (se_Slot ev))"
    using assms(1) list_all_map_get [of pending_entry "pr_pending p" "se_Slot ev"]
    by (auto simp: pending_of_def processor_wf_def pending_entry_def split: option.splits)
  with assms show ?thesis
    by (auto simp: appendPending_def processor_wf_def pending_entry_def)
qed

lemma settle_one_wf: "processor_wf (fst pw) \<Longrightarrow> processor_wf (fst (fst (settle_one P kinds ctx undo pw ev)))"
  by (auto simp: settle_one_def split: prod.splits option.splits)

lemma settleSlot_wf:
  assumes "processor_wf (fst pw)"
  shows "processor_wf (fst (fst (settleSlot P kinds ctx undo slot pw)))"
proof -
  have "processor_wf (fst (fst (first_err (settle_one P kinds ctx undo) pw evs)))" for evs
    using first_err_inv [where I = "\<lambda>pw. processor_wf (fst pw)" and f = "settle_one P kinds ctx undo", OF assms]
    by (blast intro: settle_one_wf)
  from this [of "pending_of (fst pw) slot"] assms show ?thesis
    by (cases "first_err (settle_one P kinds ctx undo) pw (pending_of (fst pw) slot)")
      (auto simp: settleSlot_def Let_def split: option.splits prod.splits)
qed

text \<open>A status that ends a slot removes its head, so no head with another status stays.\<close>

lemma head_status_wf:
  assumes "processor_wf (fst pw)" and "status \<in> {''finalized'', ''dead''}"
  shows "processor_wf (fst (fst (publishBlockHeadStatus P ctx slot status pw)))"
proof -
  have del: "map_del slot (map_set slot h m) = map_del slot m" for h :: BlockHead and m
    unfolding map_del_def map_set_def by (induction m) auto
  show ?thesis
    using assms by (auto simp: publishBlockHeadStatus_def Let_def del processor_wf_def split: prod.splits option.splits)
qed

lemma handleSlot_wf:
  assumes "processor_wf (fst pw)"
  shows "processor_wf (fst (fst (handleSlot P kinds ctx u pw)))"
proof -
  have "processor_wf (fst (fst (case settleSlot P kinds ctx undo slot pw of (pw', Some err) \<Rightarrow> (pw', Some err)
      | (pw', None) \<Rightarrow> publishBlockHeadStatus P ctx slot status pw')))"
    if "status \<in> {''finalized'', ''dead''}" for undo slot status
    using settleSlot_wf [OF assms, of P kinds ctx undo slot] head_status_wf [OF _ that]
    by (cases "settleSlot P kinds ctx undo slot pw") (auto split: option.splits)
  with assms show ?thesis
    by (auto simp: handleSlot_def finalizeSlot_def undoSlot_def Let_def split: option.splits SlotStatus.splits)
qed

lemma emit_one_wf:
  "se_Provisional ev \<and> \<not> se_IsUndo ev \<Longrightarrow> processor_wf (fst pw) \<Longrightarrow> processor_wf (fst (fst (emit_one P kinds ctx pw ev)))"
  by (auto simp: emit_one_def Let_def intro!: appendPending_wf split: prod.splits option.splits)

lemma handleTransaction_wf:
  assumes "processor_wf (fst pw)"
  shows "processor_wf (fst (fst (handleTransaction P E ctx tx pw)))"
proof -
  have "processor_wf (fst (fst (first_err (emit_one P (env_kinds E) ctx) (fst pw, w) evs)))"
    if "DecodeTransaction (env_b58 E) (env_ord E) (env_reg E) (env_kinds E) (pr_decoder (fst pw)) tx = Inr evs"
      and "tx = Some t" for w evs t
  proof (rule first_err_inv [where I = "\<lambda>pw. processor_wf (fst pw)"])
    have "\<forall>ev \<in> set evs. se_Provisional ev \<and> \<not> se_IsUndo ev"
      using that np.decoded_provisional by blast
    then show "processor_wf (fst (fst (emit_one P (env_kinds E) ctx pw' ev)))"
      if "ev \<in> set evs" and "processor_wf (fst pw')" for pw' ev
      using that by (blast intro: emit_one_wf)
  qed (simp add: assms)
  with assms show ?thesis
    by (auto simp: handleTransaction_def split: prod.splits option.splits sum.splits)
qed

lemma handleBlockMeta_wf: "processor_wf (fst pw) \<Longrightarrow> processor_wf (fst (fst (handleBlockMeta P ctx m pw)))"
  by (auto simp: handleBlockMeta_def Let_def HandleBlockMeta_wf processor_wf_def head_entry_def split: prod.splits option.splits)

lemma HandleUpdate_wf: "processor_wf (fst pw) \<Longrightarrow> processor_wf (fst (fst (HandleUpdate P E ctx u pw)))"
  by (auto simp: HandleUpdate_def handleTransaction_wf handleBlockMeta_wf handleSlot_wf handleAccount_def
      HandleAccount_wf processor_wf_decoder split: option.splits SubscribeUpdate.splits)

lemma NewProcessor_wf: "(\<And>c. cache = Some c \<Longrightarrow> cache_inv c) \<Longrightarrow> processor_wf (NewProcessor cache)"
  by (auto simp: NewProcessor_def processor_wf_def decoder_wf_def Decoder_New_def cache_inv_def
      NewMemorySlotTimeCache_def split: option.splits)

lemma process_wf: "processor_wf (fst pw) \<Longrightarrow> processor_wf (fst (process P E us pw))"
  unfolding process_def by (induction us arbitrary: pw) (simp_all add: HandleUpdate_wf case_prod_unfold)

section \<open>Properties\<close>

text \<open>
  (C9) The state of the processor is well typed after every stream of updates, whatever the publisher
  answers: no map has a key twice; under a slot of the pending map there is at least one swap, and all
  of them are provisional swaps of that slot; under a slot of the head map there is a confirmed head of
  that slot, so that a slot which was finalized or declared dead leaves no head behind.
\<close>

theorem processor_state_typed:
  assumes "\<And>c. cache = Some c \<Longrightarrow> cache_inv c"
    and "process P E us (NewProcessor cache, w) = (p, w')"
  shows "processor_wf p"
  using process_wf [of "(NewProcessor cache, w)" P E us] NewProcessor_wf [OF assms(1)] assms(2) by simp

text \<open>The property at a transaction with one swap followed by the finalization of its slot.\<close>

theorem processor_state_typed_witness:
  "cache_inv NewMemorySlotTimeCache \<and>
   (\<exists>p w. process accepting sample_decode_env sample_stream (NewProcessor (Some NewMemorySlotTimeCache), []) = (p, w) \<and> processor_wf p)"
proof -
  have cache: "cache_inv NewMemorySlotTimeCache" by (simp add: cache_inv_def NewMemorySlotTimeCache_def)
  obtain p w where "process accepting sample_decode_env sample_stream (NewProcessor (Some NewMemorySlotTimeCache), []) = (p, w)"
    by fastforce
  with processor_state_typed [OF _ this] cache show ?thesis by auto
qed

end
