(* ===== verification/Bridge.thy ===== *)
theory Bridge
  imports Publisher "HOL-Library.Product_Lexorder"
begin

text \<open>
  The legacy bridge: \<open>bridge/config.go\<close>, \<open>bridge/mapping.go\<close>, \<open>bridge/service.go\<close>. The file system and
  the YAML parser are parameters of \<open>LoadSubjectMappings\<close>; \<open>sort.Slice\<close> is a parameter with its
  contract \<open>sorts_by\<close>, because it leaves the order of equal elements open; the two JetStream
  servers answer according to the trace of what the bridge did before.
\<close>

section \<open>bridge/mapping.go\<close>

record SubjectMapping =
  sm_Source :: string
  sm_Target :: string
  sm_Drop :: bool

datatype mapping_error =
    ReadSubjectMap | SubjectMapEmpty string | ParseSubjectMap | NoMappings
  | SourceRequired nat | TargetRequired nat

fun clean_mappings :: "nat \<Rightarrow> SubjectMapping list \<Rightarrow> mapping_error + SubjectMapping list" where
  "clean_mappings i [] = Inr []"
| "clean_mappings i (m # ms) =
     (let src = TrimSpace (sm_Source m); tgt = TrimSpace (sm_Target m) in
      if src = [] then Inl (SourceRequired i)
      else if \<not> sm_Drop m \<and> tgt = [] then Inl (TargetRequired i)
      else case clean_mappings (i + 1) ms of
        Inl err \<Rightarrow> Inl err
      | Inr cleaned \<Rightarrow> Inr (\<lparr>sm_Source = src, sm_Target = tgt, sm_Drop = sm_Drop m\<rparr> # cleaned))"

definition LoadSubjectMappings ::
  "(string \<Rightarrow> string option) \<Rightarrow> (string \<Rightarrow> SubjectMapping list option) \<Rightarrow> string \<Rightarrow>
   mapping_error + SubjectMapping list" where
  "LoadSubjectMappings readFile unmarshal path =
     (case readFile path of None \<Rightarrow> Inl ReadSubjectMap | Some data \<Rightarrow>
      if TrimSpace data = [] then Inl (SubjectMapEmpty path)
      else case unmarshal data of None \<Rightarrow> Inl ParseSubjectMap | Some payload \<Rightarrow>
      if payload = [] then Inl NoMappings else clean_mappings 0 payload)"

type_synonym SubjectMapper = "string \<Rightarrow> string \<times> bool"

definition defaultSubjectMapper :: SubjectMapper where
  "defaultSubjectMapper subject = (subject, True)"

text \<open>The comparison passed to \<open>sort.Slice\<close>: longer sources first, then byte order.\<close>

definition mapping_less :: "SubjectMapping \<Rightarrow> SubjectMapping \<Rightarrow> bool" where
  "mapping_less a b =
     (if length (sm_Source a) = length (sm_Source b) then sm_Source a < sm_Source b
      else length (sm_Source a) > length (sm_Source b))"

definition sorts_by :: "('a \<Rightarrow> 'a \<Rightarrow> bool) \<Rightarrow> ('a list \<Rightarrow> 'a list) \<Rightarrow> bool" where
  "sorts_by lt f \<longleftrightarrow> (\<forall>xs. mset (f xs) = mset xs \<and> sorted_wrt (\<lambda>a b. \<not> lt b a) (f xs))"

fun apply_rules :: "SubjectMapping list \<Rightarrow> SubjectMapper" where
  "apply_rules [] subject = (subject, True)"
| "apply_rules (rule # rules) subject =
     (if HasPrefix subject (sm_Source rule) then
        (if sm_Drop rule then ([], False)
         else (sm_Target rule @ drop (length (sm_Source rule)) subject, True))
      else apply_rules rules subject)"

definition mapperFromMappings ::
  "(SubjectMapping list \<Rightarrow> SubjectMapping list) \<Rightarrow> SubjectMapping list \<Rightarrow> SubjectMapper" where
  "mapperFromMappings sort_slice mappings =
     (if mappings = [] then defaultSubjectMapper else apply_rules (sort_slice mappings))"

section \<open>bridge/config.go\<close>

record BridgeConfig =
  br_SourceURL :: string
  br_TargetURL :: string
  br_SourceStream :: string
  br_TargetStream :: string
  br_SubjectMappings :: "SubjectMapping list"
  br_MetricsAddr :: string

datatype bridge_config_error =
    SourceURLRequired | TargetURLRequired | SourceStreamRequired | TargetStreamRequired
  | LoadMappings mapping_error | FetchBatchNotPositive

definition Bridge_Validate :: "BridgeConfig \<Rightarrow> bridge_config_error option" where
  "Bridge_Validate c =
     (if br_SourceURL c = [] then Some SourceURLRequired
      else if br_TargetURL c = [] then Some TargetURLRequired
      else if br_SourceStream c = [] then Some SourceStreamRequired
      else if br_TargetStream c = [] then Some TargetStreamRequired
      else None)"

definition Bridge_FromEnv ::
  "(string \<Rightarrow> string option) \<Rightarrow> (string \<Rightarrow> SubjectMapping list option) \<Rightarrow> environ \<Rightarrow>
   bridge_config_error + BridgeConfig" where
  "Bridge_FromEnv readFile unmarshal env =
     (let cfg = \<lparr>br_SourceURL = env ''BRIDGE_SOURCE_NATS_URL'', br_TargetURL = env ''BRIDGE_TARGET_NATS_URL'',
            br_SourceStream = env ''BRIDGE_SOURCE_STREAM'', br_TargetStream = env ''BRIDGE_TARGET_STREAM'',
            br_SubjectMappings = [], br_MetricsAddr = env ''BRIDGE_METRICS_ADDR''\<rparr>;
          path = env ''BRIDGE_SUBJECT_MAP_PATH'';
          loaded = (if path = [] then Inr cfg
            else case LoadSubjectMappings readFile unmarshal path of
              Inl err \<Rightarrow> Inl (LoadMappings err)
            | Inr mappings \<Rightarrow> Inr (cfg\<lparr>br_SubjectMappings := mappings\<rparr>))
      in case loaded of
           Inl err \<Rightarrow> Inl err
         | Inr c \<Rightarrow> (case Bridge_Validate c of Some err \<Rightarrow> Inl err | None \<Rightarrow> Inr c))"

section \<open>bridge/service.go: construction\<close>

record serviceMetrics =
  bm_forwarded :: "(string, nat) gomap"
  bm_dropped :: "(string, nat) gomap"
  bm_publishErr :: "(string, nat) gomap"

definition counter_inc :: "string \<Rightarrow> (string, nat) gomap \<Rightarrow> (string, nat) gomap" where
  "counter_inc subject m = map_set subject (case map_get m subject of None \<Rightarrow> 1 | Some n \<Rightarrow> n + 1) m"

record BridgeService =
  bs_cfg :: BridgeConfig
  bs_mapper :: "SubjectMapper option"
  bs_fetchBatch :: int
  bs_fetchWait :: duration
  bs_publishTimeout :: duration
  bs_customMapper :: bool
  bs_metricsServer :: string

definition defaultFetchWait :: duration where "defaultFetchWait = 100 * time_Millisecond"

definition WithSubjectMapper :: "SubjectMapper option \<Rightarrow> BridgeService \<Rightarrow> BridgeService" where
  "WithSubjectMapper mapper s =
     (case mapper of None \<Rightarrow> s | Some f \<Rightarrow> s\<lparr>bs_mapper := Some f, bs_customMapper := True\<rparr>)"

definition WithMetricsServer :: "string \<Rightarrow> BridgeService \<Rightarrow> BridgeService" where
  "WithMetricsServer addr s = s\<lparr>bs_metricsServer := addr\<rparr>"

definition Bridge_New ::
  "(SubjectMapping list \<Rightarrow> SubjectMapping list) \<Rightarrow> BridgeConfig \<Rightarrow> (BridgeService \<Rightarrow> BridgeService) option list \<Rightarrow>
   bridge_config_error + BridgeService" where
  "Bridge_New sort_slice cfg opts =
     (case Bridge_Validate cfg of Some err \<Rightarrow> Inl err | None \<Rightarrow>
      let svc = \<lparr>bs_cfg = cfg, bs_mapper = Some defaultSubjectMapper, bs_fetchBatch = 64,
            bs_fetchWait = defaultFetchWait, bs_publishTimeout = 2 * time_Second, bs_customMapper = False,
            bs_metricsServer = br_MetricsAddr cfg\<rparr>;
          svc1 = fold (\<lambda>opt s. case opt of None \<Rightarrow> s | Some f \<Rightarrow> f s) opts svc;
          svc2 = (if \<not> bs_customMapper svc1 \<and> br_SubjectMappings cfg \<noteq> []
            then svc1\<lparr>bs_mapper := Some (mapperFromMappings sort_slice (br_SubjectMappings cfg))\<rparr> else svc1);
          svc3 = (if bs_mapper svc2 = None then svc2\<lparr>bs_mapper := Some defaultSubjectMapper\<rparr> else svc2)
      in if bs_fetchBatch svc3 \<le> 0 then Inl FetchBatchNotPositive
         else Inr (if bs_fetchWait svc3 \<le>s 0 then svc3\<lparr>bs_fetchWait := defaultFetchWait\<rparr> else svc3))"

definition bridge_mapper :: "BridgeService \<Rightarrow> SubjectMapper" where
  "bridge_mapper s = (case bs_mapper s of None \<Rightarrow> defaultSubjectMapper | Some f \<Rightarrow> f)"

definition collectSubjects :: "string list option \<Rightarrow> string list" where
  "collectSubjects cfg = (case cfg of None \<Rightarrow> [] | Some subjects \<Rightarrow> subjects)"

definition durable_char :: "char \<Rightarrow> char" where
  "durable_char r = (if r \<in> {CHR ''.'', CHR ''*'', CHR ''>'', CHR '' '', CHR '':''} then CHR ''_'' else r)"

definition durableName :: "string \<Rightarrow> string" where
  "durableName subject =
     (let cleaned = Trim (\<lambda>c. c = CHR ''_'') (map durable_char subject);
          cleaned1 = (if cleaned = [] then ''all'' else cleaned);
          cleaned2 = (if length cleaned1 > 64 then take 64 cleaned1 else cleaned1)
      in ''bridge_'' @ cleaned2)"

section \<open>bridge/service.go: forwarding\<close>

record bridge_msg =
  bg_Subject :: string
  bg_Header :: "(string, string list) gomap"
  bg_Data :: bytes

definition cloneHeader :: "(string, string list) gomap \<Rightarrow> (string, string list) gomap" where
  "cloneHeader h = fold (\<lambda>(k, values) dup. map_set k values dup) h []"

text \<open>The answer of the target: an error (was the context cancelled?) or an acknowledgement.\<close>

datatype target_reply = TargetErr bool | TargetAck "string option"

text \<open>What the bridge did, in order: publishing to the target, acknowledging to the source.\<close>

datatype bridge_event =
    Published bridge_msg target_reply
  | AckSent bridge_msg bool

type_synonym bridge_trace = "bridge_event list"

type_synonym target_server = "bridge_trace \<Rightarrow> bridge_msg \<Rightarrow> string \<Rightarrow> target_reply"

type_synonym source_acks = "bridge_trace \<Rightarrow> bridge_msg \<Rightarrow> bool"

datatype forward_error =
    ForwardCanceled | PublishTo string | UnexpectedAckStream string string | AckSource | AckDropped
  | FetchFailed

record bridge_state =
  bst_trace :: bridge_trace
  bst_metrics :: serviceMetrics

definition ack_source ::
  "source_acks \<Rightarrow> bridge_msg \<Rightarrow> bridge_state \<Rightarrow> bridge_state \<times> bool" where
  "ack_source acks msg st =
     (let ok = acks (bst_trace st) msg
      in (st\<lparr>bst_trace := bst_trace st @ [AckSent msg ok]\<rparr>, ok))"

definition translate :: "string \<Rightarrow> bridge_msg \<Rightarrow> bridge_msg" where
  "translate mapped msg =
     \<lparr>bg_Subject = mapped,
      bg_Header = (if bg_Header msg \<noteq> [] then cloneHeader (bg_Header msg) else []),
      bg_Data = bg_Data msg\<rparr>"

definition forward ::
  "target_server \<Rightarrow> source_acks \<Rightarrow> BridgeService \<Rightarrow> bridge_msg \<Rightarrow> bridge_state \<Rightarrow>
   bridge_state \<times> forward_error option" where
  "forward target acks s msg st =
     (case bridge_mapper s (bg_Subject msg) of
        (_, False) \<Rightarrow>
          let st1 = st\<lparr>bst_metrics := (bst_metrics st)\<lparr>bm_dropped := counter_inc (bg_Subject msg) (bm_dropped (bst_metrics st))\<rparr>\<rparr>;
              (st2, ok) = ack_source acks msg st1
          in (st2, if ok then None else Some AckDropped)
      | (mapped, True) \<Rightarrow>
          let publish = translate mapped msg;
              stream = br_TargetStream (bs_cfg s);
              reply = target (bst_trace st) publish stream;
              st1 = st\<lparr>bst_trace := bst_trace st @ [Published publish reply]\<rparr>
          in case reply of
               TargetErr canceled \<Rightarrow>
                 (st1\<lparr>bst_metrics := (bst_metrics st1)\<lparr>bm_publishErr := counter_inc mapped (bm_publishErr (bst_metrics st1))\<rparr>\<rparr>,
                  Some (if canceled then ForwardCanceled else PublishTo mapped))
             | TargetAck ack \<Rightarrow>
                 if ack \<noteq> None \<and> the ack \<noteq> [] \<and> the ack \<noteq> stream
                 then (st1, Some (UnexpectedAckStream mapped (the ack)))
                 else
                   let (st2, ok) = ack_source acks msg st1
                   in if \<not> ok then (st2, Some AckSource)
                      else (st2\<lparr>bst_metrics := (bst_metrics st2)\<lparr>bm_forwarded := counter_inc mapped (bm_forwarded (bst_metrics st2))\<rparr>\<rparr>,
                            None))"

text \<open>
  The consume loop over what the subscription and the context do: each entry is the state of the
  context and the result of one \<open>Fetch\<close>. Running out of entries is a loop that is still running.
\<close>

datatype fetch_result = FetchTimeout | FetchError bool | Fetched "bridge_msg list"

fun consumeLoop ::
  "target_server \<Rightarrow> source_acks \<Rightarrow> BridgeService \<Rightarrow> (bool \<times> fetch_result) list \<Rightarrow> bridge_state \<Rightarrow>
   bridge_state \<times> forward_error option" where
  "consumeLoop target acks s [] st = (st, None)"
| "consumeLoop target acks s ((canceled, result) # rest) st =
     (if canceled then (st, Some ForwardCanceled)
      else case result of
        FetchTimeout \<Rightarrow> consumeLoop target acks s rest st
      | FetchError ctx_canceled \<Rightarrow> (st, Some (if ctx_canceled then ForwardCanceled else FetchFailed))
      | Fetched msgs \<Rightarrow>
          (case first_err (\<lambda>st msg. forward target acks s msg st) st msgs of
             (st', Some err) \<Rightarrow> (st', Some err)
           | (st', None) \<Rightarrow> consumeLoop target acks s rest st'))"

section \<open>Lemmas on mappings\<close>

lemma apply_rules_first:
  "apply_rules rules subject =
     (case List.find (\<lambda>r. HasPrefix subject (sm_Source r)) rules of
        None \<Rightarrow> (subject, True)
      | Some r \<Rightarrow> if sm_Drop r then ([], False) else (sm_Target r @ drop (length (sm_Source r)) subject, True))"
  by (induction rules) auto

lemma mapping_less_longer: "\<not> mapping_less b a \<Longrightarrow> length (sm_Source b) \<le> length (sm_Source a)"
  by (auto simp: mapping_less_def split: if_splits)

lemma find_first_longest:
  assumes "sorted_wrt (\<lambda>a b. \<not> mapping_less b a) rules"
    and "List.find (\<lambda>r. HasPrefix subject (sm_Source r)) rules = Some r"
  shows "r \<in> set rules \<and> HasPrefix subject (sm_Source r)
    \<and> (\<forall>q \<in> set rules. HasPrefix subject (sm_Source q) \<longrightarrow> length (sm_Source q) \<le> length (sm_Source r))"
  using assms by (induction rules) (auto split: if_splits dest: mapping_less_longer)

lemma prefixes_same_length: "HasPrefix s p \<Longrightarrow> HasPrefix s q \<Longrightarrow> length p = length q \<Longrightarrow> p = q"
  by (auto simp: HasPrefix_iff)

text \<open>A subject under a rule: what the rule makes of it.\<close>

definition rule_result :: "SubjectMapping \<Rightarrow> string \<Rightarrow> string \<times> bool" where
  "rule_result r subject =
     (if sm_Drop r then ([], False) else (sm_Target r @ drop (length (sm_Source r)) subject, True))"

section \<open>Lemmas on forwarding\<close>

definition accepted :: "string \<Rightarrow> target_reply \<Rightarrow> bool" where
  "accepted stream reply \<longleftrightarrow> (\<exists>ack. reply = TargetAck ack \<and> (ack = None \<or> the ack = [] \<or> the ack = stream))"

text \<open>An acknowledgement to the source is justified when the message was dropped or accepted before.\<close>

definition ack_justified :: "BridgeService \<Rightarrow> bridge_trace \<Rightarrow> bridge_msg \<Rightarrow> bool" where
  "ack_justified s before msg \<longleftrightarrow>
     \<not> snd (bridge_mapper s (bg_Subject msg))
     \<or> (\<exists>reply. accepted (br_TargetStream (bs_cfg s)) reply
          \<and> Published (translate (fst (bridge_mapper s (bg_Subject msg))) msg) reply \<in> set before)"

definition acks_justified :: "BridgeService \<Rightarrow> bridge_trace \<Rightarrow> bool" where
  "acks_justified s tr \<longleftrightarrow>
     (\<forall>i < length tr. \<forall>msg ok. tr ! i = AckSent msg ok \<longrightarrow> ack_justified s (take i tr) msg)"

lemma acks_justified_snoc:
  "acks_justified s (tr @ [ev]) \<longleftrightarrow>
     acks_justified s tr \<and> (\<forall>msg ok. ev = AckSent msg ok \<longrightarrow> ack_justified s tr msg)"
  unfolding acks_justified_def by (auto simp: less_Suc_eq nth_append)

lemma acks_justified_snoc2:
  "acks_justified s (tr @ [a, b]) \<longleftrightarrow> acks_justified s (tr @ [a])
     \<and> (\<forall>msg ok. b = AckSent msg ok \<longrightarrow> ack_justified s (tr @ [a]) msg)"
  using acks_justified_snoc [of s "tr @ [a]" b] by simp

lemma acks_justified_split:
  "acks_justified s (pre @ AckSent msg ok # post) \<Longrightarrow> ack_justified s pre msg"
  unfolding acks_justified_def by (drule spec [of _ "length pre"]) simp

lemma forward_justified:
  assumes "acks_justified s (bst_trace st)"
  shows "acks_justified s (bst_trace (fst (forward target acks s msg st)))"
proof (cases "bridge_mapper s (bg_Subject msg)")
  case (Pair mapped keep)
  then show ?thesis
    using assms
    by (cases keep) (auto simp: forward_def ack_source_def acks_justified_snoc acks_justified_snoc2
        ack_justified_def accepted_def Let_def
        split: target_reply.splits)
qed

lemma consumeLoop_justified:
  "acks_justified s (bst_trace st) \<Longrightarrow> acks_justified s (bst_trace (fst (consumeLoop target acks s script st)))"
proof (induction target acks s script st rule: consumeLoop.induct)
  case (2 target acks s canceled result rest st)
  have batch: "acks_justified s (bst_trace (fst (first_err (\<lambda>st msg. forward target acks s msg st) st msgs)))" for msgs
    using "2.prems" by (intro first_err_inv [where I = "\<lambda>st. acks_justified s (bst_trace st)"] forward_justified)
  show ?case
  proof (cases result)
    case (Fetched msgs)
    with batch [of msgs] "2.IH" show ?thesis
      using "2.prems" by (cases "first_err (\<lambda>st msg. forward target acks s msg st) st msgs") (auto split: option.splits)
  qed (use "2" in auto)
qed simp

section \<open>Lemmas on durable names\<close>

lemma set_Trim: "set (Trim f s) \<subseteq> set s"
proof -
  have "set (dropWhile f xs) \<subseteq> set xs" for xs by (auto dest: set_dropWhileD)
  from this [of "rev (dropWhile f s)"] this [of s] show ?thesis by (auto simp: Trim_def)
qed

lemma map_get_fold_copy:
  "map_ok h \<Longrightarrow> map_ok dup \<Longrightarrow>
     map_ok (fold (\<lambda>(k, vs) dup. map_set k vs dup) h dup)
     \<and> map_get (fold (\<lambda>(k, vs) dup. map_set k vs dup) h dup) k = (case map_get h k of Some v \<Rightarrow> Some v | None \<Rightarrow> map_get dup k)"
proof (induction h arbitrary: dup)
  case (Cons e h)
  obtain k' v where e: "e = (k', v)" by fastforce
  have "map_ok h" "map_get h k' = None"
    using Cons.prems(1) by (auto simp: map_ok_def e map_get_def map_of_eq_None_iff)
  with Cons.IH [of "map_set k' v dup"] Cons.prems(2) show ?case
    by (auto simp: e map_get_def split: option.splits) (auto simp flip: map_get_def)
qed (simp add: map_get_def)

lemma durable_char_clean: "durable_char r \<notin> {CHR ''.'', CHR ''*'', CHR ''>'', CHR '' '', CHR '':''}"
  by (simp add: durable_char_def)

section \<open>Properties\<close>

text \<open>
  (C33) Subject translation picks the longest matching rule, whatever order the sorting routine gives
  to equal rules: a subject that no rule matches is kept; otherwise the result is that of a rule
  of the list whose source is a prefix of the subject and at least as long as the source of every
  other matching rule (drop, or the target followed by the rest of the subject).
\<close>

theorem mapper_longest_prefix:
  assumes "sorts_by mapping_less sort_slice"
  shows "if \<exists>r \<in> set mappings. HasPrefix subject (sm_Source r)
    then \<exists>r \<in> set mappings. HasPrefix subject (sm_Source r)
      \<and> (\<forall>q \<in> set mappings. HasPrefix subject (sm_Source q) \<longrightarrow> length (sm_Source q) \<le> length (sm_Source r))
      \<and> mapperFromMappings sort_slice mappings subject = rule_result r subject
    else mapperFromMappings sort_slice mappings subject = (subject, True)"
proof -
  let ?rules = "sort_slice mappings"
  have set: "set ?rules = set mappings" and sorted: "sorted_wrt (\<lambda>a b. \<not> mapping_less b a) ?rules"
    using assms by (auto simp: sorts_by_def dest: mset_eq_setD)
  show ?thesis
  proof (cases "List.find (\<lambda>r. HasPrefix subject (sm_Source r)) ?rules")
    case None
    then have "mapperFromMappings sort_slice mappings subject = (subject, True)"
      by (simp add: mapperFromMappings_def apply_rules_first defaultSubjectMapper_def)
    with None set show ?thesis by (auto simp: find_None_iff)
  next
    case (Some r)
    note longest = find_first_longest [OF sorted Some]
    have "mapperFromMappings sort_slice mappings subject = rule_result r subject"
      using Some longest set by (auto simp: mapperFromMappings_def apply_rules_first rule_result_def)
    then show ?thesis using longest set by auto
  qed
qed

definition insertion_sort_slice :: "SubjectMapping list \<Rightarrow> SubjectMapping list" where
  "insertion_sort_slice = sort_key (\<lambda>m. (- int (length (sm_Source m)), sm_Source m))"

lemma insertion_sort_sorts: "sorts_by mapping_less insertion_sort_slice"
proof -
  let ?key = "\<lambda>m. (- int (length (sm_Source m)), sm_Source m)"
  have "sorted_wrt (\<lambda>a b. ?key a \<le> ?key b) (sort_key ?key xs)" for xs :: "SubjectMapping list"
    using sorted_sort_key [of ?key xs] by (simp add: sorted_map)
  then have "sorted_wrt (\<lambda>a b. \<not> mapping_less b a) (sort_key ?key xs)" for xs
    by (rule sorted_wrt_mono_rel [rotated]) (auto simp: mapping_less_def less_eq_prod_def split: if_splits)
  then show ?thesis by (simp add: sorts_by_def insertion_sort_slice_def)
qed

definition sample_mappings :: "SubjectMapping list" where
  "sample_mappings = [\<lparr>sm_Source = ''dex.sol.'', sm_Target = ''legacy.'', sm_Drop = False\<rparr>,
     \<lparr>sm_Source = ''dex.sol.tx.'', sm_Target = [], sm_Drop = True\<rparr>]"

text \<open>The property at two rules of which the longer one drops transaction summaries.\<close>

theorem mapper_longest_prefix_witness:
  "sorts_by mapping_less insertion_sort_slice
   \<and> mapperFromMappings insertion_sort_slice sample_mappings ''dex.sol.tx.meta'' = ([], False)"
proof -
  have "\<exists>r \<in> set sample_mappings. HasPrefix ''dex.sol.tx.meta'' (sm_Source r)"
    by (simp add: sample_mappings_def HasPrefix_def)
  with mapper_longest_prefix [OF insertion_sort_sorts, of sample_mappings "''dex.sol.tx.meta''"]
  have "\<exists>r \<in> set sample_mappings.
      (\<forall>q \<in> set sample_mappings. HasPrefix ''dex.sol.tx.meta'' (sm_Source q) \<longrightarrow> length (sm_Source q) \<le> length (sm_Source r))
      \<and> mapperFromMappings insertion_sort_slice sample_mappings ''dex.sol.tx.meta'' = rule_result r ''dex.sol.tx.meta''"
    by auto
  then have "mapperFromMappings insertion_sort_slice sample_mappings ''dex.sol.tx.meta'' = ([], False)"
    by (auto simp: sample_mappings_def rule_result_def HasPrefix_def)
  then show ?thesis using insertion_sort_sorts by simp
qed

text \<open>
  The bridge is at-least-once: in every run of the consume loop, whatever the servers answer and
  however it ends, a source message is acknowledged only after a rule dropped it or after the
  target accepted the same data and headers under the mapped subject.
\<close>

theorem ack_only_after_publish:
  assumes "consumeLoop target acks s script \<lparr>bst_trace = [], bst_metrics = m\<rparr> = (st, r)"
    and "bst_trace st = before @ AckSent msg ok # after"
  shows "\<not> snd (bridge_mapper s (bg_Subject msg))
    \<or> (\<exists>reply. accepted (br_TargetStream (bs_cfg s)) reply
        \<and> Published (translate (fst (bridge_mapper s (bg_Subject msg))) msg) reply \<in> set before)"
proof -
  have "acks_justified s (bst_trace st)"
    using consumeLoop_justified [of s "\<lparr>bst_trace = [], bst_metrics = m\<rparr>" target acks script] assms(1)
    by (simp add: acks_justified_def)
  then show ?thesis using acks_justified_split assms(2) by (simp add: ack_justified_def)
qed

definition sample_bridge :: BridgeService where
  "sample_bridge = \<lparr>bs_cfg = \<lparr>br_SourceURL = ''a'', br_TargetURL = ''b'', br_SourceStream = ''DEX'', br_TargetStream = ''LEGACY'',
       br_SubjectMappings = [], br_MetricsAddr = []\<rparr>, bs_mapper = Some (apply_rules sample_mappings), bs_fetchBatch = 64,
     bs_fetchWait = defaultFetchWait, bs_publishTimeout = 0, bs_customMapper = True, bs_metricsServer = []\<rparr>"

definition sample_head_msg :: bridge_msg where
  "sample_head_msg = \<lparr>bg_Subject = ''dex.sol.blocks.head'', bg_Header = [(''Nats-Msg-Id'', [''501:7''])], bg_Data = [1, 2]\<rparr>"

definition no_metrics :: serviceMetrics where
  "no_metrics = \<lparr>bm_forwarded = [], bm_dropped = [], bm_publishErr = []\<rparr>"

text \<open>The property at one forwarded block head: it was accepted under the legacy subject before.\<close>

theorem ack_only_after_publish_witness:
  "\<exists>st r before. consumeLoop (\<lambda>_ _ _. TargetAck (Some ''LEGACY'')) (\<lambda>_ _. True) sample_bridge [(False, Fetched [sample_head_msg])]
       \<lparr>bst_trace = [], bst_metrics = no_metrics\<rparr> = (st, r)
     \<and> bst_trace st = before @ AckSent sample_head_msg True # []
     \<and> (\<exists>reply. Published (translate ''legacy.blocks.head'' sample_head_msg) reply \<in> set before)"
proof -
  let ?run = "consumeLoop (\<lambda>_ _ _. TargetAck (Some ''LEGACY'')) (\<lambda>_ _. True) sample_bridge [(False, Fetched [sample_head_msg])]
       \<lparr>bst_trace = [], bst_metrics = no_metrics\<rparr>"
  have map: "bridge_mapper sample_bridge (bg_Subject sample_head_msg) = (''legacy.blocks.head'', True)"
    by (simp add: bridge_mapper_def sample_bridge_def sample_mappings_def sample_head_msg_def HasPrefix_def)
  have stream: "br_TargetStream (bs_cfg sample_bridge) = ''LEGACY''" by (simp add: sample_bridge_def)
  obtain st r before where run: "?run = (st, r)" and tr: "bst_trace st = before @ AckSent sample_head_msg True # []"
    by (simp add: forward_def map stream ack_source_def Let_def)
  with ack_only_after_publish [OF run tr] show ?thesis unfolding map by auto
qed

text \<open>
  The header of a forwarded message is a copy: looking up any key gives the same values as in the
  source message, so the identifier for deduplication is kept.
\<close>

theorem cloneHeader_same:
  assumes "map_ok h"
  shows "map_get (cloneHeader h) k = map_get h k \<and> map_ok (cloneHeader h)"
  using map_get_fold_copy [OF assms, of "[]" k] by (auto simp: cloneHeader_def split: option.splits)

text \<open>The property at a header with a message identifier.\<close>

text \<open>
  The durable name of a subject is a valid consumer name: it starts with \<open>bridge_\<close>, has at most 71
  characters and none of them separates tokens or is a wildcard, a blank or a colon.
\<close>

theorem durableName_valid:
  "HasPrefix (durableName subject) ''bridge_'' \<and> length (durableName subject) \<le> 71
   \<and> set (durableName subject) \<inter> {CHR ''.'', CHR ''*'', CHR ''>'', CHR '' '', CHR '':''} = {}"
proof -
  let ?bad = "{CHR ''.'', CHR ''*'', CHR ''>'', CHR '' '', CHR '':''}"
  let ?t = "Trim (\<lambda>c. c = CHR ''_'') (map durable_char subject)"
  have clean: "set ?t \<inter> ?bad = {}"
    using set_Trim [of "\<lambda>c. c = CHR ''_''" "map durable_char subject"] durable_char_clean by fastforce
  let ?name = "if length ?t > 64 then take 64 ?t else ?t"
  have "set (if ?t = [] then ''all'' else ?name) \<inter> ?bad = {}"
    using clean by (auto dest: in_set_takeD)
  moreover have "length (if ?t = [] then ''all'' else ?name) \<le> 64" by simp
  moreover have "durableName subject = ''bridge_'' @ (if ?t = [] then ''all'' else ?name)"
    by (simp add: durableName_def Let_def)
  ultimately obtain x where "durableName subject = ''bridge_'' @ x" "length x \<le> 64" "set x \<inter> ?bad = {}"
    by blast
  then show ?thesis by (simp add: HasPrefix_def)
qed

end
