(* ===== verification/BridgeRun.thy ===== *)
theory BridgeRun
  imports Bridge
begin

text \<open>
  \<open>Run\<close> of \<open>bridge/service.go\<close>: the set-up and the group of consumers, one per subject of the source
  stream, which run concurrently on one target until one of them fails. A consumer that polls or
  forwards takes one step at a time; the schedule names the consumer and what its context and
  subscription do. The answers of the servers while the bridge is set up are a record.
\<close>

record bridge_env =
  be_source :: bool
  be_target :: bool
  be_sourceJS :: bool
  be_targetJS :: bool
  be_streamInfo :: "string list option"
  be_pull :: "string \<Rightarrow> string \<Rightarrow> bool"

datatype bridge_run_error =
    ConnectSource | ConnectTarget | SourceJetStream | TargetJetStream | DescribeSource | NoSubjects
  | PullSubscribeErr string | RunCanceled | ConsumerErr forward_error | MetricsServerErr

datatype consumer = Polling | Forwarding "bridge_msg list" | Returned

datatype group_error = GroupConsumer forward_error | GroupMetrics

record bridge_group =
  gp_state :: bridge_state
  gp_consumers :: "consumer list"
  gp_err :: "group_error option"

text \<open>The loop over the subjects: the consumers started, and the subject whose subscription failed.\<close>

fun subscribe_all :: "bridge_env \<Rightarrow> string list \<Rightarrow> consumer list \<times> string option" where
  "subscribe_all env [] = ([], None)"
| "subscribe_all env (subject # subjects) =
     (if be_pull env subject (durableName subject)
      then (case subscribe_all env subjects of (cs, failed) \<Rightarrow> (Polling # cs, failed))
      else ([], Some subject))"

text \<open>A consumer that returns an error cancels the group's context; the first error is kept.\<close>

definition consumer_returns :: "nat \<Rightarrow> forward_error \<Rightarrow> bridge_group \<Rightarrow> bridge_group" where
  "consumer_returns i err g =
     g\<lparr>gp_consumers := (gp_consumers g)[i := Returned],
       gp_err := (if gp_err g = None then Some (GroupConsumer err) else gp_err g)\<rparr>"

datatype group_event = Turn nat bool fetch_result | MetricsFails

definition poll :: "nat \<Rightarrow> bool \<Rightarrow> fetch_result \<Rightarrow> bridge_group \<Rightarrow> bridge_group" where
  "poll i canceled result g =
     (if canceled \<or> gp_err g \<noteq> None then consumer_returns i ForwardCanceled g
      else case result of
        FetchTimeout \<Rightarrow> g
      | FetchError ctx_canceled \<Rightarrow> consumer_returns i (if ctx_canceled then ForwardCanceled else FetchFailed) g
      | Fetched msgs \<Rightarrow> g\<lparr>gp_consumers := (gp_consumers g)[i := Forwarding msgs]\<rparr>)"

definition group_step :: "target_server \<Rightarrow> source_acks \<Rightarrow> BridgeService \<Rightarrow> group_event \<Rightarrow> bridge_group \<Rightarrow> bridge_group" where
  "group_step target acks s ev g =
     (case ev of
        MetricsFails \<Rightarrow> g\<lparr>gp_err := (if gp_err g = None then Some GroupMetrics else gp_err g)\<rparr>
      | Turn i canceled result \<Rightarrow>
          if i \<ge> length (gp_consumers g) then g
          else case gp_consumers g ! i of
            Returned \<Rightarrow> g
          | Polling \<Rightarrow> poll i canceled result g
          | Forwarding [] \<Rightarrow> poll i canceled result g
          | Forwarding (m # ms) \<Rightarrow>
              (case forward target acks s m (gp_state g) of
                 (st', None) \<Rightarrow> g\<lparr>gp_state := st', gp_consumers := (gp_consumers g)[i := Forwarding ms]\<rparr>
               | (st', Some err) \<Rightarrow> consumer_returns i err (g\<lparr>gp_state := st'\<rparr>)))"

definition group_run ::
  "target_server \<Rightarrow> source_acks \<Rightarrow> BridgeService \<Rightarrow> group_event list \<Rightarrow> bridge_group \<Rightarrow> bridge_group" where
  "group_run target acks s evs g = fold (group_step target acks s) evs g"

definition group_start :: "consumer list \<Rightarrow> serviceMetrics \<Rightarrow> bridge_group" where
  "group_start cs m = \<lparr>gp_state = \<lparr>bst_trace = [], bst_metrics = m\<rparr>, gp_consumers = cs, gp_err = None\<rparr>"

text \<open>What \<open>Wait\<close> and the end of \<open>Run\<close> make of the group; \<open>None\<close> while a consumer is running.\<close>

definition group_result :: "bridge_group \<Rightarrow> bridge_run_error option option" where
  "group_result g =
     (if \<not> list_all (\<lambda>c. c = Returned) (gp_consumers g) then None
      else Some (case gp_err g of
        None \<Rightarrow> None
      | Some GroupMetrics \<Rightarrow> Some MetricsServerErr
      | Some (GroupConsumer ForwardCanceled) \<Rightarrow> Some RunCanceled
      | Some (GroupConsumer err) \<Rightarrow> Some (ConsumerErr err)))"

definition Bridge_Run ::
  "bridge_env \<Rightarrow> target_server \<Rightarrow> source_acks \<Rightarrow> BridgeService \<Rightarrow> serviceMetrics \<Rightarrow> group_event list \<Rightarrow>
   bridge_group \<times> bridge_run_error option option" where
  "Bridge_Run env target acks s m evs =
     (let stop = (\<lambda>err. (group_start [] m, Some (Some err))) in
      if \<not> be_source env then stop ConnectSource
      else if \<not> be_target env then stop ConnectTarget
      else if \<not> be_sourceJS env then stop SourceJetStream
      else if \<not> be_targetJS env then stop TargetJetStream
      else case be_streamInfo env of
        None \<Rightarrow> stop DescribeSource
      | Some subjects \<Rightarrow>
          if collectSubjects (Some subjects) = [] then stop NoSubjects
          else case subscribe_all env (collectSubjects (Some subjects)) of
            (cs, failed) \<Rightarrow>
              let g = group_run target acks s evs (group_start cs m)
              in (g, case failed of Some subject \<Rightarrow> Some (Some (PullSubscribeErr subject)) | None \<Rightarrow> group_result g))"

section \<open>Lemmas\<close>

lemma consumer_returns_simps [simp]:
  "gp_state (consumer_returns i err g) = gp_state g"
  "length (gp_consumers (consumer_returns i err g)) = length (gp_consumers g)"
  "gp_err (consumer_returns i err g) \<noteq> None"
  by (simp_all add: consumer_returns_def)

lemma poll_state [simp]: "gp_state (poll i canceled result g) = gp_state g"
  by (simp add: poll_def split: fetch_result.splits)

lemma forward_result_justified:
  "forward target acks s m st = (st', r) \<Longrightarrow> acks_justified s (bst_trace st) \<Longrightarrow> acks_justified s (bst_trace st')"
  using forward_justified [of s st target acks m] by simp

lemma group_step_justified:
  assumes "acks_justified s (bst_trace (gp_state g))"
  shows "acks_justified s (bst_trace (gp_state (group_step target acks s ev g)))"
  using assms
  by (auto simp: group_step_def dest: forward_result_justified
      split: group_event.splits consumer.splits list.splits prod.splits option.splits)

lemma group_run_justified:
  "acks_justified s (bst_trace (gp_state g)) \<Longrightarrow> acks_justified s (bst_trace (gp_state (group_run target acks s evs g)))"
  unfolding group_run_def by (induction evs arbitrary: g) (auto intro: group_step_justified)

lemma group_run_append: "group_run target acks s (evs @ evs') g = group_run target acks s evs' (group_run target acks s evs g)"
  by (simp add: group_run_def)

text \<open>A consumer that is alone in its group does what \<open>consumeLoop\<close> does.\<close>

definition alone :: "consumer \<Rightarrow> forward_error option \<Rightarrow> bridge_state \<Rightarrow> bridge_group" where
  "alone c e st = \<lparr>gp_state = st, gp_consumers = [c], gp_err = map_option GroupConsumer e\<rparr>"

lemma alone_returns: "consumer_returns 0 err (alone c None st) = alone Returned (Some err) st"
  by (simp add: consumer_returns_def alone_def)

lemma alone_returned: "group_run target acks s evs (alone Returned (Some e) st) = alone Returned (Some e) st"
  if "\<forall>ev \<in> set evs. ev \<noteq> MetricsFails"
  using that unfolding group_run_def
  by (induction evs) (auto simp: group_step_def alone_def not_le split: group_event.splits)

lemma alone_forwards:
  "group_run target acks s (replicate (length msgs) (Turn 0 False FetchTimeout)) (alone (Forwarding msgs) None st) =
     (case first_err (\<lambda>st msg. forward target acks s msg st) st msgs of
        (st', None) \<Rightarrow> alone (Forwarding []) None st'
      | (st', Some err) \<Rightarrow> alone Returned (Some err) st')"
proof (induction msgs arbitrary: st)
  case (Cons m ms)
  obtain st1 r1 where fwd: "forward target acks s m st = (st1, r1)" by fastforce
  have step: "group_step target acks s (Turn 0 False FetchTimeout) (alone (Forwarding (m # ms)) None st) =
      (case r1 of None \<Rightarrow> alone (Forwarding ms) None st1 | Some err \<Rightarrow> alone Returned (Some err) st1)"
    by (auto simp: group_step_def alone_def fwd consumer_returns_def split: option.splits)
  show ?case
  proof (cases r1)
    case None
    then show ?thesis using Cons.IH [of st1] step by (simp add: fwd group_run_def)
  next
    case (Some err)
    have "group_run target acks s (replicate (length ms) (Turn 0 False FetchTimeout)) (alone Returned (Some err) st1) =
        alone Returned (Some err) st1"
      by (rule alone_returned) simp
    then show ?thesis using step Some by (simp add: fwd group_run_def)
  qed
qed (simp add: group_run_def)

lemma alone_polls:
  assumes "c \<in> {Polling, Forwarding []}"
  shows "group_run target acks s [Turn 0 canceled result] (alone c None st) =
    (if canceled then alone Returned (Some ForwardCanceled) st
     else case result of
       FetchTimeout \<Rightarrow> alone c None st
     | FetchError ctx_canceled \<Rightarrow> alone Returned (Some (if ctx_canceled then ForwardCanceled else FetchFailed)) st
     | Fetched msgs \<Rightarrow> alone (Forwarding msgs) None st)"
  using assms
  by (auto simp: group_run_def group_step_def poll_def alone_def consumer_returns_def split: fetch_result.splits)

text \<open>The turns of the schedule that make the consumer follow a script.\<close>

fun turns_of :: "(bool \<times> fetch_result) list \<Rightarrow> group_event list" where
  "turns_of [] = []"
| "turns_of ((canceled, result) # rest) =
     Turn 0 canceled result #
     (case result of Fetched msgs \<Rightarrow> replicate (length msgs) (Turn 0 False FetchTimeout) | _ \<Rightarrow> []) @ turns_of rest"

lemma turns_of_no_metrics: "\<forall>ev \<in> set (turns_of script). ev \<noteq> MetricsFails"
  by (induction script rule: turns_of.induct) (auto split: fetch_result.splits)

lemma alone_consumeLoop:
  "c \<in> {Polling, Forwarding []} \<Longrightarrow>
   \<exists>c' \<in> {Polling, Forwarding []}. group_run target acks s (turns_of script) (alone c None st) =
     (case consumeLoop target acks s script st of
        (st', None) \<Rightarrow> alone c' None st'
      | (st', Some err) \<Rightarrow> alone Returned (Some err) st')"
proof (induction script arbitrary: c st)
  case Nil
  then show ?case by (auto simp: group_run_def)
next
  case (Cons turn rest)
  obtain canceled result where turn: "turn = (canceled, result)" by fastforce
  have first: "group_run target acks s (turns_of (turn # rest)) (alone c None st) =
      group_run target acks s ((case result of Fetched msgs \<Rightarrow> replicate (length msgs) (Turn 0 False FetchTimeout) | _ \<Rightarrow> []) @ turns_of rest)
        (group_run target acks s [Turn 0 canceled result] (alone c None st))"
    by (simp add: turn group_run_def)
  have ended: "group_run target acks s ((case result of Fetched msgs \<Rightarrow> replicate (length msgs) (Turn 0 False FetchTimeout) | _ \<Rightarrow> []) @ turns_of rest)
      (alone Returned (Some e) st') = alone Returned (Some e) st'" for e st'
    by (rule alone_returned) (use turns_of_no_metrics in \<open>auto split: fetch_result.splits\<close>)
  have rest_ended: "group_run target acks s (turns_of rest) (alone Returned (Some e) st') = alone Returned (Some e) st'" for e st'
    by (rule alone_returned) (rule turns_of_no_metrics)
  show ?case
  proof (cases canceled)
    case True
    then show ?thesis unfolding first alone_polls [OF Cons.prems] using ended by (auto simp: turn)
  next
    case False
    show ?thesis
    proof (cases result)
      case FetchTimeout
      then show ?thesis unfolding first alone_polls [OF Cons.prems] using Cons.IH [OF Cons.prems] False by (simp add: turn)
    next
      case (FetchError b)
      then show ?thesis unfolding first alone_polls [OF Cons.prems] using ended False by (auto simp: turn)
    next
      case (Fetched msgs)
      obtain st1 r1 where loop: "first_err (\<lambda>st msg. forward target acks s msg st) st msgs = (st1, r1)" by fastforce
      show ?thesis
        unfolding first alone_polls [OF Cons.prems]
        using False Fetched Cons.IH [of "Forwarding []" st1] rest_ended
        by (cases r1) (auto simp: turn loop group_run_append alone_forwards)
    qed
  qed
qed

section \<open>Properties\<close>

text \<open>(C3) The bridge is at-least-once across its consumers: whatever the subjects of the source stream, the
  interleaving of their consumers on the shared target, the answers of the servers and the point where
  the group fails, a source message is acknowledged only after a rule dropped it or after the target
  accepted the same data and headers under the mapped subject.\<close>

theorem bridge_run_acks:
  assumes "Bridge_Run env target acks s m evs = (g, r)"
    and "bst_trace (gp_state g) = before @ AckSent msg ok # after"
  shows "\<not> snd (bridge_mapper s (bg_Subject msg))
    \<or> (\<exists>reply. accepted (br_TargetStream (bs_cfg s)) reply
        \<and> Published (translate (fst (bridge_mapper s (bg_Subject msg))) msg) reply \<in> set before)"
proof -
  let ?cs = "fst (subscribe_all env (collectSubjects (be_streamInfo env)))"
  have "gp_state g = gp_state (group_run target acks s evs (group_start ?cs m)) \<or> gp_state g = gp_state (group_start [] m)"
    using assms(1) by (auto simp: Bridge_Run_def collectSubjects_def Let_def split: if_splits option.splits prod.splits)
  then have "acks_justified s (bst_trace (gp_state g))"
    using group_run_justified [of s "group_start ?cs m" target acks evs]
    by (auto simp: group_start_def acks_justified_def)
  then show ?thesis
    using acks_justified_split assms(2) by (simp add: ack_justified_def)
qed

definition sample_bridge_env :: bridge_env where
  "sample_bridge_env = \<lparr>be_source = True, be_target = True, be_sourceJS = True, be_targetJS = True,
     be_streamInfo = Some [''dex.sol.blocks.>'', ''dex.sol.tx.>''], be_pull = (\<lambda>_ _. True)\<rparr>"

text \<open>The property at two consumers, of which the first forwards a block head after the second has polled.\<close>

theorem bridge_run_acks_witness:
  "\<exists>g r before. Bridge_Run sample_bridge_env (\<lambda>_ _ _. TargetAck (Some ''LEGACY'')) (\<lambda>_ _. True) sample_bridge no_metrics
       [Turn 0 False (Fetched [sample_head_msg]), Turn 1 False FetchTimeout, Turn 0 False FetchTimeout] = (g, r)
     \<and> bst_trace (gp_state g) = before @ AckSent sample_head_msg True # []
     \<and> (\<exists>reply. Published (translate ''legacy.blocks.head'' sample_head_msg) reply \<in> set before)"
proof -
  let ?evs = "[Turn 0 False (Fetched [sample_head_msg]), Turn 1 False FetchTimeout, Turn 0 False FetchTimeout]"
  let ?run = "Bridge_Run sample_bridge_env (\<lambda>_ _ _. TargetAck (Some ''LEGACY'')) (\<lambda>_ _. True) sample_bridge no_metrics ?evs"
  have map: "bridge_mapper sample_bridge (bg_Subject sample_head_msg) = (''legacy.blocks.head'', True)"
    by (simp add: bridge_mapper_def sample_bridge_def sample_mappings_def sample_head_msg_def HasPrefix_def)
  have stream: "br_TargetStream (bs_cfg sample_bridge) = ''LEGACY''" by (simp add: sample_bridge_def)
  obtain g r where run: "?run = (g, r)" by fastforce
  then obtain before where tr: "bst_trace (gp_state g) = before @ AckSent sample_head_msg True # []"
    by (auto simp: Bridge_Run_def sample_bridge_env_def collectSubjects_def group_run_def group_start_def group_step_def
        poll_def forward_def map stream ack_source_def Let_def)
  from bridge_run_acks [OF run tr] run tr show ?thesis unfolding map by auto
qed

text \<open>The group of consumers is what the code composes: under the schedule that gives one consumer the
  turns of a script, a group with only that consumer ends in the trace, the metrics and the error of
  \<open>consumeLoop\<close> on the script, and the consumer has returned exactly when the loop has.\<close>

lemma lone_consumer_refines:
  "case consumeLoop target acks s script \<lparr>bst_trace = [], bst_metrics = m\<rparr> of
     (st, e) \<Rightarrow> \<exists>c. c \<noteq> Returned \<and> group_run target acks s (turns_of script) (group_start [Polling] m) =
       \<lparr>gp_state = st, gp_consumers = [if e = None then c else Returned], gp_err = map_option GroupConsumer e\<rparr>"
proof -
  have "group_start [Polling] m = alone Polling None \<lparr>bst_trace = [], bst_metrics = m\<rparr>"
    by (simp add: group_start_def alone_def)
  then show ?thesis
    using alone_consumeLoop [of Polling target acks s script "\<lparr>bst_trace = [], bst_metrics = m\<rparr>"]
    by (auto simp: alone_def split: prod.splits option.splits)
qed

text \<open>Two subjects can get the same durable name, and so the same consumer of the source stream.\<close>

lemma durableName_collision: "durableName ''dex.sol'' = durableName ''dex_sol'' \<and> durableName ''>'' = durableName ''all''"
  by (simp add: durableName_def durable_char_def Trim_def)

end
