(* ===== verification/Metrics.thy ===== *)
theory Metrics
  imports Geyser BridgeRun
begin

text \<open>
  The Prometheus metrics: the names of \<open>observability/metrics.go\<close> and the functions that register
  collectors, \<open>newServiceMetrics\<close> of \<open>bridge/service.go\<close>, \<open>newProcessorMetrics\<close> of
  \<open>ingestor/geyser/processor.go\<close>, \<open>newFailoverMetrics\<close> and \<open>setupPipeline\<close> of
  \<open>ingestor/geyser/service.go\<close>. The Prometheus library is the parameter \<open>prom\<close>: a new registry, the
  registration of a fully qualified name (\<open>None\<close> is the panic of \<open>MustRegister\<close>) and the names a
  registry holds; \<open>fq\<close> is \<open>BuildFQName\<close>.
\<close>

section \<open>The library\<close>

record 'r prometheus =
  pm_new :: 'r
  pm_register :: "string \<Rightarrow> 'r \<Rightarrow> 'r option"
  pm_registered :: "'r \<Rightarrow> string list"

text \<open>A name is refused exactly when the registry has it already.\<close>

definition prom_law :: "'r prometheus \<Rightarrow> bool" where
  "prom_law prom \<longleftrightarrow> pm_registered prom (pm_new prom) = [] \<and>
     (\<forall>n r. if n \<in> set (pm_registered prom r) then pm_register prom n r = None
        else \<exists>r'. pm_register prom n r = Some r' \<and> set (pm_registered prom r') = insert n (set (pm_registered prom r)))"

type_synonym fq_name = "string \<Rightarrow> string \<Rightarrow> string \<Rightarrow> string"

text \<open>Namespace, subsystem and name that are all present are joined by underscores.\<close>

definition fq_law :: "fq_name \<Rightarrow> bool" where
  "fq_law fq \<longleftrightarrow> (\<forall>ns ss n. ns \<noteq> [] \<longrightarrow> ss \<noteq> [] \<longrightarrow> n \<noteq> [] \<longrightarrow> fq ns ss n = ns @ ''_'' @ ss @ ''_'' @ n)"

section \<open>observability/metrics.go\<close>

definition MetricBridgeForwardTotal :: string where "MetricBridgeForwardTotal = ''bridge_forward_total''"
definition MetricBridgeDroppedTotal :: string where "MetricBridgeDroppedTotal = ''bridge_dropped_total''"
definition MetricBridgePublishErrors :: string where "MetricBridgePublishErrors = ''bridge_publish_errors_total''"
definition MetricBridgeSourceLagSecond :: string where "MetricBridgeSourceLagSecond = ''bridge_source_lag_seconds''"
definition MetricRaydiumSwapsTotal :: string where "MetricRaydiumSwapsTotal = ''ingestor_raydium_swaps_total''"
definition MetricRaydiumDecodeErrors :: string where "MetricRaydiumDecodeErrors = ''ingestor_raydium_decode_errors_total''"
definition MetricOrcaSwapsTotal :: string where "MetricOrcaSwapsTotal = ''ingestor_orca_swaps_total''"
definition MetricOrcaDecodeErrors :: string where "MetricOrcaDecodeErrors = ''ingestor_orca_decode_errors_total''"
definition MetricMeteoraSwapsTotal :: string where "MetricMeteoraSwapsTotal = ''ingestor_meteora_swaps_total''"
definition MetricMeteoraDecodeErrors :: string where "MetricMeteoraDecodeErrors = ''ingestor_meteora_decode_errors_total''"

lemmas metric_names = MetricBridgeForwardTotal_def MetricBridgeDroppedTotal_def MetricBridgePublishErrors_def
  MetricBridgeSourceLagSecond_def MetricRaydiumSwapsTotal_def MetricRaydiumDecodeErrors_def MetricOrcaSwapsTotal_def
  MetricOrcaDecodeErrors_def MetricMeteoraSwapsTotal_def MetricMeteoraDecodeErrors_def

section \<open>Registration\<close>

fun register_all :: "'r prometheus \<Rightarrow> string list \<Rightarrow> 'r \<Rightarrow> 'r option" where
  "register_all prom [] r = Some r"
| "register_all prom (n # ns) r = (case pm_register prom n r of None \<Rightarrow> None | Some r' \<Rightarrow> register_all prom ns r')"

text \<open>The collectors of the processor, of the failover service and of the bridge, in the order the
  code registers them.\<close>

definition processor_names :: "fq_name \<Rightarrow> string list" where
  "processor_names fq = map (fq ''dex'' ''geyser'')
     [MetricRaydiumSwapsTotal, MetricRaydiumDecodeErrors, MetricOrcaSwapsTotal, MetricOrcaDecodeErrors,
      MetricMeteoraSwapsTotal, MetricMeteoraDecodeErrors]"

definition failover_names :: "fq_name \<Rightarrow> string list" where
  "failover_names fq = map (fq ''dex'' ''ingestor'') [''active_source'', ''source_failures_total'']"

definition bridge_names :: "fq_name \<Rightarrow> string list" where
  "bridge_names fq = map (fq ''dex'' ''bridge'')
     [MetricBridgeForwardTotal, MetricBridgeDroppedTotal, MetricBridgePublishErrors, MetricBridgeSourceLagSecond]"

text \<open>\<open>newProcessorMetrics\<close> and \<open>newFailoverMetrics\<close> with their registry, a new one for \<open>nil\<close>.\<close>

definition register_processor :: "'r prometheus \<Rightarrow> fq_name \<Rightarrow> 'r option \<Rightarrow> 'r option" where
  "register_processor prom fq reg =
     register_all prom (processor_names fq) (case reg of None \<Rightarrow> pm_new prom | Some r \<Rightarrow> r)"

definition newFailoverMetrics :: "'r prometheus \<Rightarrow> fq_name \<Rightarrow> 'r option \<Rightarrow> ('r \<times> failoverMetrics) option" where
  "newFailoverMetrics prom fq reg =
     (case register_all prom (failover_names fq) (case reg of None \<Rightarrow> pm_new prom | Some r \<Rightarrow> r) of
        None \<Rightarrow> None | Some r' \<Rightarrow> Some (r', \<lparr>fm_activeSource = 0, fm_failures = []\<rparr>))"

text \<open>The registry of \<open>setupPipeline\<close>: the collectors of the process and of the Go runtime, whose
  names are parameters, then the processor's.\<close>

definition setup_registry :: "'r prometheus \<Rightarrow> fq_name \<Rightarrow> string list \<Rightarrow> string list \<Rightarrow> 'r option" where
  "setup_registry prom fq process_names go_names =
     (case register_all prom process_names (pm_new prom) of None \<Rightarrow> None | Some r1 \<Rightarrow>
      case register_all prom go_names r1 of None \<Rightarrow> None | Some r2 \<Rightarrow>
      register_processor prom fq (Some r2))"

text \<open>
  \<open>newServiceMetrics\<close>: a registerer and a gatherer are interface values. An object has an identity
  and says which of the two interfaces its type has; the default gatherer is the object 0.
\<close>

record prom_obj =
  po_id :: nat
  po_Registerer :: bool
  po_Gatherer :: bool

definition DefaultGatherer :: prom_obj where
  "DefaultGatherer = \<lparr>po_id = 0, po_Registerer = True, po_Gatherer = True\<rparr>"

record 'r prom_state =
  ps_regs :: "(nat, 'r) gomap"
  ps_next :: nat

definition registry_of :: "'r prometheus \<Rightarrow> 'r prom_state \<Rightarrow> nat \<Rightarrow> 'r" where
  "registry_of prom st i = (case map_get (ps_regs st) i of None \<Rightarrow> pm_new prom | Some r \<Rightarrow> r)"

definition NewRegistry :: "'r prometheus \<Rightarrow> 'r prom_state \<Rightarrow> prom_obj \<times> 'r prom_state" where
  "NewRegistry prom st =
     (\<lparr>po_id = ps_next st, po_Registerer = True, po_Gatherer = True\<rparr>,
      st\<lparr>ps_regs := map_set (ps_next st) (pm_new prom) (ps_regs st), ps_next := Suc (ps_next st)\<rparr>)"

definition choose_registry ::
  "'r prometheus \<Rightarrow> prom_obj option \<Rightarrow> prom_obj option \<Rightarrow> 'r prom_state \<Rightarrow> (prom_obj \<times> prom_obj) \<times> 'r prom_state" where
  "choose_registry prom reg gatherer st =
     (case (reg, gatherer) of
        (None, None) \<Rightarrow> (case NewRegistry prom st of (r, st') \<Rightarrow> ((r, r), st'))
      | (Some r, None) \<Rightarrow> ((r, if po_Gatherer r then r else DefaultGatherer), st)
      | (None, Some g) \<Rightarrow>
          if po_Registerer g then ((g, g), st)
          else (case NewRegistry prom st of (r, st') \<Rightarrow> ((r, r), st'))
      | (Some r, Some g) \<Rightarrow> ((r, g), st))"

definition newServiceMetrics ::
  "'r prometheus \<Rightarrow> fq_name \<Rightarrow> prom_obj option \<Rightarrow> prom_obj option \<Rightarrow> 'r prom_state \<Rightarrow>
   (prom_obj \<times> prom_obj \<times> 'r prom_state) option" where
  "newServiceMetrics prom fq reg gatherer st =
     (case choose_registry prom reg gatherer st of ((r, g), st1) \<Rightarrow>
      case register_all prom (bridge_names fq) (registry_of prom st1 (po_id r)) of
        None \<Rightarrow> None
      | Some x \<Rightarrow> Some (r, g, st1\<lparr>ps_regs := map_set (po_id r) x (ps_regs st1)\<rparr>))"

section \<open>Lemmas\<close>

lemma register_all_law:
  assumes "prom_law prom"
  shows "case register_all prom ns r of
      None \<Rightarrow> \<not> (distinct ns \<and> set ns \<inter> set (pm_registered prom r) = {})
    | Some r' \<Rightarrow> distinct ns \<and> set ns \<inter> set (pm_registered prom r) = {} \<and>
        set (pm_registered prom r') = set ns \<union> set (pm_registered prom r)"
proof (induction ns arbitrary: r)
  case (Cons n ns)
  show ?case
  proof (cases "n \<in> set (pm_registered prom r)")
    case True
    then have "pm_register prom n r = None" using assms by (simp add: prom_law_def)
    then show ?thesis using True by simp
  next
    case False
    then obtain r1 where "pm_register prom n r = Some r1"
      and "set (pm_registered prom r1) = insert n (set (pm_registered prom r))"
      using assms unfolding prom_law_def by (meson if_not_P)
    then show ?thesis using Cons.IH [of r1] False by (auto split: option.splits)
  qed
qed simp

lemma register_all_Some:
  assumes "prom_law prom" and "distinct ns" and "set ns \<inter> set (pm_registered prom r) = {}"
  obtains r' where "register_all prom ns r = Some r'" "set (pm_registered prom r') = set ns \<union> set (pm_registered prom r)"
  using register_all_law [OF assms(1), of ns r] assms(2,3) by (auto split: option.splits)

lemma register_all_None:
  "prom_law prom \<Longrightarrow> n \<in> set ns \<Longrightarrow> n \<in> set (pm_registered prom r) \<Longrightarrow> register_all prom ns r = None"
  using register_all_law [of prom ns r] by (auto split: option.splits)

lemma names_of_fq:
  assumes "fq_law fq"
  shows "processor_names fq = map (\<lambda>n. ''dex_geyser_ingestor_'' @ n)
      [''raydium_swaps_total'', ''raydium_decode_errors_total'', ''orca_swaps_total'', ''orca_decode_errors_total'',
       ''meteora_swaps_total'', ''meteora_decode_errors_total'']"
    and "failover_names fq = [''dex_ingestor_active_source'', ''dex_ingestor_source_failures_total'']"
    and "bridge_names fq = [''dex_bridge_bridge_forward_total'', ''dex_bridge_bridge_dropped_total'',
       ''dex_bridge_bridge_publish_errors_total'', ''dex_bridge_bridge_source_lag_seconds'']"
  using assms by (simp_all add: fq_law_def processor_names_def failover_names_def bridge_names_def metric_names)

text \<open>The names that \<open>scripts/check_bridge_metrics.sh\<close> looks for in the output of the bridge, as
  \<open>docs-archive/BRIDGE.md\<close> lists them.\<close>

definition documented_bridge_metrics :: "string list" where
  "documented_bridge_metrics = [''dex_bridge_forward_total'', ''dex_bridge_dropped_total'',
     ''dex_bridge_publish_errors_total'', ''dex_bridge_source_lag_seconds'']"

lemma bridge_names_not_documented:
  "list_all (\<lambda>n. list_all (\<lambda>d. \<not> Contains n d) documented_bridge_metrics)
     [''dex_bridge_bridge_forward_total'', ''dex_bridge_bridge_dropped_total'',
      ''dex_bridge_bridge_publish_errors_total'', ''dex_bridge_bridge_source_lag_seconds'']"
  by (simp add: documented_bridge_metrics_def HasPrefix_def)

definition prefixed :: "string \<Rightarrow> string list \<Rightarrow> bool" where
  "prefixed p ns \<longleftrightarrow> list_all (\<lambda>n. HasPrefix n p) ns"

lemma prefixed_disjoint:
  "prefixed p ns \<Longrightarrow> prefixed q ms \<Longrightarrow> p \<noteq> [] \<Longrightarrow> q \<noteq> [] \<Longrightarrow> hd p \<noteq> hd q \<Longrightarrow> set ns \<inter> set ms = {}"
proof -
  have head: "prefixed a xs \<Longrightarrow> a \<noteq> [] \<Longrightarrow> x \<in> set xs \<Longrightarrow> x \<noteq> [] \<and> hd x = hd a" for a x :: string and xs
    by (cases a; cases x) (auto simp: prefixed_def list_all_iff HasPrefix_def)
  assume "prefixed p ns" "prefixed q ms" "p \<noteq> []" "q \<noteq> []" "hd p \<noteq> hd q"
  then show ?thesis using head [of p ns] head [of q ms] by force
qed

lemma bridge_names_facts:
  assumes "fq_law fq"
  shows "length (bridge_names fq) = 4"
    and "n \<in> set (bridge_names fq) \<Longrightarrow> HasPrefix n ''dex_bridge_bridge_''"
    and "n \<in> set (bridge_names fq) \<Longrightarrow> d \<in> set documented_bridge_metrics \<Longrightarrow> \<not> Contains n d"
    and "''dex_bridge_bridge_forward_total'' \<in> set (bridge_names fq)"
proof -
  note names = names_of_fq(3) [OF assms]
  show "length (bridge_names fq) = 4" and "''dex_bridge_bridge_forward_total'' \<in> set (bridge_names fq)"
    unfolding names by simp_all
  have "list_all (\<lambda>n. HasPrefix n ''dex_bridge_bridge_'') (bridge_names fq)"
    unfolding names by (simp add: HasPrefix_def)
  then show "HasPrefix n ''dex_bridge_bridge_''" if "n \<in> set (bridge_names fq)"
    using that unfolding list_all_iff by blast
  show "\<not> Contains n d" if "n \<in> set (bridge_names fq)" and "d \<in> set documented_bridge_metrics"
    using that bridge_names_not_documented unfolding names [symmetric] list_all_iff by blast
qed

section \<open>Properties\<close>

text \<open>
  Wiring the metrics of the ingest services never panics: on a registry that already has the
  collectors of the process and of the Go runtime (names that start with \<open>process_\<close> and \<open>go_\<close>) the six
  counters of the processor and the two collectors of the failover service can be registered, and the
  registry then has exactly these names. A second processor on the same registry does panic.
\<close>

theorem ingest_registry_total:
  assumes "prom_law prom" and "fq_law fq"
    and "distinct ps" and "prefixed ''process_'' ps" and "distinct gs" and "prefixed ''go_'' gs"
  shows "\<exists>r r' m. setup_registry prom fq ps gs = Some r \<and> newFailoverMetrics prom fq (Some r) = Some (r', m)
    \<and> set (pm_registered prom r') = set ps \<union> set gs \<union> set (processor_names fq) \<union> set (failover_names fq)
    \<and> register_processor prom fq (Some r') = None"
proof -
  have new: "pm_registered prom (pm_new prom) = []" using assms(1) by (simp add: prom_law_def)
  have dex: "prefixed ''dex_'' (processor_names fq)" "prefixed ''dex_'' (failover_names fq)"
    by (simp_all add: names_of_fq [OF assms(2)] prefixed_def HasPrefix_def)
  note apart = prefixed_disjoint [OF assms(4,6)] prefixed_disjoint [OF assms(4) dex(1)]
    prefixed_disjoint [OF assms(4) dex(2)] prefixed_disjoint [OF assms(6) dex(1)] prefixed_disjoint [OF assms(6) dex(2)]
  have names: "distinct (processor_names fq)" "distinct (failover_names fq)"
      "set (processor_names fq) \<inter> set (failover_names fq) = {}"
    by (simp_all add: names_of_fq [OF assms(2)])
  obtain r1 where r1: "register_all prom ps (pm_new prom) = Some r1" "set (pm_registered prom r1) = set ps"
    by (rule register_all_Some [OF assms(1,3), of "pm_new prom"]) (auto simp: new)
  obtain r2 where r2: "register_all prom gs r1 = Some r2" "set (pm_registered prom r2) = set gs \<union> set ps"
    by (rule register_all_Some [OF assms(1,5), of r1]) (use r1(2) apart(1) in auto)
  obtain r where r: "register_all prom (processor_names fq) r2 = Some r"
      "set (pm_registered prom r) = set (processor_names fq) \<union> (set gs \<union> set ps)"
    by (rule register_all_Some [OF assms(1) names(1), of r2]) (use r2(2) apart(2,4) in auto)
  obtain r' where r': "register_all prom (failover_names fq) r = Some r'"
      "set (pm_registered prom r') = set (failover_names fq) \<union> (set (processor_names fq) \<union> (set gs \<union> set ps))"
    by (rule register_all_Some [OF assms(1) names(2), of r]) (use r(2) apart(3,5) names(3) in auto)
  have "hd (processor_names fq) \<in> set (processor_names fq)" by (simp add: processor_names_def)
  from register_all_None [OF assms(1) this, of r'] r'(2)
  have "register_processor prom fq (Some r') = None" by (auto simp: register_processor_def processor_names_def)
  with r1(1) r2(1) r(1) r' show ?thesis
    by (auto simp: setup_registry_def register_processor_def newFailoverMetrics_def)
qed

text \<open>A registry as the list of its names.\<close>

definition list_prometheus :: "string list prometheus" where
  "list_prometheus = \<lparr>pm_new = [], pm_register = (\<lambda>n r. if n \<in> set r then None else Some (n # r)), pm_registered = id\<rparr>"

definition join_fq :: fq_name where
  "join_fq ns ss n = ns @ ''_'' @ ss @ ''_'' @ n"

lemma list_prometheus_laws: "prom_law list_prometheus" "fq_law join_fq"
  by (simp_all add: prom_law_def list_prometheus_def fq_law_def join_fq_def)

theorem ingest_registry_total_witness:
  "\<exists>r r' m. setup_registry list_prometheus join_fq [''process_cpu_seconds_total''] [''go_goroutines''] = Some r
     \<and> newFailoverMetrics list_prometheus join_fq (Some r) = Some (r', m)
     \<and> register_processor list_prometheus join_fq (Some r') = None"
  using ingest_registry_total [OF list_prometheus_laws, of "[''process_cpu_seconds_total'']" "[''go_goroutines'']"]
  by (auto simp: prefixed_def HasPrefix_def)

text \<open>
  (C30) What the bridge registers: whichever registerer and gatherer it is given, the registry it chooses
  gains exactly four names, in each of which the subsystem stands twice (\<open>dex_bridge_bridge_...\<close>), so
  that none of them contains one of the names that the documentation and the metrics check
  (\<open>scripts/check_bridge_metrics.sh\<close>) look for. The metrics server shows the registry it registered
  with unless it was given two different objects, or only a registerer that cannot be gathered.
\<close>

theorem bridge_metrics_misnamed:
  assumes "prom_law prom" and "fq_law fq" and "newServiceMetrics prom fq reg gatherer st = Some (r, g, st')"
  shows "set (pm_registered prom (registry_of prom st' (po_id r))) =
      set (pm_registered prom (registry_of prom (snd (choose_registry prom reg gatherer st)) (po_id r))) \<union> set (bridge_names fq) \<and>
    length (bridge_names fq) = 4 \<and>
    (\<forall>n \<in> set (bridge_names fq). HasPrefix n ''dex_bridge_bridge_'' \<and>
      (\<forall>d \<in> set documented_bridge_metrics. \<not> Contains n d)) \<and>
    (g \<noteq> r \<longrightarrow> reg = Some r \<and> (gatherer = Some g \<or> gatherer = None \<and> \<not> po_Gatherer r))"
proof -
  obtain st1 x where choose: "choose_registry prom reg gatherer st = ((r, g), st1)"
    and all: "register_all prom (bridge_names fq) (registry_of prom st1 (po_id r)) = Some x"
    and st': "st' = st1\<lparr>ps_regs := map_set (po_id r) x (ps_regs st1)\<rparr>"
    using assms(3) by (auto simp: newServiceMetrics_def split: prod.splits option.splits)
  have "registry_of prom st' (po_id r) = x" by (simp add: st' registry_of_def)
  moreover have "set (pm_registered prom x) = set (bridge_names fq) \<union> set (pm_registered prom (registry_of prom st1 (po_id r)))"
    using register_all_law [OF assms(1), of "bridge_names fq" "registry_of prom st1 (po_id r)"] all by simp
  moreover have "g \<noteq> r \<longrightarrow> reg = Some r \<and> (gatherer = Some g \<or> gatherer = None \<and> \<not> po_Gatherer r)"
    using choose by (auto simp: choose_registry_def split: option.splits prod.splits if_splits)
  ultimately show ?thesis
    using choose bridge_names_facts(1,2,3) [OF assms(2)] by (simp add: Un_commute)
qed

text \<open>The property at a bridge without a registerer: it makes a registry of its own.\<close>

theorem bridge_metrics_misnamed_witness:
  "\<exists>r st'. newServiceMetrics list_prometheus join_fq None None \<lparr>ps_regs = [], ps_next = 1\<rparr> = Some (r, r, st') \<and>
     ''dex_bridge_bridge_forward_total'' \<in> set (pm_registered list_prometheus (registry_of list_prometheus st' (po_id r))) \<and>
     \<not> Contains ''dex_bridge_bridge_forward_total'' ''dex_bridge_forward_total''"
proof -
  let ?st = "\<lparr>ps_regs = [], ps_next = 1\<rparr> :: string list prom_state"
  obtain x where "register_all list_prometheus (bridge_names join_fq) (pm_new list_prometheus) = Some x"
    by (rule register_all_Some [OF list_prometheus_laws(1), of "bridge_names join_fq" "pm_new list_prometheus"])
      (simp_all add: names_of_fq(3) [OF list_prometheus_laws(2)] list_prometheus_def)
  then have "\<exists>r st'. newServiceMetrics list_prometheus join_fq None None ?st = Some (r, r, st')"
    by (simp add: newServiceMetrics_def choose_registry_def NewRegistry_def registry_of_def)
  then obtain r st' where run: "newServiceMetrics list_prometheus join_fq None None \<lparr>ps_regs = [], ps_next = 1\<rparr> = Some (r, r, st')"
    by blast
  note facts = bridge_metrics_misnamed [OF list_prometheus_laws run]
  have "''dex_bridge_bridge_forward_total'' \<in> set (bridge_names join_fq)" "''dex_bridge_forward_total'' \<in> set documented_bridge_metrics"
    using bridge_names_facts(4) [OF list_prometheus_laws(2)] by (simp_all add: documented_bridge_metrics_def)
  with facts run show ?thesis by blast
qed

end
