(* ===== verification/Parquet.thy ===== *)
theory Parquet
  imports ChService
begin

text \<open>
  The Parquet sink: \<open>sinks/parquet/config.go\<close>, \<open>writer.go\<close> and \<open>service.go\<close>, and the checks of
  \<open>cmd/tools/parquetinspect\<close>. The writer keeps candles in one bucket per timeframe and scope and
  uploads a file per bucket.

  Parameters stand for code outside the repository: the Parquet encoder (the contents of the
  buffer have the abstract type \<open>'b\<close>), the answers of the S3 uploader and \<open>proto.Unmarshal\<close>. The
  readings of \<open>time.Now\<close> are a sequence \<open>clock\<close> of nanoseconds, and the order in which a \<open>range\<close>
  loop visits the buckets is an argument.
\<close>

section \<open>config.go\<close>

record PqConfig =
  pqc_Endpoint :: string
  pqc_Bucket :: string
  pqc_AccessKey :: string
  pqc_SecretKey :: string
  pqc_Prefix :: string
  pqc_FlushInterval :: duration
  pqc_BatchRows :: int
  pqc_Region :: string

definition Pq_DefaultConfig :: PqConfig where
  "Pq_DefaultConfig = \<lparr>pqc_Endpoint = [], pqc_Bucket = [], pqc_AccessKey = [], pqc_SecretKey = [],
     pqc_Prefix = ''dex/'', pqc_FlushInterval = 15 * (60 * time_Second), pqc_BatchRows = 5000,
     pqc_Region = ''us-east-1''\<rparr>"

datatype pq_config_error =
    PqEndpointRequired | PqBucketRequired | PqAccessKeyRequired | PqSecretKeyRequired
  | PqFlushIntervalNotPositive | PqPrefixEmpty | PqBatchRowsNotPositive | PqRegionEmpty
  | PqInvalidEnv string | PqNatsURLRequired | PqStreamRequired | PqSubjectRootRequired
  | PqConsumerRequired | PqPullBatchNotPositive | PqPullTimeoutNotPositive | PqWriterDisabled | PqSession

definition Pq_Validate :: "PqConfig \<Rightarrow> pq_config_error option" where
  "Pq_Validate c =
     (if pqc_Endpoint c = [] then Some PqEndpointRequired
      else if pqc_Bucket c = [] then Some PqBucketRequired
      else if pqc_AccessKey c = [] then Some PqAccessKeyRequired
      else if pqc_SecretKey c = [] then Some PqSecretKeyRequired
      else if pqc_FlushInterval c \<le>s 0 then Some PqFlushIntervalNotPositive
      else if pqc_Prefix c = [] then Some PqPrefixEmpty
      else if pqc_BatchRows c \<le> 0 then Some PqBatchRowsNotPositive
      else if pqc_Region c = [] then Some PqRegionEmpty
      else None)"

text \<open>An optional integer variable that is only parsed, not checked.\<close>

definition pq_env_int ::
  "environ \<Rightarrow> string \<Rightarrow> (int \<Rightarrow> bool) \<Rightarrow> (int \<Rightarrow> 'c \<Rightarrow> 'c) \<Rightarrow> pq_config_error + 'c \<Rightarrow> pq_config_error + 'c" where
  "pq_env_int env name ok upd r =
     (case r of Inl err \<Rightarrow> Inl err | Inr cfg \<Rightarrow>
      if env name = [] then Inr cfg
      else case strconv_Atoi (env name) of
        Inl _ \<Rightarrow> Inl (PqInvalidEnv name)
      | Inr n \<Rightarrow> if ok n then Inr (upd n cfg) else Inl (PqInvalidEnv name))"

definition Pq_FromEnv :: "environ \<Rightarrow> pq_config_error + PqConfig" where
  "Pq_FromEnv env =
     (let d = Pq_DefaultConfig;
          cfg = d\<lparr>pqc_Endpoint := valueOrDefault (env ''S3_ENDPOINT'') (pqc_Endpoint d),
            pqc_Bucket := valueOrDefault (env ''S3_BUCKET'') (pqc_Bucket d),
            pqc_AccessKey := valueOrDefault (env ''S3_ACCESS_KEY'') (pqc_AccessKey d),
            pqc_SecretKey := valueOrDefault (env ''S3_SECRET_KEY'') (pqc_SecretKey d),
            pqc_Prefix := valueOrDefault (env ''PARQUET_PREFIX'') (pqc_Prefix d)\<rparr>;
          r1 = pq_env_int env ''PARQUET_FLUSH_INTERVAL_S'' (\<lambda>_. True)
                 (\<lambda>n c. c\<lparr>pqc_FlushInterval := word_of_int n * time_Second\<rparr>) (Inr cfg);
          r2 = pq_env_int env ''PARQUET_BATCH_ROWS'' (\<lambda>_. True) (\<lambda>n c. c\<lparr>pqc_BatchRows := n\<rparr>) r1
      in case r2 of
           Inl err \<Rightarrow> Inl err
         | Inr c \<Rightarrow>
             let c' = c\<lparr>pqc_Region := valueOrDefault (env ''PARQUET_REGION'') (pqc_Region c)\<rparr>
             in case Pq_Validate c' of Some err \<Rightarrow> Inl err | None \<Rightarrow> Inr c')"

record PqServiceConfig =
  pqs_NATSURL :: string
  pqs_Stream :: string
  pqs_SubjectRoot :: string
  pqs_Consumer :: string
  pqs_PullBatch :: int
  pqs_PullTimeout :: duration
  pqs_Writer :: PqConfig

definition PqService_Validate :: "PqServiceConfig \<Rightarrow> pq_config_error option" where
  "PqService_Validate c =
     (if pqs_NATSURL c = [] then Some PqNatsURLRequired
      else if pqs_Stream c = [] then Some PqStreamRequired
      else if pqs_SubjectRoot c = [] then Some PqSubjectRootRequired
      else if pqs_Consumer c = [] then Some PqConsumerRequired
      else if pqs_PullBatch c \<le> 0 then Some PqPullBatchNotPositive
      else if pqs_PullTimeout c \<le>s 0 then Some PqPullTimeoutNotPositive
      else Pq_Validate (pqs_Writer c))"

definition PqServiceConfigFromEnv :: "environ \<Rightarrow> pq_config_error + PqServiceConfig" where
  "PqServiceConfigFromEnv env =
     (let cfg = \<lparr>pqs_NATSURL = env ''PARQUET_NATS_URL'', pqs_Stream = env ''PARQUET_NATS_STREAM'',
            pqs_SubjectRoot = valueOrDefault (env ''PARQUET_SUBJECT_ROOT'') ''dex.sol'',
            pqs_Consumer = valueOrDefault (env ''PARQUET_CONSUMER'') ''parquet-sink'',
            pqs_PullBatch = 256, pqs_PullTimeout = 500 * time_Millisecond, pqs_Writer = Pq_DefaultConfig\<rparr>;
          r1 = pq_env_int env ''PARQUET_PULL_BATCH'' (\<lambda>n. n > 0) (\<lambda>n c. c\<lparr>pqs_PullBatch := n\<rparr>) (Inr cfg);
          r2 = pq_env_int env ''PARQUET_PULL_TIMEOUT_MS'' (\<lambda>n. n > 0) (\<lambda>n c. c\<lparr>pqs_PullTimeout := millis n\<rparr>) r1
      in case r2 of Inl err \<Rightarrow> Inl err | Inr c \<Rightarrow>
         case Pq_FromEnv env of Inl err \<Rightarrow> Inl err | Inr w \<Rightarrow>
         let c' = c\<lparr>pqs_Writer := w\<rparr>
         in case PqService_Validate c' of Some err \<Rightarrow> Inl err | None \<Rightarrow> Inr c')"

section \<open>writer.go\<close>

record candleRow =
  cr_ChainID :: i32
  cr_PairID :: string
  cr_PoolID :: string
  cr_Scope :: string
  cr_Timeframe :: string
  cr_WindowStart :: i64
  cr_Provisional :: bool
  cr_IsCorrection :: bool
  cr_OpenPxQ32 :: i64
  cr_HighPxQ32 :: i64
  cr_LowPxQ32 :: i64
  cr_ClosePxQ32 :: i64
  cr_VolBaseHi :: u64
  cr_VolBaseLo :: u64
  cr_VolQuoteHi :: u64
  cr_VolQuoteLo :: u64
  cr_Trades :: i32

text \<open>An upload: object key, body and whether it was accepted. The state is the \<open>Writer\<close> struct
  together with the uploads made and the number of clock readings so far.\<close>

record 'b s3_upload =
  up_Key :: string
  up_Body :: 'b
  up_Ok :: bool

record 'b PqWriter =
  pw_cfg :: PqConfig
  pw_buckets :: "(string, candleRow list) gomap"
  pw_lastFlush :: i64
  pw_reads :: nat
  pw_uploads :: "'b s3_upload list"

datatype 'b encoded = EncodeWriteErr | EncodeCloseErr | Encoded 'b

record 'b pq_env =
  pe_encode :: "candleRow list \<Rightarrow> 'b encoded"
  pe_upload :: "'b s3_upload list \<Rightarrow> string \<Rightarrow> string \<Rightarrow> 'b \<Rightarrow> bool"
  pe_clock :: "nat \<Rightarrow> i64"
  pe_range :: "(string, candleRow list) gomap \<Rightarrow> (string, candleRow list) gomap"

datatype pq_error = NilCandle | WriteRows | CloseWriter | UploadFailed

definition NewWriter :: "('b pq_env) \<Rightarrow> bool \<Rightarrow> PqConfig \<Rightarrow> pq_config_error + 'b PqWriter" where
  "NewWriter env session_ok cfg =
     (if pqc_Endpoint cfg = [] \<or> pqc_Bucket cfg = [] \<or> pqc_AccessKey cfg = [] \<or> pqc_SecretKey cfg = []
      then Inl PqWriterDisabled
      else case Pq_Validate cfg of Some err \<Rightarrow> Inl err | None \<Rightarrow>
      if \<not> session_ok then Inl PqSession
      else Inr \<lparr>pw_cfg = cfg, pw_buckets = [], pw_lastFlush = pe_clock env 0, pw_reads = 1, pw_uploads = []\<rparr>)"

definition bucketKey :: "string \<Rightarrow> string \<Rightarrow> string" where
  "bucketKey timeframe scope = timeframe @ ''|'' @ scope"

definition splitBucketKey :: "string \<Rightarrow> string \<times> string" where
  "splitBucketKey key =
     (case SplitN2 key (CHR ''|'') of [a, b] \<Rightarrow> (a, b) | _ \<Rightarrow> (key, ''unknown''))"

text \<open>\<open>filepath.Join\<close> joins the non-empty elements with slashes and cleans the result: empty and
  \<open>.\<close> components vanish, a \<open>..\<close> removes the component before it.\<close>

fun split_slash :: "string \<Rightarrow> string \<Rightarrow> string list" where
  "split_slash cur [] = [rev cur]"
| "split_slash cur (c # cs) = (if c = CHR ''/'' then rev cur # split_slash [] cs else split_slash (c # cur) cs)"

fun join_slash :: "string list \<Rightarrow> string" where
  "join_slash [] = []"
| "join_slash [x] = x"
| "join_slash (x # y # zs) = x @ ''/'' @ join_slash (y # zs)"

fun clean_parts :: "bool \<Rightarrow> string list \<Rightarrow> string list \<Rightarrow> string list" where
  "clean_parts rooted out [] = rev out"
| "clean_parts rooted out (p # ps) =
     (if p = [] \<or> p = ''.'' then clean_parts rooted out ps
      else if p = ''..'' then
        (case out of
           [] \<Rightarrow> clean_parts rooted (if rooted then [] else [''..'']) ps
         | o1 # os \<Rightarrow> clean_parts rooted (if o1 = ''..'' then ''..'' # out else os) ps)
      else clean_parts rooted (p # out) ps)"

definition filepath_Clean :: "string \<Rightarrow> string" where
  "filepath_Clean path =
     (if path = [] then ''.''
      else let rooted = hd path = CHR ''/'';
               out = join_slash (clean_parts rooted [] (split_slash [] path))
           in if rooted then ''/'' @ out else if out = [] then ''.'' else out)"

definition filepath_Join :: "string list \<Rightarrow> string" where
  "filepath_Join elems =
     (let kept = dropWhile (\<lambda>e. e = []) elems
      in if kept = [] then [] else filepath_Clean (join_slash kept))"

text \<open>\<open>Format("2006-01-02")\<close> of an instant in UTC: the civil date of the day number, in the
  proleptic Gregorian calendar.\<close>

definition civil_date :: "int \<Rightarrow> int \<times> int \<times> int" where
  "civil_date days =
     (let z = days + 719468; era = z div 146097; doe = z mod 146097;
          yoe = (doe - doe div 1460 + doe div 36524 - doe div 146096) div 365;
          doy = doe - (365 * yoe + yoe div 4 - yoe div 100);
          mp = (5 * doy + 2) div 153;
          d = doy - (153 * mp + 2) div 5 + 1;
          m = (if mp < 10 then mp + 3 else mp - 9)
      in (yoe + era * 400 + (if m \<le> 2 then 1 else 0), m, d))"

definition format_date :: "i64 \<Rightarrow> string" where
  "format_date nanos =
     (case civil_date (sint nanos div 86400000000000) of (y, m, d) \<Rightarrow>
        pad_left_zero 4 (show_nat (nat y)) @ ''-'' @ pad_left_zero 2 (show_nat (nat m)) @ ''-'' @
        pad_left_zero 2 (show_nat (nat d)))"

definition show_int :: "int \<Rightarrow> string" where
  "show_int i = (if i < 0 then ''-'' @ show_nat (nat (- i)) else show_nat (nat i))"

definition objectKey :: "PqConfig \<Rightarrow> i64 \<Rightarrow> i64 \<Rightarrow> string \<Rightarrow> string \<Rightarrow> string" where
  "objectKey cfg now1 now2 timeframe scope =
     filepath_Join [TrimSuffix (pqc_Prefix cfg) ''/'', ''timeframe='' @ timeframe, ''scope='' @ scope,
       ''date='' @ format_date now1, ''candles-'' @ show_int (sint now2) @ ''.parquet'']"

definition writeBucket ::
  "'b pq_env \<Rightarrow> string \<Rightarrow> string \<Rightarrow> candleRow list \<Rightarrow> 'b PqWriter \<Rightarrow> 'b PqWriter \<times> pq_error option" where
  "writeBucket env timeframe scope rows w =
     (case pe_encode env rows of
        EncodeWriteErr \<Rightarrow> (w, Some WriteRows)
      | EncodeCloseErr \<Rightarrow> (w, Some CloseWriter)
      | Encoded body \<Rightarrow>
          let key = objectKey (pw_cfg w) (pe_clock env (pw_reads w)) (pe_clock env (pw_reads w + 1)) timeframe scope;
              accepted = pe_upload env (pw_uploads w) (pqc_Bucket (pw_cfg w)) key body;
              w' = w\<lparr>pw_reads := pw_reads w + 2,
                pw_uploads := pw_uploads w @ [\<lparr>up_Key = key, up_Body = body, up_Ok = accepted\<rparr>]\<rparr>
          in (w', if accepted then None else Some UploadFailed))"

definition flush_bucket ::
  "'b pq_env \<Rightarrow> 'b PqWriter \<Rightarrow> string \<times> candleRow list \<Rightarrow> 'b PqWriter \<times> pq_error option" where
  "flush_bucket env w entry =
     (case entry of (key, rows) \<Rightarrow>
      if rows = [] then (w, None)
      else case splitBucketKey key of (timeframe, scope) \<Rightarrow>
        (case writeBucket env timeframe scope rows w of
           (w', Some err) \<Rightarrow> (w', Some err)
         | (w', None) \<Rightarrow> (w'\<lparr>pw_buckets := map_set key [] (pw_buckets w')\<rparr>, None)))"

definition flushLocked :: "'b pq_env \<Rightarrow> 'b PqWriter \<Rightarrow> 'b PqWriter \<times> pq_error option" where
  "flushLocked env w =
     (if pw_buckets w = [] then (w, None)
      else case first_err (flush_bucket env) w (pe_range env (pw_buckets w)) of
        (w', Some err) \<Rightarrow> (w', Some err)
      | (w', None) \<Rightarrow> (w'\<lparr>pw_lastFlush := pe_clock env (pw_reads w'), pw_reads := pw_reads w' + 1\<rparr>, None))"

definition candle_to_row :: "Candle \<Rightarrow> candleRow" where
  "candle_to_row candle =
     \<lparr>cr_ChainID = ucast (cd_ChainId candle), cr_PairID = cd_PairId candle, cr_PoolID = cd_PoolId candle,
      cr_Scope = (if cd_PoolId candle \<noteq> [] then ''pool'' else ''pair''),
      cr_Timeframe = (if cd_Timeframe candle = [] then ''unknown'' else cd_Timeframe candle),
      cr_WindowStart = cd_WindowStart candle, cr_Provisional = cd_Provisional candle,
      cr_IsCorrection = cd_IsCorrection candle, cr_OpenPxQ32 = cd_OpenPxQ32 candle,
      cr_HighPxQ32 = cd_HighPxQ32 candle, cr_LowPxQ32 = cd_LowPxQ32 candle,
      cr_ClosePxQ32 = cd_ClosePxQ32 candle,
      cr_VolBaseHi = (case cd_VolBase candle of None \<Rightarrow> 0 | Some v \<Rightarrow> u128_Hi v),
      cr_VolBaseLo = (case cd_VolBase candle of None \<Rightarrow> 0 | Some v \<Rightarrow> u128_Lo v),
      cr_VolQuoteHi = (case cd_VolQuote candle of None \<Rightarrow> 0 | Some v \<Rightarrow> u128_Hi v),
      cr_VolQuoteLo = (case cd_VolQuote candle of None \<Rightarrow> 0 | Some v \<Rightarrow> u128_Lo v),
      cr_Trades = cd_Trades candle\<rparr>"

definition row_key :: "candleRow \<Rightarrow> string" where
  "row_key row = bucketKey (cr_Timeframe row) (cr_Scope row)"

definition bucket_of :: "'b PqWriter \<Rightarrow> string \<Rightarrow> candleRow list" where
  "bucket_of w key = (case map_get (pw_buckets w) key of None \<Rightarrow> [] | Some rows \<Rightarrow> rows)"

text \<open>The elapsed time is only read when the bucket is not full.\<close>

definition AppendCandle :: "'b pq_env \<Rightarrow> Candle option \<Rightarrow> 'b PqWriter \<Rightarrow> 'b PqWriter \<times> pq_error option" where
  "AppendCandle env candle_ptr w =
     (case candle_ptr of None \<Rightarrow> (w, Some NilCandle) | Some candle \<Rightarrow>
      let row = candle_to_row candle;
          key = row_key row;
          bucket = bucket_of w key @ [row];
          w1 = w\<lparr>pw_buckets := map_set key bucket (pw_buckets w)\<rparr>
      in if int (length bucket) \<ge> pqc_BatchRows (pw_cfg w) then flushLocked env w1
         else let w2 = w1\<lparr>pw_reads := pw_reads w1 + 1\<rparr>
              in if pqc_FlushInterval (pw_cfg w) \<le>s pe_clock env (pw_reads w1) - pw_lastFlush w1
                 then flushLocked env w2 else (w2, None))"

definition AppendSwap :: "SwapEvent option \<Rightarrow> 'b PqWriter \<Rightarrow> 'b PqWriter \<times> pq_error option" where
  "AppendSwap event w = (w, None)"

definition Pq_Flush :: "'b pq_env \<Rightarrow> 'b PqWriter \<Rightarrow> 'b PqWriter \<times> pq_error option" where
  "Pq_Flush env w = flushLocked env w"

definition Pq_Close :: "'b pq_env \<Rightarrow> 'b PqWriter \<Rightarrow> 'b PqWriter \<times> pq_error option" where
  "Pq_Close env w = Pq_Flush env w"

section \<open>service.go\<close>

datatype pq_sink_error = UnmarshalCandle | PqWriteErr pq_error

definition pq_handleMessage ::
  "'b pq_env \<Rightarrow> (bytes \<Rightarrow> Candle option) \<Rightarrow> nats_msg \<Rightarrow> 'b PqWriter \<Rightarrow> 'b PqWriter \<times> pq_sink_error option" where
  "pq_handleMessage env unmarshal msg w =
     (if \<not> Contains (nm_Subject msg) ''.candle.'' then (w, None)
      else case unmarshal (nm_Data msg) of
        None \<Rightarrow> (w, Some UnmarshalCandle)
      | Some candle \<Rightarrow> map_prod id (map_option PqWriteErr) (AppendCandle env (Some candle) w))"

definition pq_Run ::
  "'b pq_env \<Rightarrow> (bytes \<Rightarrow> Candle option) \<Rightarrow> 'b PqWriter \<Rightarrow> sink_turns \<Rightarrow>
   'b PqWriter loop_state \<times> ((pq_sink_error, pq_error) loop_error \<times> pq_error option) option" where
  "pq_Run env unmarshal = loop_Run (pq_handleMessage env unmarshal) (Pq_Flush env)"

section \<open>cmd/tools/parquetinspect\<close>

record pq_summary =
  sum_TotalRows :: nat
  sum_EmptyTimeframe :: nat
  sum_EmptyScope :: nat
  sum_InvalidScope :: nat
  sum_MissingWindowStart :: nat
  sum_NegativeTrades :: nat
  sum_timeframes :: "string list"
  sum_scopes :: "string list"

definition set_add :: "string \<Rightarrow> string list \<Rightarrow> string list" where
  "set_add x xs = (if x \<in> set xs then xs else xs @ [x])"

definition processRow :: "candleRow \<Rightarrow> pq_summary \<Rightarrow> pq_summary" where
  "processRow row s =
     (let s1 = s\<lparr>sum_TotalRows := sum_TotalRows s + 1\<rparr>;
          s2 = (if cr_Timeframe row = [] then s1\<lparr>sum_EmptyTimeframe := sum_EmptyTimeframe s1 + 1\<rparr>
                else s1\<lparr>sum_timeframes := set_add (cr_Timeframe row) (sum_timeframes s1)\<rparr>);
          s3 = (if cr_Scope row = [] then s2\<lparr>sum_EmptyScope := sum_EmptyScope s2 + 1\<rparr>
                else let s' = s2\<lparr>sum_scopes := set_add (cr_Scope row) (sum_scopes s2)\<rparr>
                     in if cr_Scope row \<noteq> ''pair'' \<and> cr_Scope row \<noteq> ''pool''
                        then s'\<lparr>sum_InvalidScope := sum_InvalidScope s' + 1\<rparr> else s');
          s4 = (if cr_WindowStart row \<le>s 0 then s3\<lparr>sum_MissingWindowStart := sum_MissingWindowStart s3 + 1\<rparr> else s3)
      in if cr_Trades row <s 0 then s4\<lparr>sum_NegativeTrades := sum_NegativeTrades s4 + 1\<rparr> else s4)"

text \<open>The answers of \<open>reader.Read\<close>: rows, and whether the file goes on, ends or fails.\<close>

datatype read_status = ReadMore | ReadEOF | ReadErr

fun inspectFile :: "(candleRow list \<times> read_status) list \<Rightarrow> pq_summary \<Rightarrow> pq_summary \<times> bool" where
  "inspectFile [] s = (s, True)"
| "inspectFile ((rows, status) # reads) s =
     (let s' = fold processRow rows s
      in case status of ReadEOF \<Rightarrow> (s', True) | ReadErr \<Rightarrow> (s', False) | ReadMore \<Rightarrow> inspectFile reads s')"

definition toSortedSlice :: "string list \<Rightarrow> string list" where
  "toSortedSlice xs = sort xs"

section \<open>Buckets\<close>

text \<open>A bucket key gives its two parts back exactly when the timeframe has no bar.\<close>

lemma splitBucketKey_roundtrip:
  "splitBucketKey (bucketKey timeframe scope) = (timeframe, scope) \<longleftrightarrow> CHR ''|'' \<notin> set timeframe"
proof
  assume "CHR ''|'' \<notin> set timeframe"
  then show "splitBucketKey (bucketKey timeframe scope) = (timeframe, scope)"
    by (simp add: splitBucketKey_def bucketKey_def SplitN2_sep)
next
  assume eq: "splitBucketKey (bucketKey timeframe scope) = (timeframe, scope)"
  have "fst (splitBucketKey (bucketKey timeframe scope)) = takeWhile (\<lambda>c. c \<noteq> CHR ''|'') (bucketKey timeframe scope)"
    by (simp add: splitBucketKey_def SplitN2_def bucketKey_def)
  with eq have "timeframe = takeWhile (\<lambda>c. c \<noteq> CHR ''|'') (bucketKey timeframe scope)" by simp
  then show "CHR ''|'' \<notin> set timeframe" by (metis set_takeWhileD)
qed

lemma bucketKey_inject:
  assumes "bucketKey t s = bucketKey t' s'" and "CHR ''|'' \<notin> set s" and "CHR ''|'' \<notin> set s'"
  shows "t = t' \<and> s = s'"
  using sep_inject_rev [of t "CHR ''|''" s t' s'] assms by (simp add: bucketKey_def)

text \<open>What the proofs assume of the environment: a \<open>range\<close> loop visits every entry once, and a
  file can be read back.\<close>

definition pq_env_ok :: "'b pq_env \<Rightarrow> ('b \<Rightarrow> candleRow list) \<Rightarrow> bool" where
  "pq_env_ok env decode \<longleftrightarrow> (\<forall>m. mset (pe_range env m) = mset m) \<and>
     (\<forall>rows body. pe_encode env rows = Encoded body \<longrightarrow> decode body = rows)"

definition pq_stored :: "('b \<Rightarrow> candleRow list) \<Rightarrow> 'b PqWriter \<Rightarrow> candleRow list" where
  "pq_stored decode w = concat (map (decode \<circ> up_Body) (filter up_Ok (pw_uploads w)))"

text \<open>The rows of one bucket the writer answers for: uploaded ones, then waiting ones.\<close>

definition pq_rows :: "('b \<Rightarrow> candleRow list) \<Rightarrow> string \<Rightarrow> 'b PqWriter \<Rightarrow> candleRow list" where
  "pq_rows decode k w = filter (\<lambda>r. row_key r = k) (pq_stored decode w) @ bucket_of w k"

definition in_bucket :: "string \<Rightarrow> candleRow \<Rightarrow> bool" where
  "in_bucket k r \<longleftrightarrow> row_key r = k \<and> cr_Scope r \<in> {''pair'', ''pool''}"

text \<open>An uploaded file holds rows of one timeframe and scope, and was given the key made of them.\<close>

definition object_ok :: "('b \<Rightarrow> candleRow list) \<Rightarrow> PqConfig \<Rightarrow> 'b s3_upload \<Rightarrow> bool" where
  "object_ok decode cfg u \<longleftrightarrow> (\<exists>timeframe scope now1 now2. decode (up_Body u) \<noteq> [] \<and> scope \<in> {''pair'', ''pool''} \<and>
     (\<forall>r \<in> set (decode (up_Body u)). cr_Timeframe r = timeframe \<and> cr_Scope r = scope) \<and>
     (CHR ''|'' \<notin> set timeframe \<longrightarrow> up_Key u = objectKey cfg now1 now2 timeframe scope))"

definition pq_inv :: "('b \<Rightarrow> candleRow list) \<Rightarrow> 'b PqWriter \<Rightarrow> bool" where
  "pq_inv decode w \<longleftrightarrow> map_ok (pw_buckets w) \<and> (\<forall>k. list_all (in_bucket k) (bucket_of w k)) \<and>
     list_all (object_ok decode (pw_cfg w)) (pw_uploads w)"

lemma in_bucket_same:
  assumes "in_bucket k r" and "in_bucket k r'"
  shows "cr_Timeframe r = cr_Timeframe r' \<and> cr_Scope r = cr_Scope r'"
  using assms by (intro bucketKey_inject) (auto simp: in_bucket_def row_key_def)

lemma bucket_of_set [simp]: "bucket_of (w\<lparr>pw_buckets := map_set k rows m\<rparr>) j =
    (if j = k then rows else bucket_of (w\<lparr>pw_buckets := m\<rparr>) j)"
  by (simp add: bucket_of_def)

lemma bucket_of_upd [simp]:
  "bucket_of (w\<lparr>pw_reads := n\<rparr>) k = bucket_of w k"
  "bucket_of (w\<lparr>pw_uploads := us\<rparr>) k = bucket_of w k"
  "bucket_of (w\<lparr>pw_lastFlush := t\<rparr>) k = bucket_of w k"
  "bucket_of (w\<lparr>pw_buckets := pw_buckets w\<rparr>) k = bucket_of w k"
  by (simp_all add: bucket_of_def)

lemma pq_inv_upd [simp]:
  "pq_inv decode (w\<lparr>pw_reads := n\<rparr>) = pq_inv decode w"
  "pq_inv decode (w\<lparr>pw_lastFlush := t\<rparr>) = pq_inv decode w"
  by (simp_all add: pq_inv_def)

lemma pq_rows_upd [simp]:
  "pq_rows decode k (w\<lparr>pw_reads := n\<rparr>) = pq_rows decode k w"
  "pq_rows decode k (w\<lparr>pw_lastFlush := t\<rparr>) = pq_rows decode k w"
  by (simp_all add: pq_rows_def pq_stored_def)

lemma writeBucket_object:
  assumes "pq_env_ok env decode" and "rows \<noteq> []" and "list_all (in_bucket k) rows"
    and "pe_encode env rows = Encoded body"
  shows "object_ok decode cfg
    \<lparr>up_Key = objectKey cfg now1 now2 (fst (splitBucketKey k)) (snd (splitBucketKey k)), up_Body = body, up_Ok = ok\<rparr>"
proof -
  let ?r = "hd rows"
  have r: "in_bucket k ?r" using assms(2,3) by (cases rows) auto
  have same: "\<forall>r \<in> set rows. cr_Timeframe r = cr_Timeframe ?r \<and> cr_Scope r = cr_Scope ?r"
    using assms(3) in_bucket_same [OF _ r] unfolding list_all_iff by blast
  have rows: "decode body = rows" using assms(1,4) by (simp add: pq_env_ok_def)
  have key: "CHR ''|'' \<notin> set (cr_Timeframe ?r) \<longrightarrow>
      objectKey cfg now1 now2 (fst (splitBucketKey k)) (snd (splitBucketKey k)) =
      objectKey cfg now1 now2 (cr_Timeframe ?r) (cr_Scope ?r)"
    using r splitBucketKey_roundtrip [of "cr_Timeframe ?r" "cr_Scope ?r"]
    by (auto simp: in_bucket_def row_key_def)
  show ?thesis
    unfolding object_ok_def s3_upload.simps rows using assms(2) r same key unfolding in_bucket_def by blast
qed

lemma filter_in_bucket:
  "list_all (in_bucket k) rows \<Longrightarrow> filter (\<lambda>r. row_key r = j) rows = (if j = k then rows else [])"
  by (induction rows) (auto simp: in_bucket_def)

text \<open>Flushing one bucket moves its rows from the bucket to the uploads, or leaves them.\<close>

lemma flush_bucket_spec:
  assumes env: "pq_env_ok env decode" and inv: "pq_inv decode w" and rows: "bucket_of w key = rows"
    and run: "flush_bucket env w (key, rows) = (w', e)"
  shows "pq_inv decode w'" and "pq_rows decode j w' = pq_rows decode j w"
    and "j \<noteq> key \<Longrightarrow> bucket_of w' j = bucket_of w j" and "e = None \<Longrightarrow> bucket_of w' key = []"
    and "pw_cfg w' = pw_cfg w"
proof -
  have keys: "list_all (in_bucket key) rows" using inv rows by (auto simp: pq_inv_def)
  have "pq_inv decode w' \<and> pq_rows decode j w' = pq_rows decode j w \<and>
      (j \<noteq> key \<longrightarrow> bucket_of w' j = bucket_of w j) \<and> (e = None \<longrightarrow> bucket_of w' key = []) \<and> pw_cfg w' = pw_cfg w"
  proof (cases "pe_encode env rows")
    case (Encoded body)
    have body: "decode body = rows" using env Encoded by (simp add: pq_env_ok_def)
    show ?thesis
    proof (cases "rows = []")
      case False
      from run inv rows show ?thesis
        using writeBucket_object [OF env False keys Encoded] filter_in_bucket [OF keys] False
        by (auto simp: flush_bucket_def writeBucket_def Encoded Let_def pq_inv_def pq_rows_def pq_stored_def body
            case_prod_beta split: if_splits)
    qed (use run inv rows in \<open>auto simp: flush_bucket_def\<close>)
  qed (use run inv rows in \<open>auto simp: flush_bucket_def writeBucket_def split: if_splits prod.splits\<close>)
  then show "pq_inv decode w'" and "pq_rows decode j w' = pq_rows decode j w"
    and "j \<noteq> key \<Longrightarrow> bucket_of w' j = bucket_of w j" and "e = None \<Longrightarrow> bucket_of w' key = []"
    and "pw_cfg w' = pw_cfg w" by auto
qed

lemma flush_loop_spec:
  assumes env: "pq_env_ok env decode" and "pq_inv decode w" and "distinct (map fst es)"
    and "list_all (\<lambda>(k, rows). bucket_of w k = rows) es" and "first_err (flush_bucket env) w es = (w', e)"
  shows "pq_inv decode w' \<and> (\<forall>j. pq_rows decode j w' = pq_rows decode j w) \<and>
    (\<forall>j. j \<notin> fst ` set es \<longrightarrow> bucket_of w' j = bucket_of w j) \<and>
    (e = None \<longrightarrow> (\<forall>j \<in> fst ` set es. bucket_of w' j = [])) \<and> pw_cfg w' = pw_cfg w"
  using assms(2-5)
proof (induction es arbitrary: w)
  case (Cons entry es)
  obtain key rows where entry: "entry = (key, rows)" by fastforce
  obtain w1 e1 where run: "flush_bucket env w (key, rows) = (w1, e1)" by fastforce
  have rows: "bucket_of w key = rows" using Cons.prems entry by simp
  note one = flush_bucket_spec [OF env Cons.prems(1) rows run]
  show ?case
  proof (cases e1)
    case None
    have "list_all (\<lambda>(k, rows). bucket_of w1 k = rows) es"
      unfolding list_all_iff
    proof
      fix x assume x: "x \<in> set es"
      have "fst x \<noteq> key" using Cons.prems(2) x by (auto simp: entry image_iff)
      then show "case x of (k, rows) \<Rightarrow> bucket_of w1 k = rows"
        using Cons.prems(3) x one(3) [of "fst x"] by (cases x) (auto simp: list_all_iff)
    qed
    with None Cons.prems(2,4) have "pq_inv decode w' \<and> (\<forall>j. pq_rows decode j w' = pq_rows decode j w1) \<and>
        (\<forall>j. j \<notin> fst ` set es \<longrightarrow> bucket_of w' j = bucket_of w1 j) \<and>
        (e = None \<longrightarrow> (\<forall>j \<in> fst ` set es. bucket_of w' j = [])) \<and> pw_cfg w' = pw_cfg w1"
      using Cons.IH [OF one(1)] by (simp add: entry run)
    then show ?thesis
      using one(2-5) None Cons.prems(2) by (auto simp: entry)
  qed (use one Cons.prems(4) in \<open>auto simp: entry run\<close>)
qed simp

lemma range_facts:
  assumes "pq_env_ok env decode" and "map_ok (pw_buckets w)"
  shows "distinct (map fst (pe_range env (pw_buckets w)))"
    and "list_all (\<lambda>(k, rows). bucket_of w k = rows) (pe_range env (pw_buckets w))"
    and "fst ` set (pe_range env (pw_buckets w)) = fst ` set (pw_buckets w)"
proof -
  have perm: "mset (pe_range env (pw_buckets w)) = mset (pw_buckets w)"
    using assms(1) by (simp add: pq_env_ok_def)
  then have "mset (map fst (pe_range env (pw_buckets w))) = mset (map fst (pw_buckets w))" by simp
  then show "distinct (map fst (pe_range env (pw_buckets w)))"
    using assms(2) by (metis map_ok_def mset_eq_imp_distinct_iff)
  have set: "set (pe_range env (pw_buckets w)) = set (pw_buckets w)" using perm by (rule mset_eq_setD)
  then show "fst ` set (pe_range env (pw_buckets w)) = fst ` set (pw_buckets w)" by simp
  show "list_all (\<lambda>(k, rows). bucket_of w k = rows) (pe_range env (pw_buckets w))"
    using set map_get_iff [OF assms(2), THEN iffD2] by (auto simp: list_all_iff bucket_of_def)
qed

lemma bucket_of_absent: "k \<notin> fst ` set (pw_buckets w) \<Longrightarrow> bucket_of w k = []"
  by (auto simp: bucket_of_def map_get_def map_of_eq_None_iff [THEN iffD2])

lemma flushLocked_spec:
  assumes env: "pq_env_ok env decode" and inv: "pq_inv decode w" and run: "flushLocked env w = (w', e)"
  shows "pq_inv decode w'" and "pq_rows decode j w' = pq_rows decode j w" and "pw_cfg w' = pw_cfg w"
    and "e = None \<Longrightarrow> bucket_of w' j = []"
proof -
  have "pq_inv decode w' \<and> pq_rows decode j w' = pq_rows decode j w \<and> pw_cfg w' = pw_cfg w \<and>
      (e = None \<longrightarrow> bucket_of w' j = [])"
  proof (cases "pw_buckets w = []")
    case True
    then show ?thesis using run inv by (auto simp: flushLocked_def bucket_of_def)
  next
    case False
    have ok: "map_ok (pw_buckets w)" using inv by (simp add: pq_inv_def)
    obtain w1 e1 where loop: "first_err (flush_bucket env) w (pe_range env (pw_buckets w)) = (w1, e1)" by fastforce
    note facts = flush_loop_spec [OF env inv range_facts(1,2) [OF env ok] loop]
    have "e1 = None \<longrightarrow> bucket_of w1 j = []"
      using facts range_facts(3) [OF env ok] bucket_of_absent [of j w]
      by (cases "j \<in> fst ` set (pw_buckets w)") auto
    with facts loop run False show ?thesis
      by (cases e1) (auto simp: flushLocked_def)
  qed
  then show "pq_inv decode w'" and "pq_rows decode j w' = pq_rows decode j w" and "pw_cfg w' = pw_cfg w"
    and "e = None \<Longrightarrow> bucket_of w' j = []" by auto
qed

lemma append_row_inv:
  assumes "pq_inv decode w"
  shows "pq_inv decode (w\<lparr>pw_buckets := map_set (row_key (candle_to_row c)) (bucket_of w (row_key (candle_to_row c)) @ [candle_to_row c]) (pw_buckets w)\<rparr>)"
    and "pq_rows decode j (w\<lparr>pw_buckets := map_set (row_key (candle_to_row c)) (bucket_of w (row_key (candle_to_row c)) @ [candle_to_row c]) (pw_buckets w)\<rparr>) =
      pq_rows decode j w @ filter (\<lambda>r. row_key r = j) [candle_to_row c]"
  using assms by (auto simp: pq_inv_def pq_rows_def pq_stored_def in_bucket_def candle_to_row_def)

text \<open>A candle is taken even when the flush it triggers fails.\<close>

lemma AppendCandle_spec:
  assumes env: "pq_env_ok env decode" and inv: "pq_inv decode w" and run: "AppendCandle env (Some c) w = (w', e)"
  shows "pq_inv decode w' \<and> pw_cfg w' = pw_cfg w \<and>
    (\<forall>j. pq_rows decode j w' = pq_rows decode j w @ filter (\<lambda>r. row_key r = j) [candle_to_row c])"
proof -
  let ?k = "row_key (candle_to_row c)"
  let ?w1 = "w\<lparr>pw_buckets := map_set ?k (bucket_of w ?k @ [candle_to_row c]) (pw_buckets w)\<rparr>"
  let ?w2 = "?w1\<lparr>pw_reads := pw_reads w + 1\<rparr>"
  have inv1: "pq_inv decode ?w1" using append_row_inv(1) [OF inv] .
  then have inv2: "pq_inv decode ?w2" by simp
  have "(w', e) \<in> {flushLocked env ?w1, flushLocked env ?w2, (?w2, None)}"
    using run by (auto simp: AppendCandle_def Let_def split: if_splits)
  then consider "flushLocked env ?w1 = (w', e)" | "flushLocked env ?w2 = (w', e)" | "w' = ?w2" by auto
  then show ?thesis
  proof cases
    case 1
    then show ?thesis using flushLocked_spec(1-3) [OF env inv1 1] append_row_inv(2) [OF inv, where c = c] by simp
  next
    case 2
    then show ?thesis using flushLocked_spec(1-3) [OF env inv2 2] append_row_inv(2) [OF inv, where c = c] by simp
  next
    case 3
    then show ?thesis using inv2 append_row_inv(2) [OF inv, where c = c] by simp
  qed
qed

section \<open>What the sink keeps of the messages\<close>

fun pq_candles :: "(bytes \<Rightarrow> Candle option) \<Rightarrow> nats_msg list \<Rightarrow> candleRow list" where
  "pq_candles unmarshal [] = []"
| "pq_candles unmarshal (m # ms) =
     (if Contains (nm_Subject m) ''.candle.''
      then (case unmarshal (nm_Data m) of None \<Rightarrow> [] | Some c \<Rightarrow> [candle_to_row c]) @ pq_candles unmarshal ms
      else pq_candles unmarshal ms)"

lemma pq_candles_append: "pq_candles unmarshal (xs @ ys) = pq_candles unmarshal xs @ pq_candles unmarshal ys"
  by (induction xs) auto

definition pq_holds ::
  "'b pq_env \<Rightarrow> ('b \<Rightarrow> candleRow list) \<Rightarrow> PqConfig \<Rightarrow> candleRow list \<Rightarrow> 'b PqWriter \<Rightarrow> bool" where
  "pq_holds env decode cfg rows w \<longleftrightarrow> pq_env_ok env decode \<and> pq_inv decode w \<and> pw_cfg w = cfg \<and>
     (\<forall>k. pq_rows decode k w = filter (\<lambda>r. row_key r = k) rows)"

definition pq_refused ::
  "'b pq_env \<Rightarrow> ('b \<Rightarrow> candleRow list) \<Rightarrow> PqConfig \<Rightarrow> (bytes \<Rightarrow> Candle option) \<Rightarrow> nats_msg list \<Rightarrow> nats_msg \<Rightarrow> 'b PqWriter \<Rightarrow> bool" where
  "pq_refused env decode cfg unmarshal ms m w \<longleftrightarrow>
     pq_holds env decode cfg (pq_candles unmarshal ms) w \<or> pq_holds env decode cfg (pq_candles unmarshal (ms @ [m])) w"

lemma pq_holds_append:
  assumes "pq_holds env decode cfg rows w"
  shows "pq_holds env decode cfg (rows @ [candle_to_row c]) (fst (AppendCandle env (Some c) w))"
  using assms AppendCandle_spec [of env decode w c "fst (AppendCandle env (Some c) w)" "snd (AppendCandle env (Some c) w)"]
  by (simp add: pq_holds_def)

lemma pq_holds_flush: "pq_holds env decode cfg rows w \<Longrightarrow> pq_holds env decode cfg rows (fst (Pq_Flush env w))"
  using flushLocked_spec [of env decode w "fst (Pq_Flush env w)" "snd (Pq_Flush env w)"]
  by (simp add: pq_holds_def Pq_Flush_def)

lemma pq_handle_ok:
  "pq_holds env decode cfg (pq_candles unmarshal ms) w \<Longrightarrow> pq_handleMessage env unmarshal m w = (w', None) \<Longrightarrow>
   pq_holds env decode cfg (pq_candles unmarshal (ms @ [m])) w'"
  using pq_holds_append [of env decode cfg "pq_candles unmarshal ms" w]
  by (auto simp: pq_handleMessage_def pq_candles_append map_prod_def case_prod_beta split: if_splits option.splits)

lemma pq_handle_err:
  "pq_holds env decode cfg (pq_candles unmarshal ms) w \<Longrightarrow> pq_handleMessage env unmarshal m w = (w', Some e) \<Longrightarrow>
   pq_refused env decode cfg unmarshal ms m w'"
  using pq_holds_append [of env decode cfg "pq_candles unmarshal ms" w]
  by (auto simp: pq_handleMessage_def pq_refused_def pq_candles_append map_prod_def case_prod_beta split: if_splits option.splits)

lemma pq_flush_refused:
  "pq_refused env decode cfg unmarshal ms m w \<Longrightarrow> pq_refused env decode cfg unmarshal ms m (fst (Pq_Flush env w))"
  unfolding pq_refused_def using pq_holds_flush by blast

interpretation pql: sink_loop "pq_handleMessage env unmarshal" "Pq_Flush env"
  "\<lambda>ms. pq_holds env decode cfg (pq_candles unmarshal ms)" "pq_refused env decode cfg unmarshal"
  for env :: "'b pq_env" and decode cfg unmarshal
  by unfold_locales (fact pq_handle_ok pq_handle_err pq_holds_flush pq_flush_refused)+

lemma NewWriter_holds:
  assumes "pq_env_ok env decode" and "NewWriter env session_ok cfg = Inr w"
  shows "pq_holds env decode cfg [] w"
  using assms by (auto simp: NewWriter_def pq_holds_def pq_inv_def pq_rows_def pq_stored_def bucket_of_def
      split: if_splits option.splits)

text \<open>(C13) The Parquet sink loses and invents no candle, whatever the messages, the clock, the order in
  which buckets are visited and the answers of the storage: at every moment of a run there is a
  list of messages, the acknowledged ones or these and the one refused last, such that for every
  bucket the rows uploaded with success followed by the rows waiting are exactly the rows of the
  candles in these messages, in order. When the run returned and its last flush succeeded nothing
  is waiting.\<close>

theorem pq_acked_stored:
  assumes "pq_env_ok env decode" and "NewWriter env session_ok cfg = Inr w0"
    and "pq_Run env unmarshal w0 turns = (s, r)"
  shows "\<exists>ms \<in> {map fst (filter snd (ls_acks s)), map fst (ls_acks s)}. \<forall>k.
      filter (\<lambda>row. row_key row = k) (pq_stored decode (ls_proc s)) @ bucket_of (ls_proc s) k =
      filter (\<lambda>row. row_key row = k) (pq_candles unmarshal ms) \<and>
      ((\<exists>err. r = Some (err, None)) \<longrightarrow> bucket_of (ls_proc s) k = [])"
proof -
  have new: "pq_holds env decode cfg (pq_candles unmarshal []) w0"
    using NewWriter_holds [OF assms(1,2)] by simp
  have "pql.acks_ok env decode cfg unmarshal s"
    using pql.Run_acks [OF new, of turns] assms(3) by (simp add: pq_Run_def)
  then have "\<exists>ms \<in> {map fst (filter snd (ls_acks s)), map fst (ls_acks s)}.
      pq_holds env decode cfg (pq_candles unmarshal ms) (ls_proc s)"
    by (auto simp: pql.acks_ok_def pql.all_acked_def pql.one_refused_def pq_refused_def filter_map comp_def)
  moreover have "bucket_of (ls_proc s) k = []" if r: "r = Some (err, None)" for err k
  proof -
    obtain p1 where p1: "ls_proc s = fst (Pq_Flush env p1)" "snd (Pq_Flush env p1) = None"
      and "pql.acks_ok env decode cfg unmarshal (s\<lparr>ls_proc := p1\<rparr>)"
      using assms(3) r unfolding pq_Run_def by (auto intro: pql.Run_flushed [OF new])
    then have "pq_inv decode p1"
      by (auto simp: pql.acks_ok_def pql.all_acked_def pql.one_refused_def pq_refused_def pq_holds_def)
    then show ?thesis
      using flushLocked_spec(4) [OF assms(1), of p1 "fst (Pq_Flush env p1)" "snd (Pq_Flush env p1)"] p1
      by (simp add: Pq_Flush_def)
  qed
  ultimately show ?thesis by (auto simp: pq_holds_def pq_rows_def)
qed

text \<open>The layout of an object key: the cleaned prefix, then one directory each for the timeframe, the
  scope and the date. It holds when the timeframe brings no slash of its own.\<close>

definition key_dir :: "string \<Rightarrow> string" where
  "key_dir pre =
     (let rooted = pre \<noteq> [] \<and> hd pre = CHR ''/''
      in (if rooted then ''/'' else []) @ concat (map (\<lambda>d. d @ ''/'') (clean_parts rooted [] (split_slash [] pre))))"

definition plain_part :: "string \<Rightarrow> bool" where
  "plain_part d \<longleftrightarrow> CHR ''/'' \<notin> set d \<and> d \<notin> {[], ''.'', ''..''}"

lemma split_slash_append: "split_slash cur (p @ CHR ''/'' # s) = split_slash cur p @ split_slash [] s"
  by (induction p arbitrary: cur) auto

lemma split_slash_plain: "CHR ''/'' \<notin> set s \<Longrightarrow> split_slash cur s = [rev cur @ s]"
  by (induction s arbitrary: cur) auto

lemma split_slash_join: "qs \<noteq> [] \<Longrightarrow> list_all plain_part qs \<Longrightarrow> split_slash [] (join_slash qs) = qs"
  by (induction qs rule: join_slash.induct) (auto simp: plain_part_def split_slash_append split_slash_plain)

lemma clean_parts_plain: "list_all plain_part qs \<Longrightarrow> clean_parts rooted out qs = rev out @ qs"
  by (induction qs arbitrary: out) (auto simp: plain_part_def)

lemma clean_parts_append:
  "list_all plain_part qs \<Longrightarrow> clean_parts rooted out (ps @ qs) = clean_parts rooted out ps @ qs"
  by (induction ps arbitrary: out) (auto simp: clean_parts_plain split: list.splits)

lemma join_slash_append: "qs \<noteq> [] \<Longrightarrow> join_slash (ps @ qs) = concat (map (\<lambda>d. d @ ''/'') ps) @ join_slash qs"
  by (induction ps rule: join_slash.induct) (auto simp: neq_Nil_conv)

lemma filepath_Join_plain:
  assumes "qs \<noteq> []" and "list_all plain_part qs"
  shows "filepath_Join (pre # qs) = key_dir pre @ join_slash qs"
proof (cases "pre = []")
  case True
  have q: "hd qs \<noteq> []" "hd (hd qs) \<noteq> CHR ''/''" and join: "join_slash qs \<noteq> []" "hd (join_slash qs) = hd (hd qs)"
    using assms by (cases qs rule: join_slash.cases; auto simp: plain_part_def neq_Nil_conv)+
  have "dropWhile (\<lambda>e. e = []) (pre # qs) = qs" using True assms(1) q(1) by (cases qs) auto
  then show ?thesis
    using True assms q(2) join
    by (simp add: filepath_Join_def filepath_Clean_def key_dir_def split_slash_join clean_parts_plain Let_def)
next
  case False
  then have "join_slash (pre # qs) = pre @ CHR ''/'' # join_slash qs" using assms(1) by (cases qs) auto
  moreover have "join_slash qs \<noteq> []" using assms by (cases qs rule: join_slash.cases) (auto simp: plain_part_def)
  ultimately show ?thesis
    using False assms
    by (auto simp: filepath_Join_def filepath_Clean_def key_dir_def split_slash_append split_slash_join clean_parts_append
        join_slash_append Let_def)
qed

lemma format_date_no_slash: "CHR ''/'' \<notin> set (format_date now)"
  by (auto simp: format_date_def pad_left_zero_def show_nat_no_char is_digit_def split: prod.splits)

lemma show_int_no_slash: "CHR ''/'' \<notin> set (show_int i)"
  by (auto simp: show_int_def show_nat_no_char is_digit_def)

lemma objectKey_layout:
  assumes "CHR ''/'' \<notin> set timeframe" and "CHR ''/'' \<notin> set scope"
  shows "objectKey cfg now1 now2 timeframe scope = key_dir (TrimSuffix (pqc_Prefix cfg) ''/'') @ ''timeframe='' @ timeframe @
     ''/scope='' @ scope @ ''/date='' @ format_date now1 @ ''/candles-'' @ show_int (sint now2) @ ''.parquet''"
  unfolding objectKey_def using assms format_date_no_slash show_int_no_slash
  by (subst filepath_Join_plain) (auto simp: plain_part_def)

text \<open>(C36) The layout of the bucket: every file the Parquet sink uploads holds at least one row, all
  its rows have the same timeframe and the same scope, which is \<open>pair\<close> or \<open>pool\<close>, and, when the timeframe
  has no bar and no slash, its key is the cleaned prefix followed by \<open>timeframe=\<close> that timeframe,
  \<open>scope=\<close> that scope, \<open>date=\<close> a date and \<open>candles-\<close> a number \<open>.parquet\<close>, each in a directory of its own.\<close>

theorem pq_objects_partitioned:
  assumes "pq_env_ok env decode" and "NewWriter env session_ok cfg = Inr w0"
    and "pq_Run env unmarshal w0 turns = (s, r)" and "u \<in> set (pw_uploads (ls_proc s))"
  shows "\<exists>timeframe scope. decode (up_Body u) \<noteq> [] \<and> scope \<in> {''pair'', ''pool''} \<and>
     (\<forall>row \<in> set (decode (up_Body u)). cr_Timeframe row = timeframe \<and> cr_Scope row = scope) \<and>
     (CHR ''|'' \<notin> set timeframe \<and> CHR ''/'' \<notin> set timeframe \<longrightarrow>
       (\<exists>now1 now2. up_Key u = key_dir (TrimSuffix (pqc_Prefix cfg) ''/'') @ ''timeframe='' @ timeframe @
          ''/scope='' @ scope @ ''/date='' @ format_date now1 @ ''/candles-'' @ show_int now2 @ ''.parquet''))"
proof -
  have new: "pq_holds env decode cfg (pq_candles unmarshal []) w0"
    using NewWriter_holds [OF assms(1,2)] by simp
  have "pql.acks_ok env decode cfg unmarshal s"
    using pql.Run_acks [OF new, of turns] assms(3) by (simp add: pq_Run_def)
  then have "pq_inv decode (ls_proc s)" "pw_cfg (ls_proc s) = cfg"
    by (auto simp: pql.acks_ok_def pql.all_acked_def pql.one_refused_def pq_refused_def pq_holds_def)
  then have "object_ok decode cfg u" using assms(4) by (auto simp: pq_inv_def list_all_iff)
  then obtain timeframe scope now1 now2 where
    u: "decode (up_Body u) \<noteq> []" "scope \<in> {''pair'', ''pool''}"
      "\<forall>row \<in> set (decode (up_Body u)). cr_Timeframe row = timeframe \<and> cr_Scope row = scope"
      "CHR ''|'' \<notin> set timeframe \<longrightarrow> up_Key u = objectKey cfg now1 now2 timeframe scope"
    unfolding object_ok_def by blast
  moreover have "CHR ''/'' \<notin> set scope" using u(2) by auto
  ultimately show ?thesis using objectKey_layout by metis
qed

section \<open>The inspection tool on files of the sink\<close>

lemma processRow_counts:
  "sum_TotalRows (processRow r s) = sum_TotalRows s + 1"
  "sum_EmptyTimeframe (processRow r s) = sum_EmptyTimeframe s + (if cr_Timeframe r = [] then 1 else 0)"
  "sum_EmptyScope (processRow r s) = sum_EmptyScope s + (if cr_Scope r = [] then 1 else 0)"
  "sum_InvalidScope (processRow r s) = sum_InvalidScope s + (if cr_Scope r \<in> {[], ''pair'', ''pool''} then 0 else 1)"
  by (auto simp: processRow_def Let_def)

lemma fold_processRow_counts:
  "sum_TotalRows (fold processRow rows s) = sum_TotalRows s + length rows"
  "sum_EmptyTimeframe (fold processRow rows s) = sum_EmptyTimeframe s + length (filter (\<lambda>r. cr_Timeframe r = []) rows)"
  "sum_EmptyScope (fold processRow rows s) = sum_EmptyScope s + length (filter (\<lambda>r. cr_Scope r = []) rows)"
  "sum_InvalidScope (fold processRow rows s) =
     sum_InvalidScope s + length (filter (\<lambda>r. cr_Scope r \<notin> {[], ''pair'', ''pool''}) rows)"
  by (induction rows arbitrary: s) (simp_all add: processRow_counts)

lemma inspectFile_chunks:
  "inspectFile (map (\<lambda>rows. (rows, ReadMore)) chunks @ [(rest, ReadEOF)]) s =
     (fold processRow (concat chunks @ rest) s, True)"
  by (induction chunks arbitrary: s) simp_all

definition zero_summary :: pq_summary where
  "zero_summary = \<lparr>sum_TotalRows = 0, sum_EmptyTimeframe = 0, sum_EmptyScope = 0, sum_InvalidScope = 0,
     sum_MissingWindowStart = 0, sum_NegativeTrades = 0, sum_timeframes = [], sum_scopes = []\<rparr>"

lemma pq_candles_rows: "row \<in> set (pq_candles unmarshal ms) \<Longrightarrow> \<exists>c. row = candle_to_row c"
  by (induction ms) (auto split: if_splits option.splits)

lemma candle_to_row_fields: "cr_Timeframe (candle_to_row c) \<noteq> []" "cr_Scope (candle_to_row c) \<noteq> []"
  "cr_Scope (candle_to_row c) \<in> {''pair'', ''pool''}"
  by (simp_all add: candle_to_row_def)

text \<open>A file that the Parquet sink uploaded with success passes the inspection tool, however the
  reader cuts it into chunks: every row is counted, and none has an empty timeframe, an empty
  scope or a scope other than pair and pool.\<close>

theorem pq_files_pass_inspection:
  assumes "pq_env_ok env decode" and "NewWriter env session_ok cfg = Inr w0"
    and "pq_Run env unmarshal w0 turns = (s, r)" and "u \<in> set (pw_uploads (ls_proc s))" and "up_Ok u"
    and "decode (up_Body u) = concat chunks @ rest"
  shows "\<exists>sum. inspectFile (map (\<lambda>rows. (rows, ReadMore)) chunks @ [(rest, ReadEOF)]) zero_summary = (sum, True) \<and>
    sum_TotalRows sum = length (decode (up_Body u)) \<and> sum_EmptyTimeframe sum = 0 \<and> sum_EmptyScope sum = 0 \<and>
    sum_InvalidScope sum = 0"
proof -
  have new: "pq_holds env decode cfg (pq_candles unmarshal []) w0"
    using NewWriter_holds [OF assms(1,2)] by simp
  have "pql.acks_ok env decode cfg unmarshal s"
    using pql.Run_acks [OF new, of turns] assms(3) by (simp add: pq_Run_def)
  then obtain ms where holds: "pq_holds env decode cfg (pq_candles unmarshal ms) (ls_proc s)"
    by (auto simp: pql.acks_ok_def pql.all_acked_def pql.one_refused_def pq_refused_def)
  have "\<exists>c. row = candle_to_row c" if "row \<in> set (decode (up_Body u))" for row
  proof -
    have "row \<in> set (filter (\<lambda>r. row_key r = row_key row) (pq_stored decode (ls_proc s)))"
      using that assms(4,5) by (auto simp: pq_stored_def)
    then have "row \<in> set (pq_rows decode (row_key row) (ls_proc s))" by (simp add: pq_rows_def)
    then show ?thesis using holds pq_candles_rows by (auto simp: pq_holds_def)
  qed
  then have "\<forall>row \<in> set (concat chunks @ rest). cr_Timeframe row \<noteq> [] \<and> cr_Scope row \<noteq> [] \<and> cr_Scope row \<in> {''pair'', ''pool''}"
    using candle_to_row_fields assms(6) by metis
  then have "filter (\<lambda>r. cr_Timeframe r = []) (concat chunks @ rest) = []"
    "filter (\<lambda>r. cr_Scope r = []) (concat chunks @ rest) = []"
    "filter (\<lambda>r. cr_Scope r \<notin> {[], ''pair'', ''pool''}) (concat chunks @ rest) = []"
    by (auto simp: filter_empty_conv)
  then show ?thesis
    unfolding inspectFile_chunks assms(6) by (simp add: fold_processRow_counts zero_summary_def del: fold_append filter_append set_append)
qed

definition sample_candle :: Candle where
  "sample_candle = \<lparr>cd_ChainId = 501, cd_PairId = ''A/B'', cd_PoolId = [], cd_Timeframe = ''1m'', cd_WindowStart = 60,
     cd_Provisional = True, cd_IsCorrection = False, cd_OpenPxQ32 = 1, cd_HighPxQ32 = 2, cd_LowPxQ32 = 1,
     cd_ClosePxQ32 = 2, cd_VwapNum = None, cd_VwapDen = None, cd_VolBase = None, cd_VolQuote = None, cd_Trades = 3\<rparr>"

definition sample_pq_env :: "(candleRow list) pq_env" where
  "sample_pq_env = \<lparr>pe_encode = Encoded, pe_upload = (\<lambda>_ _ _ _. True), pe_clock = (\<lambda>n. of_nat n), pe_range = id\<rparr>"

definition sample_pq_config :: PqConfig where
  "sample_pq_config = Pq_DefaultConfig\<lparr>pqc_Endpoint := ''e'', pqc_Bucket := ''b'', pqc_AccessKey := ''a'', pqc_SecretKey := ''s''\<rparr>"

definition sample_pq_writer :: "(candleRow list) PqWriter" where
  "sample_pq_writer = \<lparr>pw_cfg = sample_pq_config, pw_buckets = [], pw_lastFlush = 0, pw_reads = 1, pw_uploads = []\<rparr>"

definition sample_pq_turns :: sink_turns where
  "sample_pq_turns = [(NoneReady, SinkMsgs [sample_msg ''x.candle.pair.1m'']), (CtxDone, SinkTimeout)]"

lemma sample_pq_ok:
  "pq_env_ok sample_pq_env id" "NewWriter sample_pq_env True sample_pq_config = Inr sample_pq_writer"
  by (simp_all add: pq_env_ok_def sample_pq_env_def NewWriter_def sample_pq_config_def sample_pq_writer_def
      Pq_Validate_def Pq_DefaultConfig_def time_Second_def word_sle_eq)

definition sample_pq_run :: "(candleRow list) PqWriter loop_state \<times> ((pq_sink_error, pq_error) loop_error \<times> pq_error option) option" where
  "sample_pq_run = pq_Run sample_pq_env (\<lambda>_. Some sample_candle) sample_pq_writer sample_pq_turns"

text \<open>One candle, acknowledged and uploaded by the deferred flush.\<close>

lemma sample_pq_run_result:
  "\<exists>u. pw_uploads (ls_proc (fst sample_pq_run)) = [u] \<and> up_Ok u \<and> up_Body u = [candle_to_row sample_candle]"
  "map fst (filter snd (ls_acks (fst sample_pq_run))) = [sample_msg ''x.candle.pair.1m'']"
  "snd sample_pq_run = Some (LoopCtx, None)"
  by (simp_all add: sample_pq_run_def pq_Run_def loop_Run_def loop_turn_def loop_deliver_def sample_pq_turns_def
      pq_handleMessage_def sample_msg_def AppendCandle_def sample_pq_writer_def sample_pq_env_def sample_pq_config_def
      Pq_DefaultConfig_def time_Second_def word_sle_eq bucket_of_def map_get_def map_set_def Pq_Flush_def flushLocked_def
      flush_bucket_def writeBucket_def HasPrefix_def Let_def split: prod.splits)

theorem pq_acked_stored_witness:
  "\<exists>ms \<in> {[sample_msg ''x.candle.pair.1m''], map fst (ls_acks (fst sample_pq_run))}. \<forall>k.
     filter (\<lambda>row. row_key row = k) (pq_stored id (ls_proc (fst sample_pq_run))) =
     filter (\<lambda>row. row_key row = k) (pq_candles (\<lambda>_. Some sample_candle) ms)"
proof -
  have "pq_Run sample_pq_env (\<lambda>_. Some sample_candle) sample_pq_writer sample_pq_turns = (fst sample_pq_run, snd sample_pq_run)"
    by (simp add: sample_pq_run_def)
  from pq_acked_stored [OF sample_pq_ok this] obtain ms
    where ms: "ms \<in> {map fst (filter snd (ls_acks (fst sample_pq_run))), map fst (ls_acks (fst sample_pq_run))}"
      and rows: "\<forall>k. filter (\<lambda>row. row_key row = k) (pq_stored id (ls_proc (fst sample_pq_run))) @ bucket_of (ls_proc (fst sample_pq_run)) k =
        filter (\<lambda>row. row_key row = k) (pq_candles (\<lambda>_. Some sample_candle) ms) \<and>
        ((\<exists>err. snd sample_pq_run = Some (err, None)) \<longrightarrow> bucket_of (ls_proc (fst sample_pq_run)) k = [])"
    by blast
  have "\<forall>k. filter (\<lambda>row. row_key row = k) (pq_stored id (ls_proc (fst sample_pq_run))) =
      filter (\<lambda>row. row_key row = k) (pq_candles (\<lambda>_. Some sample_candle) ms)"
    using rows sample_pq_run_result(3) by (metis append_Nil2)
  with ms show ?thesis unfolding sample_pq_run_result(2) by blast
qed

theorem pq_objects_partitioned_witness:
  "\<exists>u now1 now2. u \<in> set (pw_uploads (ls_proc (fst sample_pq_run))) \<and> up_Body u = [candle_to_row sample_candle] \<and>
     up_Key u = ''dex/timeframe=1m/scope=pair/date='' @ format_date now1 @ ''/candles-'' @ show_int now2 @ ''.parquet''"
proof -
  obtain u where u: "u \<in> set (pw_uploads (ls_proc (fst sample_pq_run)))" "up_Body u = [candle_to_row sample_candle]"
    using sample_pq_run_result(1) by auto
  have run: "pq_Run sample_pq_env (\<lambda>_. Some sample_candle) sample_pq_writer sample_pq_turns = (fst sample_pq_run, snd sample_pq_run)"
    by (simp add: sample_pq_run_def)
  have row: "cr_Timeframe (candle_to_row sample_candle) = ''1m''" "cr_Scope (candle_to_row sample_candle) = ''pair''"
    by (simp_all add: candle_to_row_def sample_candle_def Let_def)
  have dir: "key_dir (TrimSuffix (pqc_Prefix sample_pq_config) ''/'') = ''dex/''"
    by (simp add: key_dir_def sample_pq_config_def Pq_DefaultConfig_def TrimSuffix_def HasSuffix_def)
  from pq_objects_partitioned [OF sample_pq_ok run u(1)] u(2) row dir
  obtain now1 now2 where "up_Key u = ''dex/timeframe=1m/scope=pair/date='' @ format_date now1 @ ''/candles-'' @ show_int now2 @ ''.parquet''"
    by auto
  with u show ?thesis by blast
qed

theorem pq_files_pass_inspection_witness:
  "\<exists>sum. inspectFile [([candle_to_row sample_candle], ReadEOF)] zero_summary = (sum, True) \<and> sum_TotalRows sum = 1 \<and>
     sum_InvalidScope sum = 0"
proof -
  obtain u where u: "u \<in> set (pw_uploads (ls_proc (fst sample_pq_run)))" "up_Ok u"
    "id (up_Body u) = concat [] @ [candle_to_row sample_candle]"
    using sample_pq_run_result(1) by auto
  have "pq_Run sample_pq_env (\<lambda>_. Some sample_candle) sample_pq_writer sample_pq_turns = (fst sample_pq_run, snd sample_pq_run)"
    by (simp add: sample_pq_run_def)
  from pq_files_pass_inspection [OF sample_pq_ok this u] u(3) show ?thesis by auto
qed

end
