(* ===== verification/Lifecycle.thy ===== *)
theory Lifecycle
  imports Metrics ChService Parquet
begin

text \<open>
  How the services are built and shut down: \<open>NewPublisher\<close> and \<open>Close\<close> of \<open>sinks/nats/publisher.go\<close>,
  \<open>NewService\<close> of both sinks, \<open>setupPipeline\<close>, \<open>NewService\<close>, \<open>NewFailoverService\<close> and the metrics servers of
  \<open>ingestor/geyser\<close>, and the goroutines of \<open>Run\<close> in \<open>bridge/service.go\<close>. A ledger records every connection
  and server that is acquired and released, in the order in which the code does it. What the other
  side does while a service starts is a record of answers.
\<close>

section \<open>The ledger\<close>

datatype resource =
    NatsConn string | ClickHouseConn | GrpcConn string | MetricsServer

datatype ledger_event = Acquire resource | Release resource

type_synonym ledger = "ledger_event list"

definition held_step :: "ledger_event \<Rightarrow> resource set \<Rightarrow> resource set" where
  "held_step ev h = (case ev of Acquire r \<Rightarrow> insert r h | Release r \<Rightarrow> h - {r})"

definition held :: "ledger \<Rightarrow> resource set" where
  "held t = fold held_step t {}"

text \<open>A step of a start-up: what it acquired and released, and its result or its error.\<close>

type_synonym ('e, 'a) boot = "ledger \<times> ('e + 'a)"

definition boot_bind :: "('e, 'a) boot \<Rightarrow> ('a \<Rightarrow> ('e, 'b) boot) \<Rightarrow> ('e, 'b) boot" where
  "boot_bind m f =
     (case m of (t, Inl e) \<Rightarrow> (t, Inl e) | (t, Inr a) \<Rightarrow> (case f a of (t', r) \<Rightarrow> (t @ t', r)))"

definition acquire :: "bool \<Rightarrow> resource \<Rightarrow> 'e \<Rightarrow> ('e, unit) boot" where
  "acquire ok r err = (if ok then ([Acquire r], Inr ()) else ([], Inl err))"

definition check :: "bool \<Rightarrow> 'e \<Rightarrow> ('e, unit) boot" where
  "check ok err = ([], if ok then Inr () else Inl err)"

text \<open>\<open>if err != nil { conn.Close(); return nil, err }\<close>\<close>

definition close_on_error :: "resource \<Rightarrow> ('e, 'a) boot \<Rightarrow> ('e, 'a) boot" where
  "close_on_error r m = (case m of (t, Inl e) \<Rightarrow> (t @ [Release r], Inl e) | (t, Inr a) \<Rightarrow> (t, Inr a))"

section \<open>sinks/nats/publisher.go\<close>

record nats_env =
  ne_connect :: "string \<Rightarrow> bool"
  ne_jetstream :: bool
  ne_pull :: "string \<Rightarrow> string \<Rightarrow> string \<Rightarrow> bool"

datatype boot_error =
    NatsConfigErr nats_config_error | NatsConnectErr | JetStreamErr | PullErr
  | ChWriterErr ch_new_error | PqWriterErr pq_config_error
  | GeyserConfigNil | GeyserClientErr "geyser_config_error list" | PrimaryRequired
  | InitPublisherErr boot_error | MetricsPanic

text \<open>Connect and open JetStream, closing the connection when that fails.\<close>

definition dial_jetstream :: "nats_env \<Rightarrow> string \<Rightarrow> string \<Rightarrow> (boot_error, unit) boot" where
  "dial_jetstream env role url =
     boot_bind (acquire (ne_connect env url) (NatsConn role) NatsConnectErr)
       (\<lambda>_. close_on_error (NatsConn role) (check (ne_jetstream env) JetStreamErr))"

definition NewPublisher :: "nats_env \<Rightarrow> NatsConfig \<Rightarrow> (boot_error, NatsConfig) boot" where
  "NewPublisher env cfg =
     (case Nats_Validate cfg of Some err \<Rightarrow> ([], Inl (NatsConfigErr err)) | None \<Rightarrow>
      boot_bind (dial_jetstream env ''publisher'' (nc_URL cfg)) (\<lambda>_. ([], Inr cfg)))"

text \<open>\<open>Close\<close> of a publisher with a connection or without one.\<close>

definition Publisher_Close :: "bool \<Rightarrow> ledger" where
  "Publisher_Close has_conn = (if has_conn then [Release (NatsConn ''publisher'')] else [])"

section \<open>NewService of the sinks\<close>

text \<open>Both sinks dial, open JetStream and subscribe, closing the connection when a later step fails.\<close>

definition pull_subscribe :: "nats_env \<Rightarrow> string \<Rightarrow> string \<Rightarrow> string \<Rightarrow> string \<Rightarrow> string \<Rightarrow> (boot_error, unit) boot" where
  "pull_subscribe env role url subject consumer stream =
     boot_bind (dial_jetstream env role url)
       (\<lambda>_. close_on_error (NatsConn role) (check (ne_pull env subject consumer stream) PullErr))"

definition Ch_NewService ::
  "nats_env \<Rightarrow> (string \<Rightarrow> url_parts option) \<Rightarrow> (ch_options \<Rightarrow> int \<Rightarrow> 'c option) \<Rightarrow> (int \<Rightarrow> bool) \<Rightarrow> ChServiceConfig \<Rightarrow>
   (boot_error, ('d, 'f) Writer ch_processor) boot" where
  "Ch_NewService env url_Parse dial cancelled cfg =
     (case NewWithConfig url_Parse dial cancelled (chs_Writer cfg) of
        Inl err \<Rightarrow> ([], Inl (ChWriterErr err))
      | Inr (client, writer) \<Rightarrow>
          boot_bind (acquire True ClickHouseConn NatsConnectErr) (\<lambda>_.
          boot_bind (pull_subscribe env ''clickhouse-sink'' (chs_NATSURL cfg) (chs_SubjectRoot cfg @ ''.>'')
            (chs_Consumer cfg) (chs_Stream cfg)) (\<lambda>_.
          ([], Inr (newProcessor writer)))))"

definition Pq_NewService :: "nats_env \<Rightarrow> 'b pq_env \<Rightarrow> bool \<Rightarrow> PqServiceConfig \<Rightarrow> (boot_error, 'b PqWriter) boot" where
  "Pq_NewService env penv session_ok cfg =
     (case NewWriter penv session_ok (pqs_Writer cfg) of
        Inl err \<Rightarrow> ([], Inl (PqWriterErr err))
      | Inr writer \<Rightarrow>
          boot_bind (pull_subscribe env ''parquet-sink'' (pqs_NATSURL cfg) (pqs_SubjectRoot cfg @ ''.candle.>'')
            (pqs_Consumer cfg) (pqs_Stream cfg)) (\<lambda>_.
          ([], Inr writer)))"

section \<open>ingestor/geyser/service.go: construction\<close>

record 'r ingest_env =
  ie_nats :: nats_env
  ie_prom :: "'r prometheus"
  ie_fq :: fq_name
  ie_process :: "string list"
  ie_go :: "string list"

text \<open>The metrics server is its address.\<close>

definition buildMetricsServer :: "string \<Rightarrow> string option" where
  "buildMetricsServer addr = (if addr = [] then None else Some addr)"

definition setupPipeline ::
  "'r ingest_env \<Rightarrow> NatsConfig \<Rightarrow> string \<Rightarrow> (boot_error, Processor \<times> 'r \<times> string option) boot" where
  "setupPipeline env natsCfg metricsAddr =
     (case NewPublisher (ie_nats env) natsCfg of
        (t, Inl err) \<Rightarrow> (t, Inl (InitPublisherErr err))
      | (t, Inr publisher) \<Rightarrow>
          (case setup_registry (ie_prom env) (ie_fq env) (ie_process env) (ie_go env) of
             None \<Rightarrow> (t, Inl MetricsPanic)
           | Some registry \<Rightarrow>
               (t, Inr (NewProcessor (Some NewMemorySlotTimeCache), registry, buildMetricsServer metricsAddr))))"

record ingest_service =
  is_client :: stream_client
  is_processor :: Processor
  is_server :: "string option"

definition Geyser_NewService ::
  "((string, string) gomap \<Rightarrow> (string, string) gomap) \<Rightarrow> 'r ingest_env \<Rightarrow> GeyserConfig option \<Rightarrow> NatsConfig \<Rightarrow> string \<Rightarrow>
   (boot_error, ingest_service) boot" where
  "Geyser_NewService ord env geyserCfg natsCfg metricsAddr =
     (case geyserCfg of None \<Rightarrow> ([], Inl GeyserConfigNil) | Some cfg \<Rightarrow>
      case Geyser_NewClient ord cfg of Inl errs \<Rightarrow> ([], Inl (GeyserClientErr errs)) | Inr client \<Rightarrow>
      boot_bind (setupPipeline env natsCfg metricsAddr) (\<lambda>(processor, registry, server).
        ([], Inr \<lparr>is_client = client, is_processor = processor, is_server = server\<rparr>)))"

record failover_service =
  fs_failover :: "Processor failover"
  fs_server :: "string option"

definition NewFailoverService ::
  "'r ingest_env \<Rightarrow> stream_client option \<Rightarrow> stream_client option \<Rightarrow> NatsConfig \<Rightarrow> string \<Rightarrow>
   (boot_error, failover_service) boot" where
  "NewFailoverService env primary_ptr fallback natsCfg metricsAddr =
     (case primary_ptr of None \<Rightarrow> ([], Inl PrimaryRequired) | Some primary \<Rightarrow>
      boot_bind (setupPipeline env natsCfg metricsAddr) (\<lambda>(processor, registry, server).
        case newFailoverMetrics (ie_prom env) (ie_fq env) (Some registry) of
          None \<Rightarrow> ([], Inl MetricsPanic)
        | Some (registry', metrics) \<Rightarrow>
            ([], Inr \<lparr>fs_failover = (NewFailover primary fallback processor)\<lparr>fo_metrics := metrics\<rparr>, fs_server = server\<rparr>)))"

section \<open>Running and shutting down\<close>

text \<open>The goroutine that serves the metrics, and \<open>shutdownMetrics\<close>. \<open>listens\<close> says whether \<open>ListenAndServe\<close>
  serves until it is shut down; when it fails (the address is taken) the error is printed and nothing
  else happens. \<open>Shutdown\<close> of a server that does not serve has no effect.\<close>

definition serveMetrics :: "bool \<Rightarrow> string option \<Rightarrow> ledger" where
  "serveMetrics listens server =
     (case server of None \<Rightarrow> [] | Some _ \<Rightarrow> if listens then [Acquire MetricsServer] else [])"

definition shutdownMetrics :: "string option \<Rightarrow> ledger" where
  "shutdownMetrics server = (case server of None \<Rightarrow> [] | Some _ \<Rightarrow> [Release MetricsServer])"

text \<open>The \<open>select\<close> loop of \<open>Run\<close> of the single-client service with the ledger of each case: what was released,
  the processor, and the result (\<open>None\<close> while the loop waits; a closed stream ends it without error).\<close>

fun service_loop ::
  "(SubscribeUpdate \<Rightarrow> 'p \<Rightarrow> 'p \<times> 'e option) \<Rightarrow> string option \<Rightarrow> 'p \<Rightarrow> select list \<Rightarrow>
   ledger \<times> 'p \<times> 'e run_end option option" where
  "service_loop handle server p [] = ([], p, None)"
| "service_loop handle server p (s # ss) =
     (case s of
        SelCtx \<Rightarrow> (shutdownMetrics server, p, Some (Some RunCtx))
      | SelErr None \<Rightarrow> service_loop handle server p ss
      | SelErr (Some err) \<Rightarrow> (shutdownMetrics server, p, Some (Some (RunClientErr err)))
      | SelUpdate None \<Rightarrow> (shutdownMetrics server, p, Some None)
      | SelUpdate (Some u) \<Rightarrow>
          (case handle u p of
             (p', Some err) \<Rightarrow> ([], p', Some (Some (RunHandleErr err)))
           | (p', None) \<Rightarrow> service_loop handle server p' ss))"

text \<open>\<open>Run\<close>: connect, serve the metrics, loop; the deferred \<open>Close\<close> of the client runs on every return after
  \<open>Connect\<close>.\<close>

definition Service_RunLedger ::
  "(SubscribeUpdate \<Rightarrow> 'p \<Rightarrow> 'p \<times> 'e option) \<Rightarrow> bool \<Rightarrow> string option \<Rightarrow> stream_client \<Rightarrow> attempt_env \<Rightarrow> 'p \<Rightarrow>
   ledger \<times> (stream_client \<times> 'p) \<times> 'e run_end option option" where
  "Service_RunLedger handle listens server c a p =
     (case ae_connect a of
        ConnectFails cancelled \<Rightarrow> ([], (c, p), Some (Some (RunConnectErr cancelled)))
      | Connected \<Rightarrow>
          (case service_loop handle server p (ae_selects a) of
             (t, p', None) \<Rightarrow> ([Acquire (GrpcConn (sc_name c))] @ serveMetrics listens server @ t, (c, p'), None)
           | (t, p', Some r) \<Rightarrow>
               ([Acquire (GrpcConn (sc_name c))] @ serveMetrics listens server @ t @ [Release (GrpcConn (sc_name c))],
                (Client_Close c, p'), Some r)))"

text \<open>The failover loop with its ledger: one client at a time, and the metrics server from the first
  pass until the context is cancelled.\<close>

definition attempt_ledger ::
  "(SubscribeUpdate \<Rightarrow> 'p \<Rightarrow> 'p \<times> 'e option) \<Rightarrow> attempt_env \<Rightarrow> 'p failover \<Rightarrow> ledger" where
  "attempt_ledger handle a s =
     (let c = fo_clients s ! fo_current s in
      case ae_connect a of
        ConnectFails _ \<Rightarrow> []
      | Connected \<Rightarrow> Acquire (GrpcConn (sc_name c)) #
          (if snd (runClient handle c a (fo_proc s)) = None then [] else [Release (GrpcConn (sc_name c))]))"

fun failover_passes ::
  "(SubscribeUpdate \<Rightarrow> 'p \<Rightarrow> 'p \<times> 'e option) \<Rightarrow> ('e \<Rightarrow> bool) \<Rightarrow> string option \<Rightarrow> 'p failover \<Rightarrow> attempt_env list \<Rightarrow> ledger" where
  "failover_passes handle is_canceled server s [] = []"
| "failover_passes handle is_canceled server s (a # as) =
     attempt_ledger handle a s @
     (case failover_step handle is_canceled a s of
        (s', True) \<Rightarrow> failover_passes handle is_canceled server s' as
      | (s', False) \<Rightarrow>
          if snd (runClient handle (fo_clients s ! fo_current s) a (fo_proc s)) = None then []
          else shutdownMetrics server)"

definition Failover_RunLedger ::
  "(SubscribeUpdate \<Rightarrow> 'p \<Rightarrow> 'p \<times> 'e option) \<Rightarrow> ('e \<Rightarrow> bool) \<Rightarrow> bool \<Rightarrow> string option \<Rightarrow> 'p failover \<Rightarrow> attempt_env list \<Rightarrow> ledger" where
  "Failover_RunLedger handle is_canceled listens server s as =
     serveMetrics listens server @ failover_passes handle is_canceled server s as"

section \<open>bridge/service.go: the goroutines of Run\<close>

text \<open>The group of \<open>Run\<close> with the goroutine of the metrics server and the one that shuts it down once the
  context of the group is done. The context is done when the caller cancels it or a goroutine of the
  group has failed. A server that fails to listen fails the group.\<close>

record bridge_live =
  lv_group :: bridge_group
  lv_server :: bool

datatype live_event = ConsumerTurn nat bool fetch_result | ServerFails | ShutdownTurn bool

definition live_start :: "BridgeService \<Rightarrow> consumer list \<Rightarrow> serviceMetrics \<Rightarrow> bridge_live" where
  "live_start s cs m = \<lparr>lv_group = group_start cs m, lv_server = (bs_metricsServer s \<noteq> [])\<rparr>"

definition live_step :: "target_server \<Rightarrow> source_acks \<Rightarrow> BridgeService \<Rightarrow> live_event \<Rightarrow> bridge_live \<Rightarrow> bridge_live" where
  "live_step target acks s ev l =
     (case ev of
        ConsumerTurn i cancelled result \<Rightarrow> l\<lparr>lv_group := group_step target acks s (Turn i cancelled result) (lv_group l)\<rparr>
      | ServerFails \<Rightarrow>
          if lv_server l then l\<lparr>lv_group := group_step target acks s MetricsFails (lv_group l), lv_server := False\<rparr> else l
      | ShutdownTurn cancelled \<Rightarrow>
          if cancelled \<or> gp_err (lv_group l) \<noteq> None then l\<lparr>lv_server := False\<rparr> else l)"

definition live_run :: "target_server \<Rightarrow> source_acks \<Rightarrow> BridgeService \<Rightarrow> live_event list \<Rightarrow> bridge_live \<Rightarrow> bridge_live" where
  "live_run target acks s evs l = fold (live_step target acks s) evs l"

text \<open>After \<open>Run\<close> has returned its deferred calls have closed both connections: a fetch fails, a publication
  is refused and an acknowledgement is not sent.\<close>

definition closed_run :: "BridgeService \<Rightarrow> live_event list \<Rightarrow> bridge_live \<Rightarrow> bridge_live" where
  "closed_run s evs l = live_run (\<lambda>_ _ _. TargetErr False) (\<lambda>_ _. False) s evs l"

definition closed_turn :: "nat \<Rightarrow> live_event" where
  "closed_turn i = ConsumerTurn i False (FetchError False)"

definition consumers_running :: "bridge_live \<Rightarrow> bool" where
  "consumers_running l = list_ex (\<lambda>c. c \<noteq> Returned) (gp_consumers (lv_group l))"

section \<open>ingestor/helius/client.go: Start and Close\<close>

text \<open>The runs a Helius client has started, numbered, and the cancel function it keeps. \<open>Start\<close> overwrites
  it, \<open>Close\<close> calls and forgets it.\<close>

record helius_runs =
  hr_started :: nat
  hr_cancel :: "nat option"
  hr_cancelled :: "nat list"

definition setCancel :: "nat \<Rightarrow> helius_runs \<Rightarrow> helius_runs" where
  "setCancel run s = s\<lparr>hr_cancel := Some run\<rparr>"

definition Helius_Start :: "helius_runs \<Rightarrow> helius_runs" where
  "Helius_Start s = setCancel (hr_started s) (s\<lparr>hr_started := Suc (hr_started s)\<rparr>)"

definition Helius_Close :: "helius_runs \<Rightarrow> helius_runs" where
  "Helius_Close s =
     (case hr_cancel s of None \<Rightarrow> s
      | Some run \<Rightarrow> s\<lparr>hr_cancelled := hr_cancelled s @ [run], hr_cancel := None\<rparr>)"

datatype helius_op = HStart | HClose

definition helius_ops :: "helius_op list \<Rightarrow> helius_runs \<Rightarrow> helius_runs" where
  "helius_ops ops s = fold (\<lambda>op. case op of HStart \<Rightarrow> Helius_Start | HClose \<Rightarrow> Helius_Close) ops s"

section \<open>Lemmas\<close>

text \<open>\<open>Close\<close> can be called again; a run that was started before another \<open>Start\<close> is never cancelled by it.\<close>

lemma Helius_Close_twice: "Helius_Close (Helius_Close s) = Helius_Close s"
  by (simp add: Helius_Close_def split: option.splits)

lemma helius_lost_run:
  assumes "run < hr_started s" and "hr_cancel s \<noteq> Some run" and "run \<notin> set (hr_cancelled s)"
  shows "run \<notin> set (hr_cancelled (helius_ops ops s))"
  using assms unfolding helius_ops_def
  by (induction ops arbitrary: s)
    (auto simp: Helius_Start_def Helius_Close_def setCancel_def split: helius_op.splits option.splits)

lemma held_append: "held (t @ t') = fold held_step t' (held t)"
  by (simp add: held_def)

lemma held_steps [simp]:
  "held [] = {}" "held (Acquire r # t) = fold held_step t {r}" "held (Release r # t) = held t"
  by (simp_all add: held_def held_step_def)

lemma held_step_simps [simp]:
  "held_step (Acquire r) h = insert r h" "held_step (Release r) h = h - {r}"
  by (simp_all add: held_step_def)

lemmas boot_defs = boot_bind_def acquire_def check_def close_on_error_def dial_jetstream_def pull_subscribe_def

lemma NewPublisher_held:
  "held (fst (NewPublisher env cfg)) = (case snd (NewPublisher env cfg) of Inl _ \<Rightarrow> {} | Inr _ \<Rightarrow> {NatsConn ''publisher''})"
  by (auto simp: NewPublisher_def boot_defs split: option.splits)

lemma setupPipeline_held:
  assumes "setupPipeline env natsCfg addr = (t, Inr x)"
  shows "held t = {NatsConn ''publisher''}"
proof -
  obtain cfg where "NewPublisher (ie_nats env) natsCfg = (t, Inr cfg)"
    using assms by (auto simp: setupPipeline_def split: prod.splits sum.splits option.splits)
  then show ?thesis using NewPublisher_held [of "ie_nats env" natsCfg] by simp
qed

lemma setupPipeline_server:
  "setupPipeline env natsCfg addr = (t, Inr (p, r, server)) \<Longrightarrow> server = buildMetricsServer addr"
  by (auto simp: setupPipeline_def split: prod.splits sum.splits option.splits)

lemma Geyser_NewService_built:
  assumes "Geyser_NewService ord env geyserCfg natsCfg addr = (t, Inr svc)"
  shows "held t = {NatsConn ''publisher''} \<and> is_server svc = buildMetricsServer addr"
proof -
  obtain p r server where pipe: "setupPipeline env natsCfg addr = (t, Inr (p, r, server))"
    and "is_server svc = server"
    using assms by (auto simp: Geyser_NewService_def boot_bind_def split: option.splits sum.splits prod.splits)
  then show ?thesis
    using setupPipeline_held [OF pipe] setupPipeline_server [OF pipe] by simp
qed

text \<open>The loop with its ledger runs as the loop of the theory \<open>Geyser\<close> does.\<close>

lemma service_loop_consume:
  "snd (service_loop handle server p ss) =
     (case consume handle p ss of (p', None) \<Rightarrow> (p', None)
      | (p', Some RunStreamClosed) \<Rightarrow> (p', Some None) | (p', Some e) \<Rightarrow> (p', Some (Some e)))"
  by (induction ss arbitrary: p) (auto split: select.splits option.splits prod.splits)

lemma Service_RunLedger_run: "snd (Service_RunLedger handle listens server c a p) = Service_Run handle c a p"
proof (cases "ae_connect a")
  case Connected
  obtain p' e where con: "consume handle p (ae_selects a) = (p', e)" by fastforce
  obtain t where "service_loop handle server p (ae_selects a) =
      (t, case e of None \<Rightarrow> (p', None) | Some RunStreamClosed \<Rightarrow> (p', Some None) | Some e' \<Rightarrow> (p', Some (Some e')))"
    using service_loop_consume [of handle server p "ae_selects a"]
    by (cases "service_loop handle server p (ae_selects a)") (auto simp: con split: option.splits run_end.splits)
  with Connected con show ?thesis
    by (auto simp: Service_RunLedger_def Service_Run_def runClient_def split: option.splits run_end.splits)
qed (simp add: Service_RunLedger_def Service_Run_def runClient_def)

definition handle_failed :: "'e run_end option \<Rightarrow> bool" where
  "handle_failed r = (case r of Some (RunHandleErr _) \<Rightarrow> True | _ \<Rightarrow> False)"

lemma service_loop_ledger:
  "service_loop handle server p ss = (t, p', Some r) \<Longrightarrow> t = (if handle_failed r then [] else shutdownMetrics server)"
  by (induction ss arbitrary: p) (auto simp: handle_failed_def split: select.splits option.splits prod.splits)

lemma Service_RunLedger_held:
  assumes "Service_RunLedger handle listens server c a p = (t, cp, Some r)"
    and "h \<inter> {GrpcConn (sc_name c), MetricsServer} = {}"
  shows "fold held_step t h = h \<union> (if handle_failed r \<and> listens \<and> server \<noteq> None then {MetricsServer} else {})"
proof (cases "ae_connect a")
  case Connected
  obtain t1 p1 r1 where loop: "service_loop handle server p (ae_selects a) = (t1, p1, r1)" by (metis prod.exhaust)
  with Connected assms(1) have "r1 = Some r"
    and t: "t = [Acquire (GrpcConn (sc_name c))] @ serveMetrics listens server @ t1 @ [Release (GrpcConn (sc_name c))]"
    by (auto simp: Service_RunLedger_def split: option.splits)
  with service_loop_ledger [of handle server p "ae_selects a" t1 p1 r] loop assms(2) show ?thesis
    by (auto simp: serveMetrics_def shutdownMetrics_def split: option.splits if_splits)
next
  case (ConnectFails cancelled)
  then show ?thesis using assms by (auto simp: Service_RunLedger_def handle_failed_def)
qed

text \<open>The group of a live bridge takes the steps of the theory \<open>BridgeRun\<close>.\<close>

lemma live_group:
  "\<exists>gevs. lv_group (live_run target acks s evs l) = group_run target acks s gevs (lv_group l)"
proof (induction evs arbitrary: l)
  case Nil
  have "lv_group (live_run target acks s [] l) = group_run target acks s [] (lv_group l)"
    by (simp add: live_run_def group_run_def)
  then show ?case ..
next
  case (Cons ev evs)
  have "\<exists>gs. lv_group (live_step target acks s ev l) = group_run target acks s gs (lv_group l)"
  proof (cases ev)
    case (ConsumerTurn i cancelled result)
    have "lv_group (live_step target acks s ev l) = group_run target acks s [Turn i cancelled result] (lv_group l)"
      by (simp add: live_step_def group_run_def ConsumerTurn)
    then show ?thesis ..
  next
    case ServerFails
    have "lv_group (live_step target acks s ev l) = group_run target acks s (if lv_server l then [MetricsFails] else []) (lv_group l)"
      by (simp add: live_step_def group_run_def ServerFails)
    then show ?thesis ..
  next
    case (ShutdownTurn cancelled)
    have "lv_group (live_step target acks s ev l) = group_run target acks s [] (lv_group l)"
      by (simp add: live_step_def group_run_def ShutdownTurn)
    then show ?thesis ..
  qed
  then obtain gs where "lv_group (live_step target acks s ev l) = group_run target acks s gs (lv_group l)" ..
  moreover obtain gs' where "lv_group (live_run target acks s evs (live_step target acks s ev l)) =
      group_run target acks s gs' (lv_group (live_step target acks s ev l))"
    using Cons.IH by blast
  ultimately have "lv_group (live_run target acks s (ev # evs) l) = group_run target acks s (gs @ gs') (lv_group l)"
    by (simp add: live_run_def group_run_append)
  then show ?case ..
qed

text \<open>On closed connections the next turn of a consumer is its last, and it fails the group.\<close>

lemma closed_forward: "\<exists>st' err. forward (\<lambda>_ _ _. TargetErr False) (\<lambda>_ _. False) s msg st = (st', Some err)"
  by (auto simp: forward_def ack_source_def Let_def split: prod.splits bool.splits)

lemma closed_consumer_turn:
  assumes "i < length (gp_consumers g)"
  shows "\<exists>st err. group_step (\<lambda>_ _ _. TargetErr False) (\<lambda>_ _. False) s (Turn i False (FetchError False)) g =
    (if gp_consumers g ! i = Returned then g else consumer_returns i err (g\<lparr>gp_state := st\<rparr>))"
proof (cases "gp_consumers g ! i")
  case (Forwarding ms)
  show ?thesis
  proof (cases ms)
    case (Cons m ms')
    obtain st' err where "forward (\<lambda>_ _ _. TargetErr False) (\<lambda>_ _. False) s m (gp_state g) = (st', Some err)"
      using closed_forward by blast
    then have "group_step (\<lambda>_ _ _. TargetErr False) (\<lambda>_ _. False) s (Turn i False (FetchError False)) g =
        consumer_returns i err (g\<lparr>gp_state := st'\<rparr>)"
      using assms Forwarding Cons by (simp add: group_step_def)
    then show ?thesis using Forwarding by auto
  qed (use assms Forwarding in \<open>auto simp: group_step_def poll_def intro!: exI [of _ "gp_state g"]\<close>)
qed (use assms in \<open>auto simp: group_step_def poll_def intro!: exI [of _ "gp_state g"]\<close>)

lemma group_step_length: "length (gp_consumers (group_step target acks s ev g)) = length (gp_consumers g)"
  by (auto simp: group_step_def poll_def split: group_event.splits consumer.splits list.splits fetch_result.splits
      option.splits prod.splits)

lemma live_length: "length (gp_consumers (lv_group (live_run target acks s evs l))) = length (gp_consumers (lv_group l))"
  unfolding live_run_def
  by (induction evs arbitrary: l) (auto simp: live_step_def group_step_length split: live_event.splits)

lemma closed_turns_returned:
  "\<forall>i < length (gp_consumers (lv_group l)).
     (i \<in> set turns \<longrightarrow> gp_consumers (lv_group (closed_run s (map closed_turn turns) l)) ! i = Returned) \<and>
     (gp_consumers (lv_group l) ! i = Returned \<longrightarrow> gp_consumers (lv_group (closed_run s (map closed_turn turns) l)) ! i = Returned)"
proof (induction turns arbitrary: l)
  case (Cons j turns)
  let ?l = "live_step (\<lambda>_ _ _. TargetErr False) (\<lambda>_ _. False) s (closed_turn j) l"
  have len: "length (gp_consumers (lv_group ?l)) = length (gp_consumers (lv_group l))"
    by (simp add: live_step_def closed_turn_def group_step_length)
  have "gp_consumers (lv_group ?l) ! i = Returned"
    if "i < length (gp_consumers (lv_group l))" "i = j \<or> gp_consumers (lv_group l) ! i = Returned" for i
  proof (cases "j < length (gp_consumers (lv_group l))")
    case True
    from closed_consumer_turn [OF this, of s] True that show ?thesis
      by (auto simp: live_step_def closed_turn_def consumer_returns_def nth_list_update)
  next
    case False
    with that show ?thesis by (auto simp: live_step_def closed_turn_def group_step_def)
  qed
  with Cons.IH [of ?l] len show ?case by (auto simp: closed_run_def live_run_def)
qed (simp add: closed_run_def live_run_def)

text \<open>A consumer that has returned failed the group.\<close>

definition failed_if_returned :: "bridge_group \<Rightarrow> bool" where
  "failed_if_returned g \<longleftrightarrow> (list_ex (\<lambda>c. c = Returned) (gp_consumers g) \<longrightarrow> gp_err g \<noteq> None)"

lemma failed_update [intro]:
  "failed_if_returned (consumer_returns i err g)"
  "failed_if_returned g \<Longrightarrow> c \<noteq> Returned \<Longrightarrow> failed_if_returned (g\<lparr>gp_consumers := (gp_consumers g)[i := c]\<rparr>)"
  "failed_if_returned g \<Longrightarrow> c \<noteq> Returned \<Longrightarrow> failed_if_returned (g\<lparr>gp_state := st, gp_consumers := (gp_consumers g)[i := c]\<rparr>)"
  by (auto simp: failed_if_returned_def list_ex_iff dest: set_update_subset_insert [THEN subsetD])

lemma poll_failed: "failed_if_returned g \<Longrightarrow> failed_if_returned (poll i cancelled result g)"
  by (auto simp: poll_def split: fetch_result.splits)

lemma group_step_failed: "failed_if_returned g \<Longrightarrow> failed_if_returned (group_step target acks s ev g)"
proof (cases ev)
  case (Turn i cancelled result)
  assume "failed_if_returned g"
  then show ?thesis
    by (simp add: group_step_def Turn poll_failed split: consumer.split list.split prod.split option.split) blast
qed (simp add: group_step_def failed_if_returned_def)

lemma group_run_failed: "failed_if_returned g \<Longrightarrow> failed_if_returned (group_run target acks s evs g)"
  unfolding group_run_def by (induction evs arbitrary: g) (simp_all add: group_step_failed)

lemma subscribed_polling: "list_all (\<lambda>c. c = Polling) (fst (subscribe_all env subjects))"
  by (induction subjects) (auto split: prod.splits)

lemma live_failed:
  "failed_if_returned (lv_group l) \<Longrightarrow> failed_if_returned (lv_group (live_run target acks s evs l))"
  using live_group [of target acks s evs l] group_run_failed by metis

lemma closed_turns_stop:
  assumes "failed_if_returned (lv_group l)" and "gp_consumers (lv_group l) \<noteq> []"
    and "{..<length (gp_consumers (lv_group l))} \<subseteq> set turns"
  shows "\<not> consumers_running (closed_run s (map closed_turn turns @ [ShutdownTurn False]) l) \<and>
    \<not> lv_server (closed_run s (map closed_turn turns @ [ShutdownTurn False]) l)"
proof -
  define l1 where "l1 = closed_run s (map closed_turn turns) l"
  have len: "length (gp_consumers (lv_group l1)) = length (gp_consumers (lv_group l))"
    by (simp add: l1_def closed_run_def live_length)
  have all: "\<forall>c \<in> set (gp_consumers (lv_group l1)). c = Returned"
    unfolding all_set_conv_all_nth using closed_turns_returned [of l turns s] assms(3) len
    by (auto simp: l1_def subset_iff)
  moreover have "gp_consumers (lv_group l1) \<noteq> []" using len assms(2) by (metis length_0_conv)
  ultimately have "list_ex (\<lambda>c. c = Returned) (gp_consumers (lv_group l1))"
    by (cases "gp_consumers (lv_group l1)") auto
  then have "gp_err (lv_group l1) \<noteq> None"
    using live_failed [OF assms(1)] by (simp add: l1_def closed_run_def failed_if_returned_def)
  moreover have "closed_run s (map closed_turn turns @ [ShutdownTurn False]) l =
      live_step (\<lambda>_ _ _. TargetErr False) (\<lambda>_ _. False) s (ShutdownTurn False) l1"
    by (simp add: l1_def closed_run_def live_run_def)
  ultimately show ?thesis
    using all by (simp add: live_step_def consumers_running_def list_ex_iff)
qed

lemma idle_live:
  "gp_consumers (lv_group l) = [] \<Longrightarrow> gp_err (lv_group l) = None \<Longrightarrow>
   list_all (\<lambda>ev. ev \<noteq> ServerFails \<and> ev \<noteq> ShutdownTurn True) evs \<Longrightarrow> live_run target acks s evs l = l"
  unfolding live_run_def
  by (induction evs) (auto simp: live_step_def group_step_def split: live_event.splits)

text \<open>The failover loop holds one gRPC connection at a time, and none between two passes.\<close>

lemma attempt_ledger_held:
  "h \<inter> range GrpcConn = {} \<Longrightarrow> fold held_step (attempt_ledger handle a s) h =
     (if snd (runClient handle (fo_clients s ! fo_current s) a (fo_proc s)) = None
      then insert (GrpcConn (sc_name (fo_clients s ! fo_current s))) h else h)"
  by (auto simp: attempt_ledger_def runClient_def Let_def split: connect_result.splits)

lemma failover_step_waits:
  "snd (runClient handle (fo_clients s ! fo_current s) a (fo_proc s)) = None \<Longrightarrow> snd (failover_step handle is_canceled a s) = False"
  by (auto simp: failover_step_def Let_def split: prod.splits)

lemma failover_one_connection:
  "h \<inter> range GrpcConn = {} \<Longrightarrow> \<exists>n. fold held_step (failover_passes handle is_canceled server s as) h \<subseteq> insert (GrpcConn n) h"
proof (induction as arbitrary: s)
  case (Cons a as)
  let ?waits = "snd (runClient handle (fo_clients s ! fo_current s) a (fo_proc s)) = None"
  show ?case
  proof (cases "snd (failover_step handle is_canceled a s)")
    case True
    then have "\<not> ?waits" using failover_step_waits by blast
    with Cons True show ?thesis by (auto simp: attempt_ledger_held split: prod.splits)
  next
    case False
    then show ?thesis
      using Cons.prems by (cases server) (auto simp: attempt_ledger_held shutdownMetrics_def split: prod.splits bool.splits)
  qed
qed auto

section \<open>Properties\<close>

text \<open>
  (C31) What a start-up leaves open, for every configuration and every answer of the servers: a publisher
  and the Parquet sink hold their NATS connection when they were built and nothing when building them
  failed. The ClickHouse sink holds its ClickHouse and its NATS connection when it was built; when it
  fails after the writer was connected, the NATS connection is closed but the ClickHouse connection
  stays open.
\<close>

theorem startup_resources:
  "(case NewPublisher env cfg of (t, r) \<Rightarrow>
      held t = (case r of Inl _ \<Rightarrow> {} | Inr _ \<Rightarrow> {NatsConn ''publisher''})) \<and>
   (case Pq_NewService env penv session_ok pcfg of (t, r) \<Rightarrow>
      held t = (case r of Inl _ \<Rightarrow> {} | Inr _ \<Rightarrow> {NatsConn ''parquet-sink''})) \<and>
   (case Ch_NewService env url_Parse dial cancelled ccfg of (t, r) \<Rightarrow>
      held t = (case r of
        Inl (ChWriterErr _) \<Rightarrow> {} | Inl _ \<Rightarrow> {ClickHouseConn}
      | Inr _ \<Rightarrow> {ClickHouseConn, NatsConn ''clickhouse-sink''}))"
proof (intro conjI)
  show "case NewPublisher env cfg of (t, r) \<Rightarrow> held t = (case r of Inl _ \<Rightarrow> {} | Inr _ \<Rightarrow> {NatsConn ''publisher''})"
    using NewPublisher_held [of env cfg] by (simp add: case_prod_unfold)
qed (auto simp: Pq_NewService_def Ch_NewService_def boot_defs split: sum.splits prod.splits)

text \<open>
  (C15) Shutting down the single-client ingest service: whenever \<open>Run\<close> of a service that was built returns,
  whatever the updates, the errors and the processor did, the gRPC connection is closed and the NATS
  connection of the publisher is still open. A metrics server that serves is shut down on every
  return except the one for an error of the processor: then it keeps serving.
\<close>

theorem service_shutdown:
  assumes "Geyser_NewService ord env geyserCfg natsCfg metricsAddr = (t, Inr svc)"
    and "Service_RunLedger handle listens (is_server svc) (is_client svc) a p = (t', cp, Some r)"
  shows "held (t @ t') = {NatsConn ''publisher''} \<union>
    (if handle_failed r \<and> listens \<and> metricsAddr \<noteq> [] then {MetricsServer} else {})"
proof -
  note built = Geyser_NewService_built [OF assms(1)]
  have "{NatsConn ''publisher''} \<inter> {GrpcConn (sc_name (is_client svc)), MetricsServer} = {}" by simp
  from Service_RunLedger_held [OF assms(2) this] built show ?thesis
    by (simp add: held_append buildMetricsServer_def)
qed

definition open_nats :: nats_env where
  "open_nats = \<lparr>ne_connect = (\<lambda>_. True), ne_jetstream = True, ne_pull = (\<lambda>_ _ _. True)\<rparr>"

definition sample_ingest_env :: "string list ingest_env" where
  "sample_ingest_env = \<lparr>ie_nats = open_nats, ie_prom = list_prometheus, ie_fq = join_fq, ie_process = [], ie_go = []\<rparr>"

definition sample_geyser_config :: GeyserConfig where
  "sample_geyser_config = \<lparr>gc_Endpoint = ''e'', gc_APIKey = ''k'', gc_ProgramFilters = [(''p'', replicate 32 (CHR ''a''))]\<rparr>"

definition sample_nats_config :: NatsConfig where
  "sample_nats_config = Nats_DefaultConfig\<lparr>nc_URL := ''u'', nc_Stream := ''DEX''\<rparr>"

lemma sample_pipeline_built:
  "\<exists>t p r server. setupPipeline sample_ingest_env sample_nats_config addr = (t, Inr (p, r, server)) \<and>
     set (pm_registered list_prometheus r) = set (processor_names join_fq)"
proof -
  have "Nats_Validate sample_nats_config = None"
    by (simp add: Nats_Validate_def sample_nats_config_def Nats_DefaultConfig_def time_Second_def word_sle_eq)
  then have "\<exists>t cfg. NewPublisher open_nats sample_nats_config = (t, Inr cfg)"
    by (simp add: NewPublisher_def open_nats_def boot_defs)
  moreover have new: "pm_registered list_prometheus (pm_new list_prometheus) = []" by (simp add: list_prometheus_def)
  have "distinct (processor_names join_fq)" by (simp add: names_of_fq(1) [OF list_prometheus_laws(2)])
  then obtain r where "register_all list_prometheus (processor_names join_fq) (pm_new list_prometheus) = Some r"
      "set (pm_registered list_prometheus r) = set (processor_names join_fq)"
    by (rule register_all_Some [OF list_prometheus_laws(1), of "processor_names join_fq" "pm_new list_prometheus"])
      (simp_all only: new, auto)
  ultimately show ?thesis
    by (auto simp: setupPipeline_def sample_ingest_env_def setup_registry_def register_processor_def)
qed

lemma sample_failover_built:
  "\<exists>t fs. NewFailoverService sample_ingest_env (Some p) f sample_nats_config addr = (t, Inr fs)"
proof -
  obtain t q r server where pipe: "setupPipeline sample_ingest_env sample_nats_config addr = (t, Inr (q, r, server))"
    and names: "set (pm_registered list_prometheus r) = set (processor_names join_fq)"
    using sample_pipeline_built by blast
  have "distinct (failover_names join_fq)" "set (failover_names join_fq) \<inter> set (processor_names join_fq) = {}"
    by (simp_all add: names_of_fq [OF list_prometheus_laws(2)])
  then obtain r' where "register_all list_prometheus (failover_names join_fq) r = Some r'"
    using register_all_Some [OF list_prometheus_laws(1)] unfolding names [symmetric] by blast
  then have "newFailoverMetrics list_prometheus join_fq (Some r) \<noteq> None" by (simp add: newFailoverMetrics_def)
  then show ?thesis
    using pipe by (auto simp: NewFailoverService_def boot_bind_def sample_ingest_env_def)
qed

text \<open>The property at a service with a metrics server whose processor accepts one update and refuses the next.\<close>

theorem service_shutdown_witness:
  "\<exists>t svc t' cp r. Geyser_NewService id sample_ingest_env (Some sample_geyser_config) sample_nats_config '':9100'' = (t, Inr svc) \<and>
     Service_RunLedger (\<lambda>u n. (Suc n, if n = 0 then None else Some ())) True (is_server svc) (is_client svc)
       \<lparr>ae_connect = Connected, ae_rounds = [], ae_selects = [SelUpdate (Some (U_Slot None)), SelErr None, SelUpdate (Some (U_Slot None))]\<rparr> 0
       = (t', cp, Some r) \<and>
     held (t @ t') = {NatsConn ''publisher'', MetricsServer}"
proof -
  have "\<exists>c. Geyser_NewClient id sample_geyser_config = Inr c"
    by (simp add: Geyser_NewClient_def Geyser_Validate_def sample_geyser_config_def program_errors_def)
  then obtain t svc where built: "Geyser_NewService id sample_ingest_env (Some sample_geyser_config) sample_nats_config '':9100'' = (t, Inr svc)"
    using sample_pipeline_built [of "'':9100''"] by (auto simp: Geyser_NewService_def boot_bind_def)
  let ?a = "\<lparr>ae_connect = Connected, ae_rounds = [], ae_selects = [SelUpdate (Some (U_Slot None)), SelErr None, SelUpdate (Some (U_Slot None))]\<rparr>"
  let ?run = "Service_RunLedger (\<lambda>u n. (Suc n, if n = 0 then None else Some ())) True (is_server svc) (is_client svc) ?a 0"
  obtain t' cp where run: "?run = (t', cp, Some (Some (RunHandleErr ())))"
    by (simp add: Service_RunLedger_def)
  from service_shutdown [OF built run] built run show ?thesis by (auto simp: handle_failed_def)
qed

text \<open>
  (C16) What is left of the bridge after \<open>Run\<close> has returned because a subscription failed, whatever happened
  before. \<open>Run\<close> does not wait for its goroutines then. If a consumer had been started, it stops by
  itself: once every consumer and then the shutdown goroutine have had a turn on the closed
  connections, no consumer and no metrics server is running. If the first subscription failed, no
  turn of any goroutine stops the metrics server: it keeps serving until the caller cancels.
\<close>

theorem bridge_abandoned:
  assumes "subscribe_all env subjects = (cs, Some subject)"
    and "l = live_run target acks s evs (live_start s cs m)"
  shows "(cs \<noteq> [] \<and> {..<length cs} \<subseteq> set turns \<longrightarrow>
      \<not> consumers_running (closed_run s (map closed_turn turns @ [ShutdownTurn False]) l) \<and>
      \<not> lv_server (closed_run s (map closed_turn turns @ [ShutdownTurn False]) l))
    \<and> (cs = [] \<and> list_all (\<lambda>ev. ev \<noteq> ServerFails \<and> ev \<noteq> ShutdownTurn True) (evs @ later) \<longrightarrow>
      lv_server (closed_run s later l) = (bs_metricsServer s \<noteq> []))"
proof (intro conjI impI)
  assume "cs \<noteq> [] \<and> {..<length cs} \<subseteq> set turns"
  moreover have "length (gp_consumers (lv_group l)) = length cs"
    using live_length [of target acks s evs "live_start s cs m"] assms(2) by (simp add: live_start_def group_start_def)
  moreover have "failed_if_returned (lv_group (live_start s cs m))"
    using subscribed_polling [of env subjects] assms(1)
    by (auto simp: live_start_def group_start_def failed_if_returned_def list_all_iff list_ex_iff)
  then have "failed_if_returned (lv_group l)" unfolding assms(2) by (rule live_failed)
  ultimately show "\<not> consumers_running (closed_run s (map closed_turn turns @ [ShutdownTurn False]) l)"
    and "\<not> lv_server (closed_run s (map closed_turn turns @ [ShutdownTurn False]) l)"
    using closed_turns_stop [of l turns s] by (metis length_0_conv)+
next
  assume "cs = [] \<and> list_all (\<lambda>ev. ev \<noteq> ServerFails \<and> ev \<noteq> ShutdownTurn True) (evs @ later)"
  then show "lv_server (closed_run s later l) = (bs_metricsServer s \<noteq> [])"
    using idle_live [of "live_start s cs m" evs target acks s] idle_live [of l later "\<lambda>_ _ _. TargetErr False" "\<lambda>_ _. False" s] assms(2)
    by (simp add: closed_run_def live_start_def group_start_def)
qed

text \<open>The property at a bridge with a metrics server whose second subscription fails while the first
  consumer has a message to forward, and at one whose first subscription fails.\<close>

theorem bridge_abandoned_witness:
  "let env = sample_bridge_env\<lparr>be_pull := \<lambda>subject _. subject \<noteq> ''dex.sol.tx.>''\<rparr>;
       s = sample_bridge\<lparr>bs_metricsServer := '':9090''\<rparr>;
       l = live_run (\<lambda>_ _ _. TargetErr False) (\<lambda>_ _. True) s [ConsumerTurn 0 False (Fetched [sample_head_msg])] (live_start s [Polling] no_metrics)
   in subscribe_all env [''dex.sol.blocks.>'', ''dex.sol.tx.>''] = ([Polling], Some ''dex.sol.tx.>'') \<and>
     consumers_running l \<and> lv_server l \<and>
     \<not> lv_server (closed_run s [closed_turn 0, ShutdownTurn False] l) \<and>
     lv_server (closed_run s [closed_turn 0, ShutdownTurn False] (live_start s [] no_metrics))"
proof -
  let ?env = "sample_bridge_env\<lparr>be_pull := \<lambda>subject _. subject \<noteq> ''dex.sol.tx.>''\<rparr>"
  let ?s = "sample_bridge\<lparr>bs_metricsServer := '':9090''\<rparr>"
  have two: "subscribe_all ?env [''dex.sol.blocks.>'', ''dex.sol.tx.>''] = ([Polling], Some ''dex.sol.tx.>'')"
    and one: "subscribe_all ?env [''dex.sol.tx.>''] = ([], Some ''dex.sol.tx.>'')"
    by simp_all
  note first = bridge_abandoned [OF two refl, where s = ?s and turns = "[0]" and m = no_metrics
      and target = "\<lambda>_ _ _. TargetErr False" and acks = "\<lambda>_ _. True" and evs = "[ConsumerTurn 0 False (Fetched [sample_head_msg])]"]
  note second = bridge_abandoned [OF one refl, where s = ?s and m = no_metrics and evs = "[]"
      and target = "\<lambda>_ _ _. TargetErr False" and acks = "\<lambda>_ _. True" and later = "[closed_turn 0, ShutdownTurn False]"]
  have "lv_server (closed_run ?s [closed_turn 0, ShutdownTurn False] (live_start ?s [] no_metrics))"
    using second by (simp add: closed_turn_def live_run_def)
  moreover have "{..<Suc 0} \<subseteq> {0}" by auto
  ultimately show ?thesis
    using first two by (simp add: Let_def consumers_running_def live_run_def live_step_def live_start_def group_start_def
        group_step_def poll_def)
qed

end
