(* ===== verification/Candles.thy ===== *)
theory Candles
  imports Parquet
begin

text \<open>
  The candle bridge: \<open>cmd/candles/main.go\<close>. It pulls candles from a stream and writes each batch to
  the ClickHouse writer and, when configured, to the Parquet writer, before it acknowledges the batch.
  The floating-point operations of \<open>translateCandle\<close> are a record of operations on \<open>'f\<close>.
\<close>

section \<open>Translation\<close>

record 'f candle_floats =
  cf_of_i64 :: "i64 \<Rightarrow> 'f"
  cf_of_u64 :: "u64 \<Rightarrow> 'f"
  cf_lit :: "nat \<Rightarrow> 'f"
  cf_add :: "'f \<Rightarrow> 'f \<Rightarrow> 'f"
  cf_div :: "'f \<Rightarrow> 'f \<Rightarrow> 'f"
  cf_ldexp :: "'f \<Rightarrow> nat \<Rightarrow> 'f"

definition q32Factor :: "'f candle_floats \<Rightarrow> 'f" where
  "q32Factor F = cf_lit F 4294967296"

definition priceFromQ32 :: "'f candle_floats \<Rightarrow> i64 \<Rightarrow> 'f" where
  "priceFromQ32 F val = cf_div F (cf_of_i64 F val) (q32Factor F)"

definition volumeFromU128 :: "'f candle_floats \<Rightarrow> U128 option \<Rightarrow> 'f" where
  "volumeFromU128 F u_ptr =
     (case u_ptr of None \<Rightarrow> cf_lit F 0 | Some u \<Rightarrow>
      cf_add F (cf_ldexp F (cf_of_u64 F (u128_Hi u)) 64) (cf_of_u64 F (u128_Lo u)))"

definition translateCandle :: "'f candle_floats \<Rightarrow> Candle \<Rightarrow> 'f ChCandle" where
  "translateCandle F c =
     \<lparr>cc_Timestamp = cd_WindowStart c, cc_PoolID = cd_PoolId c, cc_Open = priceFromQ32 F (cd_OpenPxQ32 c),
      cc_High = priceFromQ32 F (cd_HighPxQ32 c), cc_Low = priceFromQ32 F (cd_LowPxQ32 c),
      cc_Close = priceFromQ32 F (cd_ClosePxQ32 c), cc_Volume = volumeFromU128 F (cd_VolQuote c)\<rparr>"

definition envOr :: "environ \<Rightarrow> string \<Rightarrow> string \<Rightarrow> string" where
  "envOr env key fallback = (if env key \<noteq> [] then env key else fallback)"

definition envOrInt :: "environ \<Rightarrow> string \<Rightarrow> int \<Rightarrow> int" where
  "envOrInt env key fallback =
     (if env key \<noteq> [] then (case strconv_Atoi (env key) of Inr iv \<Rightarrow> iv | Inl _ \<Rightarrow> fallback) else fallback)"

section \<open>Batches\<close>

text \<open>The bridge, with the settlements made so far: a message and whether it was acknowledged (\<open>True\<close>) or
  given back. The errors of \<open>Ack\<close> and \<open>Nak\<close> calls are only logged.\<close>

record ('d, 'f, 'b) CandleBridge =
  br_writer :: "('d, 'f) writer_world"
  br_parquet :: "'b PqWriter option"
  br_settled :: "(nats_msg \<times> bool) list"

datatype candle_error = CandleClickHouse ch_write_error | CandleParquet pq_error

definition settle :: "bool \<Rightarrow> nats_msg list \<Rightarrow> ('d, 'f, 'b) CandleBridge \<Rightarrow> ('d, 'f, 'b) CandleBridge" where
  "settle ack msgs s = s\<lparr>br_settled := br_settled s @ map (\<lambda>m. (m, ack)) msgs\<rparr>"

definition nakAll :: "nats_msg list \<Rightarrow> ('d, 'f, 'b) CandleBridge \<Rightarrow> ('d, 'f, 'b) CandleBridge" where
  "nakAll msgs s = settle False msgs s"

text \<open>The decoding loop: what cannot be decoded is given back at once.\<close>

fun decode_msgs ::
  "(bytes \<Rightarrow> Candle option) \<Rightarrow> nats_msg list \<Rightarrow> ('d, 'f, 'b) CandleBridge \<Rightarrow> ('d, 'f, 'b) CandleBridge \<times> (nats_msg \<times> Candle) list" where
  "decode_msgs unmarshal [] s = (s, [])"
| "decode_msgs unmarshal (m # ms) s =
     (case unmarshal (nm_Data m) of
        None \<Rightarrow> decode_msgs unmarshal ms (settle False [m] s)
      | Some c \<Rightarrow> (case decode_msgs unmarshal ms s of (s', mcs) \<Rightarrow> (s', (m, c) # mcs)))"

definition append_all ::
  "'b pq_env \<Rightarrow> Candle list \<Rightarrow> 'b PqWriter option \<Rightarrow> 'b PqWriter option \<times> pq_error option" where
  "append_all env cs pq =
     (case pq of None \<Rightarrow> (None, None) | Some w \<Rightarrow>
      map_prod Some id (first_err (\<lambda>w c. AppendCandle env (Some c) w) w cs))"

definition Candles_Process ::
  "'f candle_floats \<Rightarrow> ('d, 'f) ch_client \<Rightarrow> 'b pq_env \<Rightarrow> (bytes \<Rightarrow> Candle option) \<Rightarrow> nats_msg list \<Rightarrow>
   ('d, 'f, 'b) CandleBridge \<Rightarrow> ('d, 'f, 'b) CandleBridge \<times> candle_error option" where
  "Candles_Process F client_Do env unmarshal msgs s =
     (if msgs = [] then (s, None)
      else case decode_msgs unmarshal msgs s of
        (s1, mcs) \<Rightarrow>
          if mcs = [] then (s1, None)
          else case WriteCandles client_Do (br_writer s1) (map (translateCandle F \<circ> snd) mcs) of
            (ww, Some err) \<Rightarrow> (nakAll (map fst mcs) (s1\<lparr>br_writer := ww\<rparr>), Some (CandleClickHouse err))
          | (ww, None) \<Rightarrow>
              (case append_all env (map snd mcs) (br_parquet s1) of
                 (pq, Some err) \<Rightarrow>
                   (nakAll (map fst mcs) (s1\<lparr>br_writer := ww, br_parquet := pq\<rparr>), Some (CandleParquet err))
               | (pq, None) \<Rightarrow> (settle True (map fst mcs) (s1\<lparr>br_writer := ww, br_parquet := pq\<rparr>), None)))"

text \<open>The loop of \<open>main\<close>: per turn whether the context is done, and what the fetch returns. A failed batch
  is logged. When the context is done the deferred calls run, of which only the Parquet writer's
  \<open>Close\<close> writes anything.\<close>

definition close_parquet :: "'b pq_env \<Rightarrow> ('d, 'f, 'b) CandleBridge \<Rightarrow> ('d, 'f, 'b) CandleBridge" where
  "close_parquet env s = s\<lparr>br_parquet := map_option (\<lambda>w. fst (Pq_Close env w)) (br_parquet s)\<rparr>"

fun candles_main ::
  "'f candle_floats \<Rightarrow> ('d, 'f) ch_client \<Rightarrow> 'b pq_env \<Rightarrow> (bytes \<Rightarrow> Candle option) \<Rightarrow> (bool \<times> sink_fetch) list \<Rightarrow>
   ('d, 'f, 'b) CandleBridge \<Rightarrow> ('d, 'f, 'b) CandleBridge" where
  "candles_main F client_Do env unmarshal [] s = s"
| "candles_main F client_Do env unmarshal ((ctx_done, fetch) # turns) s =
     (if ctx_done then close_parquet env s
      else candles_main F client_Do env unmarshal turns
        (case fetch of
           SinkMsgs msgs \<Rightarrow> fst (Candles_Process F client_Do env unmarshal msgs s)
         | _ \<Rightarrow> s))"

section \<open>Lemmas\<close>

definition decoded :: "(bytes \<Rightarrow> Candle option) \<Rightarrow> nats_msg list \<Rightarrow> Candle list" where
  "decoded unmarshal ms = List.map_filter (\<lambda>m. unmarshal (nm_Data m)) ms"

definition acked :: "('d, 'f, 'b) CandleBridge \<Rightarrow> nats_msg list" where
  "acked s = map fst (filter snd (br_settled s))"

definition settled_msgs :: "('d, 'f, 'b) CandleBridge \<Rightarrow> nats_msg list" where
  "settled_msgs s = map fst (br_settled s)"

lemma decoded_simps [simp]:
  "decoded unmarshal [] = []"
  "decoded unmarshal (m # ms) = (case unmarshal (nm_Data m) of None \<Rightarrow> [] | Some c \<Rightarrow> [c]) @ decoded unmarshal ms"
  "decoded unmarshal (xs @ ys) = decoded unmarshal xs @ decoded unmarshal ys"
  by (auto simp: decoded_def List.map_filter_def split: option.splits)

lemma settle_simps [simp]:
  "br_writer (settle a ms s) = br_writer s" "br_parquet (settle a ms s) = br_parquet s"
  "settled_msgs (settle a ms s) = settled_msgs s @ ms"
  "acked (settle True ms s) = acked s @ ms" "acked (settle False ms s) = acked s"
  by (simp_all add: settle_def acked_def settled_msgs_def comp_def filter_empty_conv)

lemma settled_upd [simp]:
  "acked (s\<lparr>br_writer := w\<rparr>) = acked s" "acked (s\<lparr>br_parquet := q\<rparr>) = acked s"
  "settled_msgs (s\<lparr>br_writer := w\<rparr>) = settled_msgs s" "settled_msgs (s\<lparr>br_parquet := q\<rparr>) = settled_msgs s"
  by (simp_all add: acked_def settled_msgs_def)

lemma decode_msgs_spec:
  assumes "decode_msgs unmarshal ms s = (s', mcs)"
  shows "br_writer s' = br_writer s \<and> br_parquet s' = br_parquet s \<and> acked s' = acked s \<and>
    map snd mcs = decoded unmarshal ms \<and> decoded unmarshal (map fst mcs) = map snd mcs \<and>
    mset (settled_msgs s' @ map fst mcs) = mset (settled_msgs s @ ms)"
  using assms
proof (induction ms arbitrary: s mcs)
  case (Cons m ms)
  show ?case
  proof (cases "unmarshal (nm_Data m)")
    case None
    then show ?thesis using Cons.IH [of "settle False [m] s"] Cons.prems by simp
  next
    case (Some c)
    then obtain mcs' where "decode_msgs unmarshal ms s = (s', mcs')" "mcs = (m, c) # mcs'"
      using Cons.prems by (auto split: prod.splits)
    then show ?thesis using Cons.IH [of s mcs'] Some by simp
  qed
qed simp

subsection \<open>What is acknowledged is held by both writers\<close>

definition ch_held :: "'f candle_floats \<Rightarrow> Candle list \<Rightarrow> ('d, 'f) writer_world \<Rightarrow> bool" where
  "ch_held F cs w \<longleftrightarrow> subseq (map (candle_row \<circ> translateCandle F) cs) (candle_rows w)"

definition pq_held :: "'b pq_env \<Rightarrow> ('b \<Rightarrow> candleRow list) \<Rightarrow> PqConfig \<Rightarrow> Candle list \<Rightarrow> 'b PqWriter option \<Rightarrow> bool" where
  "pq_held env decode cfg cs pq \<longleftrightarrow>
     (case pq of None \<Rightarrow> True | Some w \<Rightarrow>
      \<exists>rows. pq_holds env decode cfg rows w \<and> subseq (map candle_to_row cs) rows)"

lemma subseq_append_right: "subseq xs ys \<Longrightarrow> subseq xs (ys @ zs)"
  using list_emb_append_mono [of "(=)" xs ys "[]" zs] by simp

lemma WriteCandles_held:
  assumes "writer_inv dec w" and "ch_held F cs w" and "WriteCandles client_Do w (map (translateCandle F) new) = (w', e)"
  shows "writer_inv dec w' \<and> ch_held F cs w' \<and> (e = None \<longrightarrow> ch_held F (cs @ new) w')"
proof -
  obtain n where n: "candle_rows w' = candle_rows w @ map candle_row (take n (map (translateCandle F) new))"
    "e = None \<longrightarrow> n = length new"
    using WriteCandles_rows [OF assms(1), of "map (translateCandle F) new" client_Do] assms(3) by auto
  then have "ch_held F cs w'" "e = None \<longrightarrow> ch_held F (cs @ new) w'"
    using assms(2) by (auto simp: ch_held_def subseq_append_right comp_def intro: list_emb_append_mono)
  then show ?thesis
    using WriteCandles_inv [OF assms(1), of client_Do "map (translateCandle F) new"] assms(3) by simp
qed

lemma append_all_held:
  assumes "pq_held env decode cfg cs pq" and "append_all env new pq = (pq', e)"
  shows "pq_held env decode cfg cs pq' \<and> (e = None \<longrightarrow> pq_held env decode cfg (cs @ new) pq')"
proof (cases pq)
  case None
  then show ?thesis using assms by (auto simp: append_all_def pq_held_def)
next
  case (Some w)
  have "pq_held env decode cfg cs (Some w') \<and> (r = None \<longrightarrow> pq_held env decode cfg (cs @ new) (Some w'))"
    if "first_err (\<lambda>w c. AppendCandle env (Some c) w) w new = (w', r)" "pq_held env decode cfg cs (Some w)" for w w' r cs
    using that
  proof (induction new arbitrary: w cs)
    case (Cons c new)
    obtain w1 r1 where step: "AppendCandle env (Some c) w = (w1, r1)" by fastforce
    obtain rows where rows: "pq_holds env decode cfg rows w" "subseq (map candle_to_row cs) rows"
      using Cons.prems(2) by (auto simp: pq_held_def)
    have taken: "pq_holds env decode cfg (rows @ [candle_to_row c]) w1"
      using pq_holds_append [OF rows(1), of c] step by simp
    then have "pq_held env decode cfg (cs @ [c]) (Some w1)"
      using rows(2) by (auto simp: pq_held_def intro!: exI [of _ "rows @ [candle_to_row c]"] list_emb_append_mono)
    moreover have held: "pq_held env decode cfg cs (Some w1)"
      using taken subseq_append_right [OF rows(2)] by (auto simp: pq_held_def)
    ultimately show ?case
      using Cons.IH [of w1 "cs @ [c]"] Cons.IH [of w1 cs] Cons.prems(1) step held by (cases r1) auto
  qed simp
  then show ?thesis using assms Some by (auto simp: append_all_def map_prod_def case_prod_beta prod_eq_iff)
qed

definition bridge_ok ::
  "'f candle_floats \<Rightarrow> 'b pq_env \<Rightarrow> ('b \<Rightarrow> candleRow list) \<Rightarrow> PqConfig \<Rightarrow> (bytes \<Rightarrow> Candle option) \<Rightarrow> (u64 \<Rightarrow> 'd) \<Rightarrow>
   ('d, 'f, 'b) CandleBridge \<Rightarrow> bool" where
  "bridge_ok F env decode cfg unmarshal dec s \<longleftrightarrow>
     writer_inv dec (br_writer s) \<and> ch_held F (decoded unmarshal (acked s)) (br_writer s) \<and>
     pq_held env decode cfg (decoded unmarshal (acked s)) (br_parquet s)"

lemma Process_ok:
  assumes "bridge_ok F env decode cfg unmarshal dec s" and "Candles_Process F client_Do env unmarshal msgs s = (s', e)"
  shows "bridge_ok F env decode cfg unmarshal dec s'"
    and "mset (settled_msgs s') = mset (settled_msgs s @ msgs)"
    and "e \<noteq> None \<Longrightarrow> acked s' = acked s"
proof -
  obtain s1 mcs where dec: "decode_msgs unmarshal msgs s = (s1, mcs)" by fastforce
  note d = decode_msgs_spec [OF dec]
  obtain ww we where wr: "WriteCandles client_Do (br_writer s1) (map (translateCandle F) (map snd mcs)) = (ww, we)" by fastforce
  obtain pq pe where pq: "append_all env (map snd mcs) (br_parquet s1) = (pq, pe)" by fastforce
  have w: "writer_inv dec ww \<and> ch_held F (decoded unmarshal (acked s)) ww \<and>
      (we = None \<longrightarrow> ch_held F (decoded unmarshal (acked s) @ map snd mcs) ww)"
    using WriteCandles_held [of dec _ F "decoded unmarshal (acked s)", OF _ _ wr] assms(1) d by (simp add: bridge_ok_def)
  have p: "pq_held env decode cfg (decoded unmarshal (acked s)) pq \<and>
      (pe = None \<longrightarrow> pq_held env decode cfg (decoded unmarshal (acked s) @ map snd mcs) pq)"
    using append_all_held [of env decode cfg "decoded unmarshal (acked s)", OF _ pq] assms(1) d by (simp add: bridge_ok_def)
  have cases: "s' = s \<and> msgs = [] \<and> e = None \<or> s' = s1 \<and> mcs = [] \<and> e = None
      \<or> s' = nakAll (map fst mcs) (s1\<lparr>br_writer := ww\<rparr>) \<and> e \<noteq> None
      \<or> s' = nakAll (map fst mcs) (s1\<lparr>br_writer := ww, br_parquet := pq\<rparr>) \<and> e \<noteq> None
      \<or> s' = settle True (map fst mcs) (s1\<lparr>br_writer := ww, br_parquet := pq\<rparr>) \<and> we = None \<and> pe = None \<and> e = None"
    using assms(2) dec wr pq by (auto simp: Candles_Process_def split: if_splits option.splits)
  show "bridge_ok F env decode cfg unmarshal dec s'"
    using cases assms(1) d w p by (auto simp: bridge_ok_def nakAll_def)
  show "mset (settled_msgs s') = mset (settled_msgs s @ msgs)"
    using cases d by (auto simp: nakAll_def)
  show "acked s' = acked s" if "e \<noteq> None"
    using cases d that by (auto simp: nakAll_def)
qed

text \<open>The messages of the fetches before the context is found done.\<close>

fun fetched :: "(bool \<times> sink_fetch) list \<Rightarrow> nats_msg list" where
  "fetched [] = []"
| "fetched ((ctx_done, fetch) # turns) =
     (if ctx_done then [] else (case fetch of SinkMsgs msgs \<Rightarrow> msgs | _ \<Rightarrow> []) @ fetched turns)"

lemma candles_main_ok:
  "bridge_ok F env decode cfg unmarshal dec s \<Longrightarrow>
     bridge_ok F env decode cfg unmarshal dec (candles_main F client_Do env unmarshal turns s) \<and>
     mset (settled_msgs (candles_main F client_Do env unmarshal turns s)) = mset (settled_msgs s @ fetched turns)"
proof (induction turns arbitrary: s rule: fetched.induct)
  case (2 ctx_done fetch turns)
  show ?case
  proof (cases ctx_done)
    case True
    have "pq_held env decode cfg cs (map_option (\<lambda>w. fst (Pq_Close env w)) (br_parquet s))"
      if "pq_held env decode cfg cs (br_parquet s)" for cs
      using that pq_holds_flush by (fastforce simp: pq_held_def Pq_Close_def split: option.splits)
    then show ?thesis
      using "2.prems" True by (simp add: close_parquet_def bridge_ok_def)
  next
    case False
    define s1 where "s1 = (case fetch of SinkMsgs msgs \<Rightarrow> fst (Candles_Process F client_Do env unmarshal msgs s) | _ \<Rightarrow> s)"
    have "bridge_ok F env decode cfg unmarshal dec s1 \<and>
        mset (settled_msgs s1) = mset (settled_msgs s @ (case fetch of SinkMsgs msgs \<Rightarrow> msgs | _ \<Rightarrow> []))"
    proof (cases fetch)
      case (SinkMsgs msgs)
      then show ?thesis
        using Process_ok [OF "2.prems", of client_Do msgs "fst (Candles_Process F client_Do env unmarshal msgs s)"
            "snd (Candles_Process F client_Do env unmarshal msgs s)"]
        by (simp add: s1_def)
    qed (use "2.prems" in \<open>simp_all add: s1_def\<close>)
    then show ?thesis
      using "2.IH" [OF False, of s1] False by (simp add: s1_def)
  qed
qed simp

definition candles_start :: "ChConfig \<Rightarrow> 'b PqWriter option \<Rightarrow> ('d, 'f, 'b) CandleBridge" where
  "candles_start cfg pq = \<lparr>br_writer = (new_writer cfg, []), br_parquet = pq, br_settled = []\<rparr>"

subsection \<open>Batches that never fill\<close>

lemma WriteCandles_unsent:
  assumes "cb_count (w_candlesBatch w) + int (length cs) < chc_BatchSize (w_config w)"
  shows "\<exists>w'. WriteCandles client_Do (w, trace) cs = ((w', trace), None) \<and> w_config w' = w_config w \<and>
    cb_count (w_candlesBatch w') = cb_count (w_candlesBatch w) + int (length cs)"
  using assms
proof (induction cs arbitrary: w)
  case Nil
  then show ?case by (simp add: WriteCandles_def)
next
  case (Cons c cs)
  define w1 where "w1 = w\<lparr>w_candlesBatch := append_candle c (w_candlesBatch w)\<rparr>"
  have "write_candle client_Do (w, trace) c = ((w1, trace), None)"
    using Cons.prems by (simp add: write_candle_def w1_def append_candle_def Let_def)
  moreover have "cb_count (w_candlesBatch w1) = cb_count (w_candlesBatch w) + 1" "w_config w1 = w_config w"
    by (simp_all add: w1_def append_candle_def)
  ultimately show ?case
    using Cons.IH [of w1] Cons.prems by (auto simp: WriteCandles_def)
qed

text \<open>A bridge without Parquet whose ClickHouse batch has room for everything still to come.\<close>

definition roomy :: "(bytes \<Rightarrow> Candle option) \<Rightarrow> nats_msg list \<Rightarrow> ('d, 'f, 'b) CandleBridge \<Rightarrow> bool" where
  "roomy unmarshal msgs s \<longleftrightarrow> br_parquet s = None \<and> snd (br_writer s) = [] \<and>
     cb_count (w_candlesBatch (fst (br_writer s))) + int (length (decoded unmarshal msgs)) <
       chc_BatchSize (w_config (fst (br_writer s)))"

lemma Process_roomy:
  assumes "roomy unmarshal (msgs @ later) s" and "Candles_Process F client_Do env unmarshal msgs s = (s', e)"
  shows "roomy unmarshal later s' \<and> decoded unmarshal (acked s') = decoded unmarshal (acked s @ msgs)"
proof (cases "msgs = []")
  case True
  then show ?thesis using assms by (simp add: Candles_Process_def)
next
  case False
  obtain s1 mcs where dec: "decode_msgs unmarshal msgs s = (s1, mcs)" by fastforce
  note d = decode_msgs_spec [OF dec]
  obtain w where w: "br_writer s = (w, [])" using assms(1) by (cases "br_writer s") (simp add: roomy_def)
  have "length mcs = length (decoded unmarshal msgs)" using d by (metis length_map)
  then obtain w' where wr: "WriteCandles client_Do (w, []) (map (translateCandle F \<circ> snd) mcs) = ((w', []), None)"
      "w_config w' = w_config w" "cb_count (w_candlesBatch w') = cb_count (w_candlesBatch w) + int (length (decoded unmarshal msgs))"
    using WriteCandles_unsent [of w "map (translateCandle F \<circ> snd) mcs" client_Do "[]"] assms(1) w
    by (auto simp: roomy_def)
  show ?thesis
  proof (cases "mcs = []")
    case True
    then show ?thesis
      using assms False dec d by (auto simp: Candles_Process_def roomy_def)
  next
    case nonempty: False
    have "s' = settle True (map fst mcs) (s1\<lparr>br_writer := (w', []), br_parquet := None\<rparr>)"
      using assms False nonempty dec d w wr(1) by (auto simp: Candles_Process_def append_all_def roomy_def)
    then show ?thesis
      using assms(1) d w wr(2,3) by (auto simp: roomy_def)
  qed
qed

lemma candles_main_roomy:
  "roomy unmarshal (fetched turns) s \<Longrightarrow>
     snd (br_writer (candles_main F client_Do env unmarshal turns s)) = [] \<and>
     decoded unmarshal (acked (candles_main F client_Do env unmarshal turns s)) = decoded unmarshal (acked s @ fetched turns)"
proof (induction turns arbitrary: s rule: fetched.induct)
  case 1
  then show ?case by (simp add: roomy_def)
next
  case (2 ctx_done fetch turns)
  show ?case
  proof (cases ctx_done)
    case True
    then show ?thesis using "2.prems" by (simp add: close_parquet_def roomy_def)
  next
    case False
    define s1 where "s1 = (case fetch of SinkMsgs msgs \<Rightarrow> fst (Candles_Process F client_Do env unmarshal msgs s) | _ \<Rightarrow> s)"
    have "roomy unmarshal (fetched turns) s1 \<and>
        decoded unmarshal (acked s1) = decoded unmarshal (acked s @ (case fetch of SinkMsgs msgs \<Rightarrow> msgs | _ \<Rightarrow> []))"
    proof (cases fetch)
      case (SinkMsgs msgs)
      then show ?thesis
        using Process_roomy [of unmarshal msgs "fetched turns" s F client_Do env
            "fst (Candles_Process F client_Do env unmarshal msgs s)" "snd (Candles_Process F client_Do env unmarshal msgs s)"]
          "2.prems" False
        by (simp add: s1_def)
    qed (use "2.prems" False in \<open>simp_all add: s1_def\<close>)
    then show ?thesis
      using "2.IH" [OF False, of s1] False by (simp add: s1_def)
  qed
qed

section \<open>Properties\<close>

text \<open>(C14) The candle bridge settles every message it fetched exactly once, and what it acknowledged is held
  by both writers, whatever the messages, the fetches and the answers of ClickHouse and of the object
  store: the rows of the acknowledged candles occur, in order, among the rows the ClickHouse writer has
  inserted or keeps waiting, and among those of the Parquet writer when there is one.\<close>

theorem candles_acked_held:
  assumes "pq = None \<or> (\<exists>w session_ok. pq = Some w \<and> NewWriter env session_ok pcfg = Inr w)"
    and "pq_env_ok env decode"
    and "candles_main F client_Do env unmarshal turns (candles_start cfg pq) = (s :: ('d, 'f, 'b) CandleBridge)"
  shows "mset (settled_msgs s) = mset (fetched turns) \<and>
    subseq (map (candle_row \<circ> translateCandle F) (decoded unmarshal (acked s))) (candle_rows (br_writer s)) \<and>
    (case br_parquet s of None \<Rightarrow> True | Some w \<Rightarrow>
      \<exists>rows. (\<forall>k. pq_rows decode k w = filter (\<lambda>r. row_key r = k) rows) \<and>
        subseq (map candle_to_row (decoded unmarshal (acked s))) rows)"
proof -
  have "pq_held env decode pcfg [] pq"
    using assms(1)
  proof
    assume "\<exists>w session_ok. pq = Some w \<and> NewWriter env session_ok pcfg = Inr w"
    then obtain w session_ok where "pq = Some w" "NewWriter env session_ok pcfg = Inr w" by blast
    then show ?thesis
      using NewWriter_holds [OF assms(2)] by (simp add: pq_held_def) blast
  qed (simp add: pq_held_def)
  then have "bridge_ok F env decode pcfg unmarshal (undefined :: u64 \<Rightarrow> 'd) (candles_start cfg pq)"
    by (simp add: bridge_ok_def candles_start_def acked_def ch_held_def writer_inv_new)
  from candles_main_ok [OF this, of client_Do turns] show ?thesis
    unfolding assms(3)
    by (auto simp: bridge_ok_def ch_held_def pq_held_def pq_holds_def candles_start_def settled_msgs_def split: option.splits)
qed

definition sample_floats :: "int candle_floats" where
  "sample_floats = \<lparr>cf_of_i64 = sint, cf_of_u64 = uint, cf_lit = int, cf_add = (+), cf_div = (div), cf_ldexp = (\<lambda>x n. x * 2 ^ n)\<rparr>"

definition sample_candle_turns :: "(bool \<times> sink_fetch) list" where
  "sample_candle_turns = [(False, SinkMsgs [sample_msg ''x.candle.pair.1m'']), (True, SinkTimeout)]"

theorem candles_acked_held_witness:
  "let s = candles_main sample_floats (\<lambda>_ _. True) sample_pq_env (\<lambda>_. Some sample_candle) sample_candle_turns
         (candles_start sample_ch_config (Some sample_pq_writer)) :: (unit, int, candleRow list) CandleBridge
   in mset (settled_msgs s) = {#sample_msg ''x.candle.pair.1m''#} \<and>
      subseq (map (candle_row \<circ> translateCandle sample_floats) (decoded (\<lambda>_. Some sample_candle) (acked s))) (candle_rows (br_writer s))"
proof -
  define s :: "(unit, int, candleRow list) CandleBridge" where
    "s = candles_main sample_floats (\<lambda>_ _. True) sample_pq_env (\<lambda>_. Some sample_candle) sample_candle_turns
         (candles_start sample_ch_config (Some sample_pq_writer))"
  have pq: "Some sample_pq_writer = None \<or> (\<exists>w session_ok. Some sample_pq_writer = Some w \<and>
      NewWriter sample_pq_env session_ok sample_pq_config = Inr w)"
    using sample_pq_ok(2) by blast
  from candles_acked_held [OF pq sample_pq_ok(1) s_def [symmetric]] show ?thesis
    unfolding Let_def s_def [symmetric] by (simp add: sample_candle_turns_def)
qed

text \<open>(C38) The candle bridge acknowledges candles it never sends: the bridge only inserts when the batch of
  the ClickHouse writer is full and does not flush when it returns. When no Parquet writer is configured
  and a run fetches fewer candles than the batch size, every candle is acknowledged, and when the run
  ends nothing has been sent to ClickHouse.\<close>

theorem candles_acked_unsent:
  assumes "int (length (decoded unmarshal (fetched turns))) < chc_BatchSize cfg"
    and "candles_main F client_Do env unmarshal turns (candles_start cfg None) = (s :: ('d, 'f, 'b) CandleBridge)"
  shows "decoded unmarshal (acked s) = decoded unmarshal (fetched turns) \<and> snd (br_writer s) = []"
proof -
  have "roomy unmarshal (fetched turns) (candles_start cfg None :: ('d, 'f, 'b) CandleBridge)"
    using assms(1) by (simp add: roomy_def candles_start_def new_writer_def empty_candles_def)
  from candles_main_roomy [OF this, of F client_Do env] show ?thesis
    unfolding assms(2) by (simp add: candles_start_def acked_def)
qed

theorem candles_acked_unsent_witness:
  "let s = candles_main sample_floats (\<lambda>_ _. True) sample_pq_env (\<lambda>_. Some sample_candle) sample_candle_turns
         (candles_start sample_ch_config None) :: (unit, int, candleRow list) CandleBridge
   in decoded (\<lambda>_. Some sample_candle) (acked s) = [sample_candle] \<and> snd (br_writer s) = []"
proof -
  define s :: "(unit, int, candleRow list) CandleBridge" where
    "s = candles_main sample_floats (\<lambda>_ _. True) sample_pq_env (\<lambda>_. Some sample_candle) sample_candle_turns
         (candles_start sample_ch_config None)"
  have "int (length (decoded (\<lambda>_. Some sample_candle) (fetched sample_candle_turns))) < chc_BatchSize sample_ch_config"
    by (simp add: sample_candle_turns_def sample_ch_config_def)
  from candles_acked_unsent [OF this s_def [symmetric]] show ?thesis
    unfolding Let_def s_def [symmetric] by (simp add: sample_candle_turns_def)
qed

end
