(* ===== verification/SinkReplay.thy ===== *)
theory SinkReplay
  imports Publisher
begin

text \<open>
  The fixture replay tool: \<open>cmd/tools/sinkreplay/main.go\<close>. It publishes a list of events, read from a
  JSON file, to the subjects the sinks consume. The outcome of each asynchronous publication is an
  argument.
\<close>

section \<open>Events\<close>

record replay_event =
  ev_Type :: string
  ev_Slot :: u64
  ev_ChainID :: u64
  ev_Timestamp :: i64
  ev_Status :: string
  ev_Signature :: string
  ev_Index :: u32
  ev_ProgramID :: string
  ev_PoolID :: string
  ev_PairID :: string
  ev_MintBase :: string
  ev_MintQuote :: string
  ev_DecBase :: u32
  ev_DecQuote :: u32
  ev_BaseIn :: u64
  ev_BaseOut :: u64
  ev_QuoteIn :: u64
  ev_QuoteOut :: u64
  ev_ReservesBase :: u64
  ev_ReservesQuote :: u64
  ev_FeeBps :: u32
  ev_Provisional :: "bool option"
  ev_IsUndo :: bool
  ev_IsCorrection :: "bool option"
  ev_Success :: "bool option"
  ev_LogMsgs :: "string list"
  ev_Timeframe :: string
  ev_WindowStart :: u64
  ev_OpenPxQ32 :: i64
  ev_HighPxQ32 :: i64
  ev_LowPxQ32 :: i64
  ev_ClosePxQ32 :: i64
  ev_VolBase :: u64
  ev_VolQuote :: u64
  ev_Trades :: u32
  ev_SleepMillis :: int

definition bool_or :: "bool option \<Rightarrow> bool \<Rightarrow> bool" where
  "bool_or b d = (case b of None \<Rightarrow> d | Some x \<Rightarrow> x)"

definition replay_chain :: "replay_event \<Rightarrow> u64" where
  "replay_chain ev = (if ev_ChainID ev = 0 then 501 else ev_ChainID ev)"

definition replay_programSegment :: "string \<Rightarrow> string" where
  "replay_programSegment programID =
     (if programID = [] then ''unknown''
      else if programID = ''CAMMCzo5YL8w4VFF8KVHrK22GGUsp5VTaW7grrKgrWqK'' then ''raydium''
      else if programID = ''whirLbMiicVdio4qvUfM5KAg6Ct8VwpYzGff3uctyCc'' then ''orca''
      else if programID = ''cpamdpZCGKUy5JxQXB4dcpGPiikHawvSWAd6mEn1sGG'' then ''meteora''
      else if length programID > 12 then take 12 programID else programID)"

definition replay_head :: "replay_event \<Rightarrow> BlockHead" where
  "replay_head ev = \<lparr>bh_ChainId = replay_chain ev, bh_Slot = ev_Slot ev, bh_TsSec = ev_Timestamp ev, bh_Status = ev_Status ev\<rparr>"

definition replay_tx :: "replay_event \<Rightarrow> TxMeta" where
  "replay_tx ev = \<lparr>tm_ChainId = replay_chain ev, tm_Slot = ev_Slot ev, tm_Sig = ev_Signature ev,
     tm_Success = bool_or (ev_Success ev) True, tm_CuUsed = 0, tm_CuPrice = 0, tm_LogMsgs = ev_LogMsgs ev\<rparr>"

definition replay_swap :: "replay_event \<Rightarrow> SwapEvent" where
  "replay_swap ev = zero_SwapEvent\<lparr>se_ChainId := replay_chain ev, se_Slot := ev_Slot ev, se_Sig := ev_Signature ev,
     se_Index := ev_Index ev, se_ProgramId := ev_ProgramID ev, se_PoolId := ev_PoolID ev,
     se_MintBase := ev_MintBase ev, se_MintQuote := ev_MintQuote ev, se_DecBase := ev_DecBase ev,
     se_DecQuote := ev_DecQuote ev, se_BaseIn := ev_BaseIn ev, se_BaseOut := ev_BaseOut ev,
     se_QuoteIn := ev_QuoteIn ev, se_QuoteOut := ev_QuoteOut ev, se_ReservesBase := ev_ReservesBase ev,
     se_ReservesQuote := ev_ReservesQuote ev, se_FeeBps := ev_FeeBps ev,
     se_Provisional := bool_or (ev_Provisional ev) True, se_IsUndo := ev_IsUndo ev\<rparr>"

definition replay_timeframe :: "replay_event \<Rightarrow> string" where
  "replay_timeframe ev = (if ev_Timeframe ev = [] then ''unknown'' else ev_Timeframe ev)"

definition u128_of :: "u64 \<Rightarrow> U128 option" where
  "u128_of lo = (if lo = 0 then None else Some \<lparr>u128_Hi = 0, u128_Lo = lo\<rparr>)"

definition replay_candle :: "replay_event \<Rightarrow> Candle" where
  "replay_candle ev = \<lparr>cd_ChainId = replay_chain ev, cd_PairId = ev_PairID ev, cd_PoolId = ev_PoolID ev,
     cd_Timeframe = replay_timeframe ev, cd_WindowStart = ev_WindowStart ev,
     cd_Provisional = bool_or (ev_Provisional ev) False, cd_IsCorrection = bool_or (ev_IsCorrection ev) False,
     cd_OpenPxQ32 = ev_OpenPxQ32 ev, cd_HighPxQ32 = ev_HighPxQ32 ev, cd_LowPxQ32 = ev_LowPxQ32 ev,
     cd_ClosePxQ32 = ev_ClosePxQ32 ev, cd_VwapNum = None, cd_VwapDen = None,
     cd_VolBase = u128_of (ev_VolBase ev), cd_VolQuote = u128_of (ev_VolQuote ev), cd_Trades = ev_Trades ev\<rparr>"

text \<open>The message, subject and identifier of an event; \<open>None\<close> is an unsupported type.\<close>

definition replay_parts :: "string \<Rightarrow> replay_event \<Rightarrow> (dex_message \<times> string \<times> string) option" where
  "replay_parts root ev =
     (let chain = show_nat (unat (replay_chain ev)); slot = show_nat (unat (ev_Slot ev)) in
      if ev_Type ev = ''block_head'' then
        Some (MsgBlockHead (replay_head ev), root @ ''.blocks.head'', chain @ '':'' @ slot @ '':head:'' @ ev_Status ev)
      else if ev_Type ev = ''tx_meta'' then
        Some (MsgTxMeta (replay_tx ev), root @ ''.tx.meta'', chain @ '':'' @ slot @ '':'' @ ev_Signature ev @ '':meta'')
      else if ev_Type ev = ''swap'' then
        Some (MsgSwap (replay_swap ev), root @ ''.'' @ replay_programSegment (ev_ProgramID ev) @ ''.swap'',
          chain @ '':'' @ slot @ '':'' @ ev_Signature ev @ '':'' @ show_nat (unat (ev_Index ev)) @ '':'' @
          show_bool (bool_or (ev_Provisional ev) True) @ '':'' @ show_bool (ev_IsUndo ev))
      else if ev_Type ev = ''candle'' then
        let scope = (if ev_PoolID ev \<noteq> [] then ''pool'' else ''pair'');
            primary = (if ev_PoolID ev \<noteq> [] then ev_PoolID ev else ev_PairID ev);
            tf = ToLower (replay_timeframe ev)
        in Some (MsgCandle (replay_candle ev), root @ ''.candle.'' @ scope @ ''.'' @ tf,
             chain @ '':'' @ scope @ '':'' @ primary @ '':'' @ tf @ '':'' @ show_nat (unat (ev_WindowStart ev)))
      else None)"

section \<open>Publishing\<close>

datatype async_outcome = AsyncErr | AsyncComplete | AsyncCtxDone | AsyncTimeout

datatype replay_error =
    UnsupportedType string | ReplayMarshal | AsyncRefused | ReplayCancelled string | ReplayTimeout string
  | ContextBefore nat

text \<open>A message is queued unless the call itself fails; waiting for the acknowledgements may then end
  in an error.\<close>

definition publishProto :: "async_outcome \<Rightarrow> string \<Rightarrow> bytes \<Rightarrow> string \<Rightarrow> nats_msg list \<Rightarrow> nats_msg list \<times> replay_error option" where
  "publishProto outc subject data msgID w =
     (let w' = w @ [build_msg subject data msgID] in
      case outc of
        AsyncErr \<Rightarrow> (w, Some AsyncRefused)
      | AsyncComplete \<Rightarrow> (w', None)
      | AsyncCtxDone \<Rightarrow> (w', Some (ReplayCancelled subject))
      | AsyncTimeout \<Rightarrow> (w', Some (ReplayTimeout subject)))"

definition publishEvent ::
  "(dex_message \<Rightarrow> bytes option) \<Rightarrow> string \<Rightarrow> async_outcome \<Rightarrow> replay_event \<Rightarrow> nats_msg list \<Rightarrow> nats_msg list \<times> replay_error option" where
  "publishEvent marshal root outc ev w =
     (case replay_parts root ev of
        None \<Rightarrow> (w, Some (UnsupportedType (ev_Type ev)))
      | Some (message, subject, msgID) \<Rightarrow>
          (case marshal message of
             None \<Rightarrow> (w, Some ReplayMarshal)
           | Some data \<Rightarrow> publishProto outc subject data msgID w))"

text \<open>The loop of \<open>main\<close>: what the context and the server do for each event is the script; the second
  result lists the sleeps in milliseconds.\<close>

definition replay_delay :: "int \<Rightarrow> replay_event \<Rightarrow> int" where
  "replay_delay publishDelay ev = (if ev_SleepMillis ev = 0 then publishDelay else ev_SleepMillis ev)"

fun replay_loop ::
  "(dex_message \<Rightarrow> bytes option) \<Rightarrow> string \<Rightarrow> int \<Rightarrow> nat \<Rightarrow> (replay_event \<times> bool \<times> async_outcome) list \<Rightarrow>
   nats_msg list \<times> int list \<Rightarrow> (nats_msg list \<times> int list) \<times> replay_error option" where
  "replay_loop marshal root publishDelay idx [] s = (s, None)"
| "replay_loop marshal root publishDelay idx ((ev, ctx_done, outc) # rest) (w, sleeps) =
     (if ctx_done then ((w, sleeps), Some (ContextBefore idx))
      else case publishEvent marshal root outc ev w of
        (w', Some err) \<Rightarrow> ((w', sleeps), Some err)
      | (w', None) \<Rightarrow>
          replay_loop marshal root publishDelay (idx + 1) rest
            (w', if replay_delay publishDelay ev > 0 then sleeps @ [replay_delay publishDelay ev] else sleeps))"

section \<open>Lemmas\<close>

lemma show_bool_no_colon: "CHR '':'' \<notin> set (show_bool b)"
  by (simp add: show_bool_def)

lemma show_bool_inject [simp]: "show_bool a = show_bool b \<longleftrightarrow> a = b"
  by (simp add: show_bool_def)

text \<open>An identifier made of two numbers, a free text and three fields without the separator.\<close>

lemma replay_id_inject:
  assumes "c @ '':'' @ s @ '':'' @ sig @ '':'' @ i @ '':'' @ p @ '':'' @ u =
      c' @ '':'' @ s' @ '':'' @ sig' @ '':'' @ i' @ '':'' @ p' @ '':'' @ u'"
    and left: "CHR '':'' \<notin> set c" "CHR '':'' \<notin> set c'" "CHR '':'' \<notin> set s" "CHR '':'' \<notin> set s'"
    and right: "CHR '':'' \<notin> set i" "CHR '':'' \<notin> set i'" "CHR '':'' \<notin> set p" "CHR '':'' \<notin> set p'"
      "CHR '':'' \<notin> set u" "CHR '':'' \<notin> set u'"
  shows "c = c' \<and> s = s' \<and> sig = sig' \<and> i = i' \<and> p = p' \<and> u = u'"
proof -
  have 1: "c = c' \<and> s @ CHR '':'' # sig @ '':'' @ i @ '':'' @ p @ '':'' @ u = s' @ CHR '':'' # sig' @ '':'' @ i' @ '':'' @ p' @ '':'' @ u'"
    by (rule sep_inject [OF _ left(1,2)]) (use assms(1) in simp)
  then have 2: "s = s' \<and> sig @ '':'' @ i @ '':'' @ p @ '':'' @ u = sig' @ '':'' @ i' @ '':'' @ p' @ '':'' @ u'"
    by (intro sep_inject [OF _ left(3,4)]) simp
  then have 3: "(sig @ '':'' @ i @ '':'' @ p) = (sig' @ '':'' @ i' @ '':'' @ p') \<and> u = u'"
    by (intro sep_inject_rev [OF _ right(5,6)]) simp
  then have 4: "(sig @ '':'' @ i) = (sig' @ '':'' @ i') \<and> p = p'"
    by (intro sep_inject_rev [OF _ right(3,4)]) simp
  then have "sig = sig' \<and> i = i'"
    by (intro sep_inject_rev [OF _ right(1,2)]) simp
  with 1 2 3 4 show ?thesis by simp
qed

definition replay_swap_id :: "SwapEvent \<Rightarrow> string" where
  "replay_swap_id a = show_nat (unat (se_ChainId a)) @ '':'' @ show_nat (unat (se_Slot a)) @ '':'' @ se_Sig a @ '':'' @
     show_nat (unat (se_Index a)) @ '':'' @ show_bool (se_Provisional a) @ '':'' @ show_bool (se_IsUndo a)"

lemma replay_swap_id_iff:
  "replay_swap_id a = replay_swap_id b \<longleftrightarrow>
     se_ChainId a = se_ChainId b \<and> se_Slot a = se_Slot b \<and> se_Sig a = se_Sig b \<and> se_Index a = se_Index b \<and>
     se_Provisional a = se_Provisional b \<and> se_IsUndo a = se_IsUndo b"
proof
  assume "replay_swap_id a = replay_swap_id b"
  from replay_id_inject [OF this [unfolded replay_swap_id_def]]
  show "se_ChainId a = se_ChainId b \<and> se_Slot a = se_Slot b \<and> se_Sig a = se_Sig b \<and> se_Index a = se_Index b \<and>
     se_Provisional a = se_Provisional b \<and> se_IsUndo a = se_IsUndo b"
    by (simp add: no_colon show_bool_no_colon)
qed (simp add: replay_swap_id_def)

lemma replay_parts_swap:
  assumes "replay_parts root ev = Some (MsgSwap a, subject, msgID)"
  shows "subject = root @ ''.'' @ replay_programSegment (se_ProgramId a) @ ''.swap''" and "msgID = replay_swap_id a"
  using assms by (auto simp: replay_parts_def Let_def replay_swap_def replay_swap_id_def split: if_splits)

text \<open>What a publication of the ingestor's publisher does with a message.\<close>

definition publish_message ::
  "(dex_message \<Rightarrow> bytes option) \<Rightarrow> js_server \<Rightarrow> NatsConfig \<Rightarrow> go_context option \<Rightarrow> dex_message \<Rightarrow> world \<Rightarrow>
   world \<times> publish_error option" where
  "publish_message marshal js cfg ctx m w =
     (case m of
        MsgBlockHead h \<Rightarrow> PublishBlockHead marshal js cfg ctx (Some h) w
      | MsgTxMeta t \<Rightarrow> PublishTxMeta marshal js cfg ctx (Some t) w
      | MsgSwap e \<Rightarrow> PublishSwap marshal js cfg ctx (Some e) w
      | MsgPoolSnapshot p \<Rightarrow> PublishPoolSnapshot marshal js cfg ctx (Some p) w
      | MsgCandle c \<Rightarrow> PublishCandle marshal js cfg ctx (Some c) w)"

text \<open>Program ids as Solana has them: longer than a segment of the tool, without separators. (Swaps
  without a program id are allowed too.)\<close>

definition solana_program :: "string \<Rightarrow> bool" where
  "solana_program programID \<longleftrightarrow>
     programID = [] \<or> 12 < length programID \<and> list_all (\<lambda>r. r \<notin> {CHR ''.'', CHR '' '', CHR ''*'', CHR ''>''}) programID"

text \<open>On such ids the tool and the publisher agree only for Raydium, Orca and a missing id: the tool
  shortens other ids to 12 characters, the publisher to 16 in lower case, and their tables name
  different Meteora programs.\<close>

lemma segment_iff:
  assumes "solana_program programID"
  shows "programSegment programID = replay_programSegment programID \<longleftrightarrow>
    programID \<in> {[], ''CAMMCzo5YL8w4VFF8KVHrK22GGUsp5VTaW7grrKgrWqK'', ''whirLbMiicVdio4qvUfM5KAg6Ct8VwpYzGff3uctyCc''}"
    (is "_ \<longleftrightarrow> programID \<in> ?known")
proof (cases "programID \<in> ?known \<union> {''cpamdpZCGKUy5JxQXB4dcpGPiikHawvSWAd6mEn1sGG'', ''METoRa111111111111111111111111111111111111111''}")
  case True
  have "programSegment ''cpamdpZCGKUy5JxQXB4dcpGPiikHawvSWAd6mEn1sGG'' \<noteq> replay_programSegment ''cpamdpZCGKUy5JxQXB4dcpGPiikHawvSWAd6mEn1sGG''"
    "programSegment ''METoRa111111111111111111111111111111111111111'' \<noteq> replay_programSegment ''METoRa111111111111111111111111111111111111111''"
    by code_simp+
  with True show ?thesis
    by (auto simp: programSegment_def replay_programSegment_def programSubjectAliases_def map_get_def)
next
  case False
  then have long: "12 < length programID" and clean: "filter (\<lambda>r. r \<notin> {CHR ''.'', CHR '' '', CHR ''*'', CHR ''>''}) programID = programID"
    using assms by (auto simp: solana_program_def list_all_iff intro!: filter_True)
  have "map_get programSubjectAliases programID = None"
    using False by (auto simp: programSubjectAliases_def map_get_def)
  then have "programSegment programID = ToLower (if length programID > 16 then take 16 programID else programID)"
    using False unfolding programSegment_def clean by (simp add: Let_def)
  then have "length (programSegment programID) > 12" using long by (simp add: ToLower_def)
  moreover have "length (replay_programSegment programID) = 12"
    using False long by (simp add: replay_programSegment_def)
  ultimately show ?thesis using False by auto
qed

text \<open>The messages for which the two name the same subject.\<close>

definition same_subject :: "dex_message \<Rightarrow> bool" where
  "same_subject m =
     (case m of
        MsgSwap e \<Rightarrow> se_ProgramId e \<in> {[], ''CAMMCzo5YL8w4VFF8KVHrK22GGUsp5VTaW7grrKgrWqK'', ''whirLbMiicVdio4qvUfM5KAg6Ct8VwpYzGff3uctyCc''}
      | MsgCandle c \<Rightarrow> ToLower (cd_Timeframe c) = cd_Timeframe c
      | _ \<Rightarrow> True)"

text \<open>A message queued for an event.\<close>

definition message_of :: "(dex_message \<Rightarrow> bytes option) \<Rightarrow> string \<Rightarrow> replay_event \<Rightarrow> nats_msg \<Rightarrow> bool" where
  "message_of marshal root ev msg \<longleftrightarrow>
     (\<exists>m subject msgID data. replay_parts root ev = Some (m, subject, msgID) \<and> marshal m = Some data \<and>
        msg = build_msg subject data msgID)"

lemma publishEvent_queues:
  assumes "publishEvent marshal root outc ev w = (w', r)"
  obtains "w' = w" and "r \<noteq> None" | msg where "w' = w @ [msg]" and "message_of marshal root ev msg"
  using assms
  by (auto simp: publishEvent_def publishProto_def message_of_def Let_def split: option.splits async_outcome.splits)

lemma replay_prefix:
  assumes "replay_loop marshal root publishDelay idx script (w, sleeps) = ((w', sleeps'), r)"
  shows "\<exists>n msgs. n \<le> length script \<and> (r = None \<longrightarrow> n = length script) \<and> w' = w @ msgs \<and>
    list_all2 (message_of marshal root) (map fst (take n script)) msgs"
  using assms
proof (induction script arbitrary: idx w sleeps)
  case (Cons x script)
  obtain ev ctx_done outc where x: "x = (ev, ctx_done, outc)" by (metis prod.exhaust)
  obtain w1 r1 where pub: "publishEvent marshal root outc ev w = (w1, r1)" by fastforce
  consider "w' = w" "r \<noteq> None"
    | msg where "w' = w @ [msg]" "message_of marshal root ev msg" "r \<noteq> None"
    | msg sl where "w1 = w @ [msg]" "message_of marshal root ev msg"
        "replay_loop marshal root publishDelay (idx + 1) script (w1, sl) = ((w', sleeps'), r)"
    using Cons.prems publishEvent_queues [OF pub] by (auto simp: x pub split: if_splits option.splits)
  then show ?case
  proof cases
    case 1
    then show ?thesis by (intro exI [of _ 0]) simp
  next
    case (2 msg)
    then show ?thesis by (intro exI [of _ 1] exI [of _ "[msg]"]) (auto simp: x)
  next
    case (3 msg sl)
    then obtain n msgs where "n \<le> length script" "r = None \<longrightarrow> n = length script" "w' = w1 @ msgs"
      "list_all2 (message_of marshal root) (map fst (take n script)) msgs"
      using Cons.IH by blast
    with 3 show ?thesis by (intro exI [of _ "Suc n"] exI [of _ "msg # msgs"]) (simp add: x)
  qed
qed simp

section \<open>Properties\<close>

text \<open>The replay tool gives two swaps the same message identifier exactly when chain, slot,
  signature, index, provisional flag and undo flag coincide, whatever the signature contains; so the
  provisional, the final and the undo copy of a swap have different identifiers and a stream with
  duplicate detection keeps them all. (The publisher of the ingestor gives them one identifier.)\<close>

theorem replay_swap_ids:
  assumes "replay_parts root ev = Some (MsgSwap a, subject, msgID)"
    and "replay_parts root ev' = Some (MsgSwap b, subject', msgID')"
  shows "(msgID = msgID') = (se_ChainId a = se_ChainId b \<and> swap_msgID a = swap_msgID b \<and>
      se_Provisional a = se_Provisional b \<and> se_IsUndo a = se_IsUndo b)"
  unfolding replay_parts_swap(2) [OF assms(1)] replay_parts_swap(2) [OF assms(2)] replay_swap_id_iff swap_msgID_iff
  by auto

definition sample_replay :: "string \<Rightarrow> replay_event" where
  "sample_replay type = \<lparr>ev_Type = type, ev_Slot = 7, ev_ChainID = 0, ev_Timestamp = 0, ev_Status = [], ev_Signature = ''a:b'',
     ev_Index = 1, ev_ProgramID = [], ev_PoolID = [], ev_PairID = ''x'', ev_MintBase = [], ev_MintQuote = [], ev_DecBase = 0,
     ev_DecQuote = 0, ev_BaseIn = 1, ev_BaseOut = 0, ev_QuoteIn = 0, ev_QuoteOut = 2, ev_ReservesBase = 0, ev_ReservesQuote = 0,
     ev_FeeBps = 0, ev_Provisional = None, ev_IsUndo = False, ev_IsCorrection = None, ev_Success = None, ev_LogMsgs = [],
     ev_Timeframe = ''1m'', ev_WindowStart = 60, ev_OpenPxQ32 = 0, ev_HighPxQ32 = 0, ev_LowPxQ32 = 0, ev_ClosePxQ32 = 0,
     ev_VolBase = 0, ev_VolQuote = 0, ev_Trades = 1, ev_SleepMillis = 0\<rparr>"

theorem replay_swap_ids_witness:
  "\<exists>a b s s' i i'. replay_parts ''r'' (sample_replay ''swap'') = Some (MsgSwap a, s, i) \<and>
     replay_parts ''r'' ((sample_replay ''swap'')\<lparr>ev_Provisional := Some False\<rparr>) = Some (MsgSwap b, s', i') \<and>
     swap_msgID a = swap_msgID b \<and> i \<noteq> i'"
proof -
  obtain a s i where a: "replay_parts ''r'' (sample_replay ''swap'') = Some (MsgSwap a, s, i)" "a = replay_swap (sample_replay ''swap'')"
    by (simp add: replay_parts_def sample_replay_def Let_def)
  let ?ev = "(sample_replay ''swap'')\<lparr>ev_Provisional := Some False\<rparr>"
  obtain b s' i' where b: "replay_parts ''r'' ?ev = Some (MsgSwap b, s', i')" "b = replay_swap ?ev"
    by (simp add: replay_parts_def sample_replay_def Let_def)
  have "se_Provisional a \<noteq> se_Provisional b" "swap_msgID a = swap_msgID b"
    by (simp_all add: a(2) b(2) replay_swap_def bool_or_def sample_replay_def swap_msgID_def)
  with replay_swap_ids [OF a(1) b(1)] a(1) b(1) show ?thesis by blast
qed

text \<open>(C25) How the messages of the replay tool compare with those of the ingestor. When the tool ends without
  an error it has queued one message for every event, in order, and when it ends early one for each
  event of a prefix. The message of an event has the data and the content type that the ingestor's
  publisher gives the same protobuf message. The subjects agree for block heads and transactions; for
  candles exactly when the timeframe is in lower case; for swaps of a Solana program exactly when it
  is Raydium, Orca or missing, so swaps of every other program, Meteora among them, are replayed under
  another subject than the one they are ingested under.\<close>

theorem replay_matches_publisher:
  assumes "replay_loop marshal root publishDelay 0 script ([], []) = ((w, sleeps), r)" and "nc_SubjectRoot cfg = root"
    and "list_all (\<lambda>(ev, _). solana_program (ev_ProgramID ev)) script"
  shows "\<exists>n \<le> length script. (r = None \<longrightarrow> n = length script) \<and>
    list_all2 (\<lambda>ev msg. \<exists>m subject msgID pub err. replay_parts root ev = Some (m, subject, msgID) \<and>
        publish_message marshal js cfg ctx m [] = ([pub], err) \<and>
        nm_Data msg = nm_Data (at_Msg pub) \<and>
        map_get (nm_Header msg) ''Content-Type'' = map_get (nm_Header (at_Msg pub)) ''Content-Type'' \<and>
        (nm_Subject msg = nm_Subject (at_Msg pub)) = same_subject m)
      (map fst (take n script)) w"
proof -
  have like: "\<exists>m subject msgID pub err. replay_parts root ev = Some (m, subject, msgID) \<and>
        publish_message marshal js cfg ctx m [] = ([pub], err) \<and>
        nm_Data msg = nm_Data (at_Msg pub) \<and>
        map_get (nm_Header msg) ''Content-Type'' = map_get (nm_Header (at_Msg pub)) ''Content-Type'' \<and>
        (nm_Subject msg = nm_Subject (at_Msg pub)) = same_subject m"
    if "message_of marshal root ev msg" and "solana_program (ev_ProgramID ev)" for ev msg
  proof -
    obtain m subject msgID data where parts: "replay_parts root ev = Some (m, subject, msgID)" "marshal m = Some data"
      "msg = build_msg subject data msgID"
      using \<open>message_of marshal root ev msg\<close> by (auto simp: message_of_def)
    have "\<exists>pub err. publish_message marshal js cfg ctx m [] = ([pub], err) \<and> nm_Data (at_Msg pub) = data \<and>
        map_get (nm_Header (at_Msg pub)) ''Content-Type'' = Some ''application/protobuf'' \<and>
        (subject = nm_Subject (at_Msg pub)) = same_subject m"
      using parts(1,2) assms(2) segment_iff [OF that(2)]
      by (auto simp: replay_parts_def publish_message_def PublishBlockHead_def PublishTxMeta_def PublishSwap_def
          PublishCandle_def publish_def build_msg_def same_subject_def swap_subject_def candle_subject_def replay_swap_def
          replay_candle_def Let_def split: if_splits)
    then show ?thesis using parts by (force simp: build_msg_def)
  qed
  obtain n msgs where n: "n \<le> length script" "r = None \<longrightarrow> n = length script" "w = msgs"
    "list_all2 (message_of marshal root) (map fst (take n script)) msgs"
    using replay_prefix [OF assms(1)] by auto
  have "\<forall>ev \<in> set (map fst (take n script)). solana_program (ev_ProgramID ev)"
    using assms(3) by (auto simp: list_all_iff dest!: in_set_takeD)
  then have "list_all2 (\<lambda>ev msg. message_of marshal root ev msg \<and> solana_program (ev_ProgramID ev)) (map fst (take n script)) w"
    using n(4) unfolding n(3) list_all2_conv_all_nth by (metis nth_mem)
  then show ?thesis
    using n(1,2) like by (intro exI [of _ n]) (auto elim!: list_all2_mono)
qed

text \<open>The property at a swap and a candle without a program id, when the second publication times out.\<close>

theorem replay_matches_publisher_witness:
  "let script = [(sample_replay ''swap'', False, AsyncComplete), (sample_replay ''candle'', False, AsyncTimeout)];
       marshal = (\<lambda>m. Some []); root = nc_SubjectRoot Nats_DefaultConfig
   in \<exists>w sleeps r. replay_loop marshal root 5 0 script ([], []) = ((w, sleeps), r) \<and> length w = 2 \<and> sleeps = [5] \<and> r \<noteq> None \<and>
     (\<exists>n \<le> 2. list_all2 (\<lambda>ev msg. \<exists>m subject msgID pub err. replay_parts root ev = Some (m, subject, msgID) \<and>
        publish_message marshal (\<lambda>_ _ _ _. JsAck None) Nats_DefaultConfig None m [] = ([pub], err) \<and>
        nm_Data msg = nm_Data (at_Msg pub) \<and>
        map_get (nm_Header msg) ''Content-Type'' = map_get (nm_Header (at_Msg pub)) ''Content-Type'' \<and>
        (nm_Subject msg = nm_Subject (at_Msg pub)) = same_subject m) (map fst (take n script)) w)"
proof -
  define script where "script = [(sample_replay ''swap'', False, AsyncComplete), (sample_replay ''candle'', False, AsyncTimeout)]"
  obtain w sleeps r where run: "replay_loop (\<lambda>m. Some []) (nc_SubjectRoot Nats_DefaultConfig) 5 0 script ([], []) = ((w, sleeps), r)"
    by (metis prod.exhaust)
  have "length w = 2" "sleeps = [5]" "r \<noteq> None"
    using run by (auto simp: script_def publishEvent_def replay_parts_def sample_replay_def publishProto_def replay_delay_def Let_def)
  moreover have "length script = 2" by (simp add: script_def)
  moreover have "list_all (\<lambda>(ev, _). solana_program (ev_ProgramID ev)) script"
    by (simp add: script_def solana_program_def sample_replay_def)
  ultimately show ?thesis
    using replay_matches_publisher [OF run refl, of "\<lambda>_ _ _ _. JsAck None" None] run
    unfolding Let_def script_def [symmetric] by auto
qed

end
