(* ===== verification/Mains.thy ===== *)
theory Mains
  imports Lifecycle Candles SinkReplay
begin

text \<open>
  The programs: the \<open>main\<close> functions of \<open>cmd/ingestor/geyser\<close>, \<open>cmd/bridge\<close>, \<open>cmd/sink/clickhouse\<close>,
  \<open>cmd/sink/parquet\<close>, \<open>cmd/candles\<close> and \<open>cmd/tools\<close> up to the point where the service runs, as the
  composition of the configurations and constructors of the other theories. \<open>logger.Fatalf\<close> ends the
  process at once: deferred calls do not run, and the result is the error. The environment of the
  process is the map \<open>env\<close>; signals only cancel the context of the run.
\<close>

section \<open>cmd/ingestor/geyser/main.go\<close>

datatype ingest_main_error =
    MainGeyserConfig geyser_config_error | MainNatsConfig nats_config_error
  | MainGeyserClient "geyser_config_error list" | MainHeliusConfig helius_config_error
  | MainHeliusClient helius_config_error | MainService boot_error

datatype ingest_main = RunSingle ingest_service | RunFailover failover_service

definition lift_main :: "('e \<Rightarrow> 'f) \<Rightarrow> ('a \<Rightarrow> 'b) \<Rightarrow> ('e, 'a) boot \<Rightarrow> ('f, 'b) boot" where
  "lift_main f g m = (case m of (t, Inl e) \<Rightarrow> (t, Inl (f e)) | (t, Inr a) \<Rightarrow> (t, Inr (g a)))"

definition ingestor_main ::
  "(string \<Rightarrow> string option) \<Rightarrow> (string \<Rightarrow> (string, string) gomap option) \<Rightarrow>
   ((string, string) gomap \<Rightarrow> (string, string) gomap) \<Rightarrow> 'r ingest_env \<Rightarrow> environ \<Rightarrow>
   (ingest_main_error, ingest_main) boot" where
  "ingestor_main readFile unmarshal ord ienv env =
     (case Geyser_LoadConfig readFile unmarshal env (env ''PROGRAMS_YAML_PATH'') of
        Inl err \<Rightarrow> ([], Inl (MainGeyserConfig err))
      | Inr geyserCfg \<Rightarrow>
      case Nats_FromEnv env of Inl err \<Rightarrow> ([], Inl (MainNatsConfig err)) | Inr natsCfg \<Rightarrow>
      let metricsAddr = env ''INGESTOR_METRICS_ADDR'' in
      if env ''ENABLE_HELIUS_FALLBACK'' = ''1'' then
        (case Geyser_NewClient ord geyserCfg of Inl errs \<Rightarrow> ([], Inl (MainGeyserClient errs)) | Inr primaryClient \<Rightarrow>
         case Helius_FromEnv env of Inl err \<Rightarrow> ([], Inl (MainHeliusConfig err)) | Inr heliusCfg0 \<Rightarrow>
         let heliusCfg = heliusCfg0\<lparr>hc_ProgramFilters := gc_ProgramFilters geyserCfg\<rparr> in
         case NewStreamClient (Some heliusCfg) of Inl err \<Rightarrow> ([], Inl (MainHeliusClient err)) | Inr fallbackClient \<Rightarrow>
         lift_main MainService RunFailover
           (NewFailoverService ienv (Some primaryClient) (Some fallbackClient) natsCfg metricsAddr))
      else lift_main MainService RunSingle (Geyser_NewService ord ienv (Some geyserCfg) natsCfg metricsAddr))"

section \<open>cmd/bridge/main.go\<close>

datatype bridge_main_error = BridgeConfigErr bridge_config_error | BridgeMetricsPanic | BridgeInitErr bridge_config_error

text \<open>A new registry gets the collectors of the process and of the Go runtime, then the bridge's.\<close>

definition bridge_main ::
  "(string \<Rightarrow> string option) \<Rightarrow> (string \<Rightarrow> SubjectMapping list option) \<Rightarrow> (SubjectMapping list \<Rightarrow> SubjectMapping list) \<Rightarrow>
   'r prometheus \<Rightarrow> fq_name \<Rightarrow> string list \<Rightarrow> string list \<Rightarrow> environ \<Rightarrow> bridge_main_error + BridgeService \<times> 'r" where
  "bridge_main readFile unmarshal sort_slice prom fq process_names go_names env =
     (case Bridge_FromEnv readFile unmarshal env of Inl err \<Rightarrow> Inl (BridgeConfigErr err) | Inr cfg \<Rightarrow>
      case register_all prom (process_names @ go_names) (pm_new prom) of None \<Rightarrow> Inl BridgeMetricsPanic | Some registry \<Rightarrow>
      let opts = (if br_MetricsAddr cfg \<noteq> [] then [Some (WithMetricsServer (br_MetricsAddr cfg))] else []) in
      case Bridge_Validate cfg of Some err \<Rightarrow> Inl (BridgeInitErr err) | None \<Rightarrow>
      case register_all prom (bridge_names fq) registry of None \<Rightarrow> Inl BridgeMetricsPanic | Some registry' \<Rightarrow>
      case Bridge_New sort_slice cfg opts of Inl err \<Rightarrow> Inl (BridgeInitErr err) | Inr svc \<Rightarrow> Inr (svc, registry'))"

section \<open>cmd/sink/clickhouse/main.go and cmd/sink/parquet/main.go\<close>

datatype sink_main_error = ChConfigFatal ch_config_error | PqConfigFatal pq_config_error | SinkInitFatal boot_error | SinkRunFatal

text \<open>The run is fatal when it ends with another error than the cancelled context; \<open>None\<close>
  while it goes on.\<close>

definition sink_exit :: "(('e, 'g) loop_error \<times> 'g option) option \<Rightarrow> sink_main_error option option" where
  "sink_exit r = (case r of None \<Rightarrow> None | Some (LoopCtx, _) \<Rightarrow> Some None | Some _ \<Rightarrow> Some (Some SinkRunFatal))"

definition ch_sink_main ::
  "environ \<Rightarrow> nats_env \<Rightarrow> (string \<Rightarrow> url_parts option) \<Rightarrow> (ch_options \<Rightarrow> int \<Rightarrow> 'c option) \<Rightarrow> (int \<Rightarrow> bool) \<Rightarrow>
   (u64 \<Rightarrow> 'd) \<Rightarrow> ('d, 'f) ch_client \<Rightarrow> codec \<Rightarrow> sink_turns \<Rightarrow>
   sink_main_error + ('d, 'f) writer_world ch_processor loop_state \<times> sink_main_error option option" where
  "ch_sink_main env nenv url_Parse dial cancelled dec client_Do c turns =
     (case ServiceConfigFromEnv env of Inl err \<Rightarrow> Inl (ChConfigFatal err) | Inr cfg \<Rightarrow>
      case snd (Ch_NewService nenv url_Parse dial cancelled cfg) of Inl err \<Rightarrow> Inl (SinkInitFatal err)
      | Inr p \<Rightarrow>
          (case sink_Run (ch_writer dec client_Do) c \<lparr>cp_writer = (cp_writer p, []), cp_slotTimes = cp_slotTimes p\<rparr> turns of
             (s, r) \<Rightarrow> Inr (s, sink_exit r)))"

definition pq_sink_main ::
  "environ \<Rightarrow> nats_env \<Rightarrow> 'b pq_env \<Rightarrow> bool \<Rightarrow> (bytes \<Rightarrow> Candle option) \<Rightarrow> sink_turns \<Rightarrow>
   sink_main_error + 'b PqWriter loop_state \<times> sink_main_error option option" where
  "pq_sink_main env nenv penv session_ok unmarshal turns =
     (case PqServiceConfigFromEnv env of Inl err \<Rightarrow> Inl (PqConfigFatal err) | Inr cfg \<Rightarrow>
      case snd (Pq_NewService nenv penv session_ok cfg) of Inl err \<Rightarrow> Inl (SinkInitFatal err)
      | Inr w \<Rightarrow> (case pq_Run penv unmarshal w turns of (s, r) \<Rightarrow> Inr (s, sink_exit r)))"

section \<open>cmd/candles/main.go\<close>

text \<open>The flags; a flag that is not given has the value of its environment variable, or a default.\<close>

record candle_flags =
  cf_natsURL :: string
  cf_stream :: string
  cf_subject :: string
  cf_durable :: string
  cf_batchSize :: int
  cf_pullWaitMs :: int
  cf_clickhouseDSN :: string
  cf_clickhouseDatabase :: string
  cf_clickhouseCandles :: string
  cf_parquetEndpoint :: string
  cf_parquetBucket :: string
  cf_parquetAccessKey :: string
  cf_parquetSecretKey :: string
  cf_parquetPrefix :: string
  cf_parquetFlushSec :: int
  cf_parquetBatch :: int
  cf_parquetRegion :: string

definition default_flags :: "environ \<Rightarrow> candle_flags" where
  "default_flags env =
     \<lparr>cf_natsURL = envOr env ''NATS_URL'' ''nats://127.0.0.1:4222'', cf_stream = envOr env ''NATS_STREAM'' ''DEX'',
      cf_subject = envOr env ''NATS_CANDLE_SUBJECT'' ''dex.sol.candle.>'', cf_durable = envOr env ''NATS_DURABLE'' ''candle_bridge'',
      cf_batchSize = envOrInt env ''BATCH'' 64, cf_pullWaitMs = envOrInt env ''PULL_WAIT_MS'' 500,
      cf_clickhouseDSN = envOr env ''CLICKHOUSE_DSN'' ''tcp://127.0.0.1:9000'',
      cf_clickhouseDatabase = envOr env ''CLICKHOUSE_DB'' ''default'',
      cf_clickhouseCandles = envOr env ''CLICKHOUSE_CANDLES_TABLE'' ''candles'',
      cf_parquetEndpoint = envOr env ''PARQUET_ENDPOINT'' [], cf_parquetBucket = envOr env ''PARQUET_BUCKET'' [],
      cf_parquetAccessKey = envOr env ''PARQUET_ACCESS_KEY'' [], cf_parquetSecretKey = envOr env ''PARQUET_SECRET_KEY'' [],
      cf_parquetPrefix = envOr env ''PARQUET_PREFIX'' ''candles/'',
      cf_parquetFlushSec = envOrInt env ''PARQUET_FLUSH_INTERVAL_S'' 900,
      cf_parquetBatch = envOrInt env ''PARQUET_BATCH_ROWS'' 5000, cf_parquetRegion = envOr env ''PARQUET_REGION'' ''us-east-1''\<rparr>"

text \<open>Fields the literals leave out are zero.\<close>

definition candle_ch_config :: "environ \<Rightarrow> candle_flags \<Rightarrow> ChConfig" where
  "candle_ch_config env f =
     \<lparr>chc_DSN = cf_clickhouseDSN f, chc_Database = cf_clickhouseDatabase f,
      chc_TradesTable = envOr env ''CLICKHOUSE_TRADES_TABLE'' ''trades'', chc_CandlesTable = cf_clickhouseCandles f,
      chc_BatchSize = envOrInt env ''CLICKHOUSE_CANDLES_BATCH'' 512, chc_FlushInterval = 0, chc_MaxRetries = 0,
      chc_RetryBackoffBase = 0, chc_RetryBackoffMax = 0\<rparr>"

definition candle_pq_config :: "candle_flags \<Rightarrow> PqConfig" where
  "candle_pq_config f =
     \<lparr>pqc_Endpoint = cf_parquetEndpoint f, pqc_Bucket = cf_parquetBucket f, pqc_AccessKey = cf_parquetAccessKey f,
      pqc_SecretKey = cf_parquetSecretKey f, pqc_Prefix = cf_parquetPrefix f,
      pqc_FlushInterval = word_of_int (cf_parquetFlushSec f) * time_Second, pqc_BatchRows = cf_parquetBatch f,
      pqc_Region = cf_parquetRegion f\<rparr>"

definition candles_boot ::
  "nats_env \<Rightarrow> (string \<Rightarrow> url_parts option) \<Rightarrow> (ch_options \<Rightarrow> int \<Rightarrow> 'c option) \<Rightarrow> (int \<Rightarrow> bool) \<Rightarrow> 'b pq_env \<Rightarrow> bool \<Rightarrow>
   environ \<Rightarrow> candle_flags \<Rightarrow> boot_error + ('d, 'f, 'b) CandleBridge" where
  "candles_boot nenv url_Parse dial cancelled penv session_ok env f =
     (if \<not> ne_connect nenv (cf_natsURL f) then Inl NatsConnectErr
      else if \<not> ne_jetstream nenv then Inl JetStreamErr
      else if \<not> ne_pull nenv (cf_subject f) (cf_durable f) (cf_stream f) then Inl PullErr
      else case NewWithConfig url_Parse dial cancelled (candle_ch_config env f) of
        Inl err \<Rightarrow> Inl (ChWriterErr err)
      | Inr (client, writer) \<Rightarrow>
          if cf_parquetEndpoint f \<noteq> [] \<and> cf_parquetBucket f \<noteq> [] then
            (case NewWriter penv session_ok (candle_pq_config f) of
               Inl err \<Rightarrow> Inl (PqWriterErr err)
             | Inr pq \<Rightarrow> Inr \<lparr>br_writer = (writer, []), br_parquet = Some pq, br_settled = []\<rparr>)
          else Inr \<lparr>br_writer = (writer, []), br_parquet = None, br_settled = []\<rparr>)"

section \<open>cmd/tools\<close>

datatype inspect_error = PatternRequired | GlobFailed | NoFiles string | OpenFailed | ReadFailed

text \<open>\<open>glob\<close> and the contents of the files are parameters; a file that cannot be opened is \<open>None\<close>.\<close>

definition inspect_path ::
  "(string \<Rightarrow> (candleRow list \<times> read_status) list option) \<Rightarrow> pq_summary \<Rightarrow> string \<Rightarrow> pq_summary \<times> inspect_error option" where
  "inspect_path read summ path =
     (case read path of None \<Rightarrow> (summ, Some OpenFailed)
      | Some reads \<Rightarrow> (case inspectFile reads summ of (summ', ok) \<Rightarrow> (summ', if ok then None else Some ReadFailed)))"

definition empty_summary :: pq_summary where
  "empty_summary = \<lparr>sum_TotalRows = 0, sum_EmptyTimeframe = 0, sum_EmptyScope = 0, sum_InvalidScope = 0,
     sum_MissingWindowStart = 0, sum_NegativeTrades = 0, sum_timeframes = [], sum_scopes = []\<rparr>"

definition inspect_main ::
  "(string \<Rightarrow> string list option) \<Rightarrow> (string \<Rightarrow> (candleRow list \<times> read_status) list option) \<Rightarrow> string \<Rightarrow>
   inspect_error + pq_summary" where
  "inspect_main glob read pattern =
     (if pattern = [] then Inl PatternRequired
      else case glob pattern of None \<Rightarrow> Inl GlobFailed | Some files \<Rightarrow>
        if files = [] then Inl (NoFiles pattern)
        else case first_err (inspect_path read) empty_summary files of
          (summ, Some err) \<Rightarrow> Inl err
        | (summ, None) \<Rightarrow> Inr (summ\<lparr>sum_timeframes := toSortedSlice (sum_timeframes summ), sum_scopes := toSortedSlice (sum_scopes summ)\<rparr>))"

datatype replay_main_error = ReadInputFailed | DecodeFixtureFailed | ReplayConnectFailed | ReplayJetStreamFailed | ReplayFailed replay_error

text \<open>The fixture is read and decoded, then its events are published; per event whether the context has
  ended and what the publication does.\<close>

definition replay_main ::
  "string option \<Rightarrow> (string \<Rightarrow> replay_event list option) \<Rightarrow> nats_env \<Rightarrow> string \<Rightarrow> (dex_message \<Rightarrow> bytes option) \<Rightarrow> string \<Rightarrow> int \<Rightarrow>
   (nat \<Rightarrow> bool \<times> async_outcome) \<Rightarrow> (nats_msg list \<times> int list) \<times> replay_main_error option" where
  "replay_main input unmarshal nenv natsURL marshal subjectRoot publishDelay answers =
     (case input of None \<Rightarrow> (([], []), Some ReadInputFailed) | Some data \<Rightarrow>
      case unmarshal data of None \<Rightarrow> (([], []), Some DecodeFixtureFailed) | Some events \<Rightarrow>
      if \<not> ne_connect nenv natsURL then (([], []), Some ReplayConnectFailed)
      else if \<not> ne_jetstream nenv then (([], []), Some ReplayJetStreamFailed)
      else case replay_loop marshal subjectRoot publishDelay 0 (map (\<lambda>(i, ev). (ev, answers i)) (enumerate 0 events)) ([], []) of
        (s, err) \<Rightarrow> (s, map_option ReplayFailed err))"

section \<open>Lemmas\<close>

lemma Geyser_NewClient_built:
  assumes "Geyser_NewClient ord cfg = Inr c"
  shows "sc_name c = ''geyser'' \<and> sc_build c = Geyser_buildSubscribeRequest cfg \<and> gc_ProgramFilters cfg \<noteq> []"
  using assms by (auto simp: Geyser_NewClient_def Geyser_Validate_def split: if_splits)

lemma NewStreamClient_built:
  "NewStreamClient (Some cfg) = Inr c \<Longrightarrow> sc_name c = ''helius'' \<and> sc_build c = Helius_buildSubscribeRequest cfg"
  by (auto simp: NewStreamClient_def Let_def split: option.splits if_splits)

text \<open>The account filter of a program is its id as the owner of the accounts.\<close>

lemma account_filters_get:
  assumes "map_ok programs"
  shows "map_get (account_filters programs) name =
    map_option (\<lambda>programID. \<lparr>af_Account = [], af_Owner = [programID]\<rparr>) (map_get programs name)"
proof -
  have "map_get (fold (\<lambda>(name, programID). map_set name \<lparr>af_Account = [], af_Owner = [programID]\<rparr>) ps m) name =
      (case map_get ps name of Some i \<Rightarrow> Some \<lparr>af_Account = [], af_Owner = [i]\<rparr> | None \<Rightarrow> map_get m name)" if "map_ok ps" for ps m
    using that by (induction ps arbitrary: m) (auto simp: map_ok_def map_get_def [of "_ # _"] map_get_def [of "[]"]
        simp flip: map_get_def split: option.splits, metis map_get_Some_mem fst_conv image_eqI)
  from this [OF assms, of "[]"] show ?thesis by (simp add: account_filters_def split: option.split)
qed

lemma Helius_Validate_filters: "Helius_Validate (Some (c\<lparr>hc_ProgramFilters := f\<rparr>)) = Helius_Validate (Some c)"
  by (simp add: Helius_Validate_def)

lemma Helius_FromEnv_valid: "Helius_FromEnv env = Inr c \<Longrightarrow> Helius_Validate (Some c) = None"
  by (auto simp: Helius_FromEnv_def Let_def split: sum.splits option.splits)

lemma NewFailoverService_clients:
  assumes "NewFailoverService ienv (Some p) (Some f) natsCfg addr = (t, Inr fs)"
  shows "fo_clients (fs_failover fs) = [p, f] \<and> fo_current (fs_failover fs) = 0"
  using assms by (auto simp: NewFailoverService_def boot_bind_def NewFailover_def split: prod.splits sum.splits option.splits)

text \<open>The retry loop with no retries.\<close>

lemma connect_once: "connect_loop dial cancelled 0 maxb 0 b [] = (case dial 0 of None \<Rightarrow> Inl (RetriesExhausted 0) | Some c \<Rightarrow> Inr c, [])"
  by (simp add: connect_loop.simps [of dial cancelled 0 maxb 0] connect_loop.simps [of dial cancelled 0 maxb 1] split: option.splits)

lemma candle_writer:
  "NewWithConfig url_Parse dial cancelled (candle_ch_config env f) =
     (case validateConfig (candle_ch_config env f) of Some err \<Rightarrow> Inl (InvalidChConfig err) | None \<Rightarrow>
      case parseDSN url_Parse (cf_clickhouseDSN f) of Inl err \<Rightarrow> Inl (ConnectFailed err) | Inr opts \<Rightarrow>
      case dial (opts\<lparr>co_Database := cf_clickhouseDatabase f\<rparr>) 0 of
        None \<Rightarrow> Inl (ConnectFailed (RetriesExhausted 0))
      | Some client \<Rightarrow> Inr (client, new_writer (candle_ch_config env f)))"
proof -
  have "chc_MaxRetries (candle_ch_config env f) = 0" "chc_DSN (candle_ch_config env f) = cf_clickhouseDSN f"
    "chc_Database (candle_ch_config env f) = cf_clickhouseDatabase f" by (simp_all add: candle_ch_config_def)
  then show ?thesis
    by (auto simp: NewWithConfig_def connectWithRetry_def connect_once split: option.splits sum.splits)
qed

lemma fold_processRow:
  "sum_TotalRows (fold processRow rows s) = sum_TotalRows s + length rows"
  "set (sum_timeframes (fold processRow rows s)) = set (sum_timeframes s) \<union> (cr_Timeframe ` set rows - {[]})"
  "distinct (sum_timeframes s) \<Longrightarrow> distinct (sum_timeframes (fold processRow rows s))"
  by (induction rows arbitrary: s) (auto simp: processRow_def set_add_def Let_def)

text \<open>The rows a file delivers before its reader reports the end or an error.\<close>

fun delivered :: "(candleRow list \<times> read_status) list \<Rightarrow> candleRow list" where
  "delivered [] = []"
| "delivered ((rows, status) # reads) = rows @ (if status = ReadMore then delivered reads else [])"

lemma inspectFile_delivered: "fst (inspectFile reads s) = fold processRow (delivered reads) s"
  by (induction reads s rule: inspectFile.induct) (auto simp: Let_def split: read_status.splits)

definition file_rows :: "(string \<Rightarrow> (candleRow list \<times> read_status) list option) \<Rightarrow> string \<Rightarrow> candleRow list" where
  "file_rows read path = (case read path of None \<Rightarrow> [] | Some reads \<Rightarrow> delivered reads)"

lemma inspect_paths:
  "first_err (inspect_path read) s files = (s', None) \<Longrightarrow> s' = fold processRow (concat (map (file_rows read) files)) s"
proof (induction files arbitrary: s)
  case (Cons f files)
  obtain s1 where "inspect_path read s f = (s1, None)" "first_err (inspect_path read) s1 files = (s', None)"
    using Cons.prems by (auto split: prod.splits option.splits)
  moreover from this(1) have "s1 = fold processRow (file_rows read f) s"
    using inspectFile_delivered by (auto simp: inspect_path_def file_rows_def split: option.splits prod.splits if_splits) (metis fst_conv)+
  ultimately show ?case using Cons.IH by simp
qed simp

section \<open>Properties\<close>

text \<open>
  (C19) The ingestor with the fallback enabled. Once both configurations have been read without error and
  the Geyser client was built, building the Helius client cannot fail. When the failover service
  starts it runs the Geyser client first and the Helius client second, for the programs of the filter
  file: both ask, from every slot, for exactly the accounts owned by these programs, each under its
  name in the file, and the Helius client also for the transactions that mention one of them; the
  Geyser client asks for no transactions.
\<close>

theorem ingestor_clients_agree:
  assumes "\<And>data m. unmarshal data = Some m \<Longrightarrow> map_ok m"
    and "ingestor_main readFile unmarshal ord ienv env = (t, r)"
  shows "r \<noteq> Inl (MainHeliusClient e) \<and>
    (r = Inr (RunFailover fs) \<longrightarrow> (\<exists>programs p f.
       loadProgramFilters readFile unmarshal (env ''PROGRAMS_YAML_PATH'') = Inr programs \<and>
       fo_clients (fs_failover fs) = [p, f] \<and> fo_current (fs_failover fs) = 0 \<and>
       sc_name p = ''geyser'' \<and> sc_name f = ''helius'' \<and>
       (\<forall>slot. \<forall>c \<in> {p, f}. \<forall>name. map_get (rq_Accounts (sc_build c slot)) name =
          map_option (\<lambda>programID. \<lparr>af_Account = [], af_Owner = [programID]\<rparr>) (map_get programs name)) \<and>
       (\<forall>slot. rq_Transactions (sc_build p slot) = [] \<and>
          rq_Transactions (sc_build f slot) = [(''programs'', map snd programs)])))"
proof -
  have valid: "\<exists>f. NewStreamClient (Some (hcfg\<lparr>hc_ProgramFilters := gc_ProgramFilters gcfg\<rparr>)) = Inr f"
    if "Geyser_NewClient ord gcfg = Inr p" and "Helius_FromEnv env = Inr hcfg" for gcfg p hcfg
    using Geyser_NewClient_built [OF that(1)] Helius_FromEnv_valid [OF that(2)]
    by (simp add: NewStreamClient_def Helius_Validate_filters)
  have filters: "loadProgramFilters readFile unmarshal path = Inr (gc_ProgramFilters gcfg) \<and> map_ok (gc_ProgramFilters gcfg)"
    if "Geyser_LoadConfig readFile unmarshal env path = Inr gcfg" and "Geyser_NewClient ord gcfg = Inr p" for gcfg p path
    using that(1) Geyser_NewClient_built [OF that(2)] assms(1)
    by (auto simp: Geyser_LoadConfig_def loadProgramFilters_def Let_def split: if_splits sum.splits option.splits)
  have "r \<noteq> Inl (MainHeliusClient e)"
    using assms(2) valid
    by (fastforce simp: ingestor_main_def lift_main_def Let_def split: sum.splits if_splits prod.splits)
  moreover have "\<exists>gcfg hcfg p f natsCfg addr. Geyser_LoadConfig readFile unmarshal env (env ''PROGRAMS_YAML_PATH'') = Inr gcfg \<and>
      Geyser_NewClient ord gcfg = Inr p \<and> NewStreamClient (Some (hcfg\<lparr>hc_ProgramFilters := gc_ProgramFilters gcfg\<rparr>)) = Inr f \<and>
      NewFailoverService ienv (Some p) (Some f) natsCfg addr = (t, Inr fs)" if "r = Inr (RunFailover fs)"
    using assms(2) that by (auto simp: ingestor_main_def lift_main_def Let_def split: sum.splits if_splits prod.splits)
  ultimately show ?thesis
    using filters Geyser_NewClient_built NewStreamClient_built NewFailoverService_clients
    by (fastforce simp: Geyser_buildSubscribeRequest_def Helius_buildSubscribeRequest_def account_filters_get)
qed

definition sample_ingest_environ :: environ where
  "sample_ingest_environ n =
     (if n = ''ENABLE_HELIUS_FALLBACK'' then ''1'' else if n = ''NATS_URL'' then ''u'' else if n = ''NATS_STREAM'' then ''DEX''
      else if n \<in> {''GEYSER_ENDPOINT'', ''GEYSER_API_KEY'', ''HELIUS_GRPC'', ''HELIUS_WS'', ''HELIUS_API_KEY'', ''PROGRAMS_YAML_PATH''}
      then ''x'' else [])"

text \<open>The property at an environment that configures both clients.\<close>

theorem ingestor_clients_agree_witness:
  "\<exists>t fs p f. ingestor_main (\<lambda>_. Some []) (\<lambda>_. Some [(''p'', replicate 32 (CHR ''a''))]) id sample_ingest_env sample_ingest_environ
       = (t, Inr (RunFailover fs)) \<and> fo_clients (fs_failover fs) = [p, f] \<and> rq_Transactions (sc_build p 7) = [] \<and>
     rq_Transactions (sc_build f 7) = [(''programs'', [replicate 32 (CHR ''a'')])]"
proof -
  let ?cfg = "\<lparr>gc_Endpoint = ''x'', gc_APIKey = ''x'', gc_ProgramFilters = [(''p'', replicate 32 (CHR ''a''))]\<rparr>"
  obtain p where p: "Geyser_NewClient id ?cfg = Inr p"
    by (simp add: Geyser_NewClient_def Geyser_Validate_def program_errors_def)
  obtain h where h: "Helius_FromEnv sample_ingest_environ = Inr h"
    by (simp add: Helius_FromEnv_def sample_ingest_environ_def helius_env_int_def Helius_Validate_def Helius_DefaultConfig_def
        time_Second_def word_sle_eq)
  then obtain f where f: "NewStreamClient (Some (h\<lparr>hc_ProgramFilters := [(''p'', replicate 32 (CHR ''a''))]\<rparr>)) = Inr f"
    using Helius_FromEnv_valid by (simp add: NewStreamClient_def Helius_Validate_filters)
  have nats: "Nats_FromEnv sample_ingest_environ = Inr sample_nats_config"
    by (simp add: Nats_FromEnv_def sample_ingest_environ_def sample_nats_config_def Nats_DefaultConfig_def Nats_Validate_def
        time_Second_def word_sle_eq)
  have load: "Geyser_LoadConfig (\<lambda>_. Some []) (\<lambda>_. Some [(''p'', replicate 32 (CHR ''a''))]) sample_ingest_environ
      (sample_ingest_environ ''PROGRAMS_YAML_PATH'') = Inr ?cfg"
    by (simp add: Geyser_LoadConfig_def loadProgramFilters_def sample_ingest_environ_def)
  have on: "sample_ingest_environ ''ENABLE_HELIUS_FALLBACK'' = ''1''" by (simp add: sample_ingest_environ_def)
  obtain t fs where "NewFailoverService sample_ingest_env (Some p) (Some f) sample_nats_config
      (sample_ingest_environ ''INGESTOR_METRICS_ADDR'') = (t, Inr fs)"
    using sample_failover_built by blast
  then have run: "ingestor_main (\<lambda>_. Some []) (\<lambda>_. Some [(''p'', replicate 32 (CHR ''a''))]) id sample_ingest_env sample_ingest_environ
      = (t, Inr (RunFailover fs))"
    by (simp only: ingestor_main_def load nats p h f on Let_def lift_main_def sum.case prod.case if_True simp_thms GeyserConfig.simps)
  have "map_ok m" if "(\<lambda>_. Some [(''p'', replicate 32 (CHR ''a''))]) data = Some m" for data :: string and m
    using that by (auto simp: map_ok_def)
  from ingestor_clients_agree [OF this run, where fs = fs] run show ?thesis
    by (auto simp: loadProgramFilters_def)
qed

text \<open>
  The candle bridge starts exactly when NATS, JetStream and the subscription answer, its ClickHouse
  configuration is valid, the first attempt to reach ClickHouse succeeds (it configures no retries,
  unlike the sink) and, when an endpoint and a bucket are given, the Parquet writer can be built.
\<close>

theorem candles_boot_iff:
  "(\<exists>b. candles_boot nenv url_Parse dial cancelled penv session_ok env f = Inr b) \<longleftrightarrow>
     ne_connect nenv (cf_natsURL f) \<and> ne_jetstream nenv \<and> ne_pull nenv (cf_subject f) (cf_durable f) (cf_stream f) \<and>
     validateConfig (candle_ch_config env f) = None \<and>
     (\<exists>opts. parseDSN url_Parse (cf_clickhouseDSN f) = Inr opts \<and> dial (opts\<lparr>co_Database := cf_clickhouseDatabase f\<rparr>) 0 \<noteq> None) \<and>
     (cf_parquetEndpoint f = [] \<or> cf_parquetBucket f = [] \<or>
      (\<exists>pq. NewWriter penv session_ok (candle_pq_config f) = Inr pq))"
  by (auto simp: candles_boot_def candle_writer split: sum.splits option.splits)

text \<open>
  The summary of the inspection tool over several files: it counts every row of every file, in
  particular the rows read before the end of a file is reported, and lists each timeframe that occurs
  once, in ascending order.
\<close>

theorem inspect_main_summary:
  assumes "inspect_main glob read pattern = Inr summ"
  shows "\<exists>files. glob pattern = Some files \<and> files \<noteq> [] \<and>
    sum_TotalRows summ = length (concat (map (file_rows read) files)) \<and>
    sorted (sum_timeframes summ) \<and> distinct (sum_timeframes summ) \<and>
    set (sum_timeframes summ) = cr_Timeframe ` set (concat (map (file_rows read) files)) - {[]}"
proof -
  obtain files s where "glob pattern = Some files" "files \<noteq> []"
    and run: "first_err (inspect_path read) empty_summary files = (s, None)"
    and s: "summ = s\<lparr>sum_timeframes := toSortedSlice (sum_timeframes s), sum_scopes := toSortedSlice (sum_scopes s)\<rparr>"
    using assms by (auto simp: inspect_main_def split: if_splits option.splits prod.splits)
  then show ?thesis
    using fold_processRow [where s = empty_summary and rows = "concat (map (file_rows read) files)"] inspect_paths [OF run]
    by (auto simp: toSortedSlice_def empty_summary_def)
qed

text \<open>The property at two files, the second of which is read in two parts.\<close>

theorem inspect_main_summary_witness:
  "let row = \<lambda>tf. \<lparr>cr_ChainID = 1, cr_PairID = [], cr_PoolID = [], cr_Scope = ''pair'', cr_Timeframe = tf, cr_WindowStart = 60,
        cr_Provisional = False, cr_IsCorrection = False, cr_OpenPxQ32 = 0, cr_HighPxQ32 = 0, cr_LowPxQ32 = 0, cr_ClosePxQ32 = 0,
        cr_VolBaseHi = 0, cr_VolBaseLo = 0, cr_VolQuoteHi = 0, cr_VolQuoteLo = 0, cr_Trades = 1\<rparr>;
       read = \<lambda>path. if path = ''a'' then Some [([row ''5m''], ReadEOF)] else Some [([row ''1m''], ReadMore), ([row ''5m''], ReadEOF)]
   in \<exists>summ. inspect_main (\<lambda>_. Some [''a'', ''b'']) read ''*'' = Inr summ \<and> sum_TotalRows summ = 3"
proof -
  let ?row = "\<lambda>tf. \<lparr>cr_ChainID = 1, cr_PairID = [], cr_PoolID = [], cr_Scope = ''pair'', cr_Timeframe = tf, cr_WindowStart = 60,
        cr_Provisional = False, cr_IsCorrection = False, cr_OpenPxQ32 = 0, cr_HighPxQ32 = 0, cr_LowPxQ32 = 0, cr_ClosePxQ32 = 0,
        cr_VolBaseHi = 0, cr_VolBaseLo = 0, cr_VolQuoteHi = 0, cr_VolQuoteLo = 0, cr_Trades = 1\<rparr>"
  let ?read = "\<lambda>path. if path = ''a'' then Some [([?row ''5m''], ReadEOF)] else Some [([?row ''1m''], ReadMore), ([?row ''5m''], ReadEOF)]"
  obtain summ where run: "inspect_main (\<lambda>_. Some [''a'', ''b'']) ?read ''*'' = Inr summ"
    by (simp add: inspect_main_def inspect_path_def)
  from inspect_main_summary [OF run] run show ?thesis by (simp add: file_rows_def)
qed

end
