(* ===== verification/DocGen.thy ===== *)
theory DocGen
  imports GoStd "HOL-Library.Product_Lexorder"
begin

text \<open>
  The generator of the annotated source reference, \<open>scripts/docs/generate_go_code_reference.go\<close>: which files
  get a page, the declaration blocks of a file and the text of a page. The file system, the Go parser
  and the printer of syntax nodes are parameters. A position in a file is its line. Paths are relative
  to the root of the repository: every path the program handles lies below it, so \<open>filepath.Join\<close>,
  \<open>filepath.Rel\<close> and the order of the absolute paths are those of the relative ones.
\<close>

section \<open>Syntax trees\<close>

record 'n go_func =
  gf_recv :: "'n list option"
  gf_name :: string
  gf_doc :: "nat option"
  gf_pos :: nat
  gf_end :: nat

datatype go_spec = TypeSpec "string option" | ValueSpec "string list" | ImportSpec

record go_gen =
  gg_tok :: string
  gg_specs :: "go_spec list"
  gg_doc :: "nat option"
  gg_pos :: nat
  gg_end :: nat

datatype 'n go_decl = FuncDecl "'n go_func" | GenDecl go_gen | BadDecl

record 'n go_file =
  gl_name :: string
  gl_package :: nat
  gl_nameEnd :: nat
  gl_decls :: "'n go_decl list"

section \<open>Declaration blocks\<close>

record declBlock =
  db_Title :: string
  db_Start :: nat
  db_End :: nat
  db_Names :: "string list"

definition startLineWithDoc :: "nat option \<Rightarrow> nat \<Rightarrow> nat" where
  "startLineWithDoc doc fallback = (case doc of None \<Rightarrow> fallback | Some line \<Rightarrow> line)"

definition add_name :: "string \<Rightarrow> string list \<Rightarrow> string list" where
  "add_name name names = (if name \<in> set names then names else names @ [name])"

definition spec_names :: "go_spec \<Rightarrow> string list \<Rightarrow> string list" where
  "spec_names spec names =
     (case spec of
        TypeSpec (Some name) \<Rightarrow> add_name name names
      | TypeSpec None \<Rightarrow> names
      | ValueSpec ns \<Rightarrow> fold add_name ns names
      | ImportSpec \<Rightarrow> names)"

definition genDeclNames :: "go_gen \<Rightarrow> string list" where
  "genDeclNames decl = sort (fold spec_names (gg_specs decl) [])"

definition formatFuncDeclTitle :: "('n \<Rightarrow> string) \<Rightarrow> 'n go_func \<Rightarrow> string" where
  "formatFuncDeclTitle formatNode decl =
     (let recv = (case gf_recv decl of Some (recvType # _) \<Rightarrow> ''('' @ formatNode recvType @ '') '' | _ \<Rightarrow> [])
      in ''func '' @ recv @ gf_name decl)"

fun strings_Join :: "string list \<Rightarrow> string" where
  "strings_Join [] = []"
| "strings_Join [x] = x"
| "strings_Join (x # y # zs) = x @ '', '' @ strings_Join (y # zs)"

definition decl_block :: "('n \<Rightarrow> string) \<Rightarrow> 'n go_decl \<Rightarrow> declBlock list" where
  "decl_block formatNode decl =
     (case decl of
        FuncDecl d \<Rightarrow>
          [\<lparr>db_Title = formatFuncDeclTitle formatNode d, db_Start = startLineWithDoc (gf_doc d) (gf_pos d),
            db_End = gf_end d, db_Names = [gf_name d]\<rparr>]
      | GenDecl d \<Rightarrow>
          (let names = genDeclNames d;
               title0 = ToLower (gg_tok d);
               title1 = (if title0 = ''import'' then ''imports'' else title0);
               title2 = (if names \<noteq> [] then title1 @ '' ('' @ strings_Join names @ '')'' else title1)
           in [\<lparr>db_Title = TrimSpace title2, db_Start = startLineWithDoc (gg_doc d) (gg_pos d),
                db_End = gg_end d, db_Names = names\<rparr>])
      | BadDecl \<Rightarrow> [])"

definition package_block :: "'n go_file \<Rightarrow> declBlock" where
  "package_block file = \<lparr>db_Title = ''package '' @ gl_name file, db_Start = gl_package file, db_End = gl_nameEnd file, db_Names = []\<rparr>"

definition block_key :: "declBlock \<Rightarrow> nat \<times> nat" where
  "block_key b = (db_Start b, db_End b)"

text \<open>\<open>sort.SliceStable\<close> by start line, then end line.\<close>

definition buildDeclBlocks :: "('n \<Rightarrow> string) \<Rightarrow> 'n go_file \<Rightarrow> declBlock list" where
  "buildDeclBlocks formatNode file =
     sort_key block_key (package_block file # concat (map (decl_block formatNode) (gl_decls file)))"

section \<open>Pages\<close>

definition nl :: string where "nl = [CHR 0x0A]"

text \<open>The verb \<open>%q\<close> on the bytes of a string: printable characters stand for themselves.\<close>

definition hex_digit :: "nat \<Rightarrow> char" where
  "hex_digit n = ''0123456789abcdef'' ! n"

definition quote_char :: "char \<Rightarrow> string" where
  "quote_char c =
     (let n = of_char c :: nat; bs = CHR 0x5C in
      if c = CHR 0x22 \<or> c = bs then [bs, c]
      else if n = 7 then [bs, CHR ''a''] else if n = 8 then [bs, CHR ''b''] else if n = 12 then [bs, CHR ''f'']
      else if n = 10 then [bs, CHR ''n''] else if n = 13 then [bs, CHR ''r''] else if n = 9 then [bs, CHR ''t'']
      else if n = 11 then [bs, CHR ''v'']
      else if n < 32 \<or> n = 127 then [bs, CHR ''x'', hex_digit (n div 16), hex_digit (n mod 16)]
      else [c])"

definition go_quote :: "string \<Rightarrow> string" where
  "go_quote s = [CHR 0x22] @ concat (map quote_char s) @ [CHR 0x22]"

definition render_block :: "string \<Rightarrow> declBlock \<Rightarrow> string" where
  "render_block rel b =
     ''### '' @ db_Title b @ nl @ nl @
     (if db_Names b \<noteq> [] then ''**Symbols:** '' @ strings_Join (db_Names b) @ nl @ nl else []) @
     ''```go '' @ ''title='' @ go_quote (db_Title b) @ '' '' @
     ''file=<rootDir>/'' @ rel @ ''#L'' @ show_nat (db_Start b) @ ''-L'' @ show_nat (db_End b) @ '' '' @
     ''showLineNumbers'' @ nl @ ''```'' @ nl @ nl @
     ''**What:** _TODO_'' @ nl @ nl @ ''**How:** _TODO_'' @ nl @ nl @ ''**Why:** _TODO_'' @ nl @ nl"

definition page_header :: "string \<Rightarrow> string" where
  "page_header rel =
     ''---'' @ nl @ ''title: '' @ go_quote rel @ nl @ ''---'' @ nl @ nl @
     ''This page is an **annotated source reference**. Code blocks are imported from the repository at build time.'' @ nl @ nl @
     ''## What this file is'' @ nl @ nl @
     ''_TODO: one-paragraph summary of responsibility and boundaries._'' @ nl @ nl @
     ''## Why this file exists'' @ nl @ nl @
     ''_TODO: architectural motivation and why this logic lives here (vs elsewhere)._ '' @ nl @ nl @
     ''## Full source'' @ nl @ nl @
     ''```go '' @ ''title='' @ go_quote rel @ '' '' @ ''file=<rootDir>/'' @ rel @ '' '' @ ''showLineNumbers'' @ nl @ ''```'' @ nl @ nl @
     ''## Walkthrough (by declaration)'' @ nl @ nl"

datatype docgen_error = StatFailed string | WalkFailed string | RenderFailed string | WriteFailed string

text \<open>What \<open>Stat\<close> and \<open>WalkDir\<close> answer for a directory; an entry is a path with the flag of a directory.\<close>

datatype dir_walk = DirMissing | DirStatErr | DirWalkErr | DirEntries "(string \<times> bool) list"

record 'n docgen_env =
  dg_walk :: "string \<Rightarrow> dir_walk"
  dg_read :: "string \<Rightarrow> string option"
  dg_parse :: "string \<Rightarrow> 'n go_file option"
  dg_format :: "'n \<Rightarrow> string"
  dg_write :: "string \<Rightarrow> bool"

definition renderGoFileDoc :: "'n docgen_env \<Rightarrow> string \<Rightarrow> string option" where
  "renderGoFileDoc env rel =
     (case dg_read env rel of None \<Rightarrow> None | Some src \<Rightarrow>
      case dg_parse env src of None \<Rightarrow> None | Some file \<Rightarrow>
      Some (page_header rel @ concat (map (render_block rel) (buildDeclBlocks (dg_format env) file))))"

section \<open>The program\<close>

record docgen_opts =
  do_includeTests :: bool
  do_overwrite :: bool
  do_args :: "string list"

definition path_Ext :: "string \<Rightarrow> string" where
  "path_Ext path =
     (let stop = (\<lambda>c. c \<noteq> CHR ''.'' \<and> c \<noteq> CHR ''/''); rest = dropWhile stop (rev path) in
      if rest \<noteq> [] \<and> hd rest = CHR ''.'' then CHR ''.'' # rev (takeWhile stop (rev path)) else [])"

definition wanted :: "docgen_opts \<Rightarrow> string \<times> bool \<Rightarrow> bool" where
  "wanted opts = (\<lambda>(path, isDir). \<not> isDir \<and> path_Ext path = ''.go'' \<and>
     (do_includeTests opts \<or> \<not> HasSuffix path ''_test.go''))"

definition doc_dirs :: "docgen_opts \<Rightarrow> string list" where
  "doc_dirs opts =
     (if do_args opts = [] then [''cmd'', ''ingestor'', ''decoder'', ''sinks'', ''api'', ''bridge'', ''backfill'']
      else do_args opts)"

text \<open>A directory that does not exist is skipped.\<close>

fun collect_files :: "'n docgen_env \<Rightarrow> docgen_opts \<Rightarrow> string list \<Rightarrow> docgen_error + string list" where
  "collect_files env opts [] = Inr []"
| "collect_files env opts (dir # dirs) =
     (case dg_walk env dir of
        DirStatErr \<Rightarrow> Inl (StatFailed dir)
      | DirWalkErr \<Rightarrow> Inl (WalkFailed dir)
      | DirMissing \<Rightarrow> collect_files env opts dirs
      | DirEntries entries \<Rightarrow>
          (case collect_files env opts dirs of
             Inl err \<Rightarrow> Inl err
           | Inr files \<Rightarrow> Inr (map fst (filter (wanted opts) entries) @ files)))"

definition page_of :: "string \<Rightarrow> string" where
  "page_of rel = TrimSuffix rel ''.go'' @ ''.mdx''"

record docgen_state =
  dst_pages :: "(string, string) gomap"
  dst_updated :: nat
  dst_skipped :: nat

definition docgen_step :: "'n docgen_env \<Rightarrow> docgen_opts \<Rightarrow> docgen_state \<Rightarrow> string \<Rightarrow> docgen_state \<times> docgen_error option" where
  "docgen_step env opts s rel =
     (if \<not> do_overwrite opts \<and> map_get (dst_pages s) (page_of rel) \<noteq> None
      then (s\<lparr>dst_skipped := dst_skipped s + 1\<rparr>, None)
      else case renderGoFileDoc env rel of
        None \<Rightarrow> (s, Some (RenderFailed rel))
      | Some content \<Rightarrow>
          if \<not> dg_write env (page_of rel) then (s, Some (WriteFailed rel))
          else (s\<lparr>dst_pages := map_set (page_of rel) content (dst_pages s), dst_updated := dst_updated s + 1\<rparr>, None))"

definition docgen_main ::
  "'n docgen_env \<Rightarrow> docgen_opts \<Rightarrow> (string, string) gomap \<Rightarrow> docgen_state \<times> docgen_error option" where
  "docgen_main env opts pages =
     (let s = \<lparr>dst_pages = pages, dst_updated = 0, dst_skipped = 0\<rparr> in
      case collect_files env opts (doc_dirs opts) of
        Inl err \<Rightarrow> (s, Some err)
      | Inr goFiles \<Rightarrow> first_err (docgen_step env opts) s (sort goFiles))"

section \<open>Lemmas\<close>

text \<open>The names of a declaration: each once, in ascending order.\<close>

lemma fold_add_name: "distinct names \<Longrightarrow> distinct (fold add_name ns names) \<and> set (fold add_name ns names) = set ns \<union> set names"
  by (induction ns arbitrary: names) (auto simp: add_name_def)

fun declared :: "go_spec \<Rightarrow> string set" where
  "declared (TypeSpec name) = set_option name"
| "declared (ValueSpec ns) = set ns"
| "declared ImportSpec = {}"

lemma fold_spec_names:
  "distinct names \<Longrightarrow> distinct (fold spec_names specs names) \<and>
     set (fold spec_names specs names) = (\<Union>spec \<in> set specs. declared spec) \<union> set names"
proof (induction specs arbitrary: names)
  case (Cons spec specs)
  have "distinct (spec_names spec names) \<and> set (spec_names spec names) = declared spec \<union> set names"
    using Cons.prems fold_add_name by (auto simp: spec_names_def add_name_def split: go_spec.splits option.splits)
  with Cons.IH [of "spec_names spec names"] show ?case by auto
qed simp

lemma genDeclNames_spec:
  "sorted (genDeclNames d) \<and> distinct (genDeclNames d) \<and> set (genDeclNames d) = (\<Union>spec \<in> set (gg_specs d). declared spec)"
  using fold_spec_names [of "[]" "gg_specs d"] by (simp add: genDeclNames_def)

text \<open>A Go file has a page of its own.\<close>

lemma path_Ext_suffix:
  assumes "path_Ext path = ''.go''"
  shows "HasSuffix path ''.go''"
proof -
  let ?stop = "\<lambda>c. c \<noteq> CHR ''.'' \<and> c \<noteq> CHR ''/''"
  obtain rest where rest: "dropWhile ?stop (rev path) = CHR ''.'' # rest"
    and ext: "rev (takeWhile ?stop (rev path)) = ''go''"
    using assms by (cases "dropWhile ?stop (rev path)") (auto simp: path_Ext_def Let_def split: if_splits)
  have "rev path = takeWhile ?stop (rev path) @ CHR ''.'' # rest"
    using rest takeWhile_dropWhile_id [of ?stop "rev path"] by simp
  then have "path = rev (takeWhile ?stop (rev path) @ CHR ''.'' # rest)" by (metis rev_rev_ident)
  then have "path = rev rest @ ''.go''" by (simp add: ext)
  then show ?thesis by (metis HasSuffix_append)
qed

lemma page_of_inject:
  assumes "HasSuffix a ''.go''" and "HasSuffix b ''.go''" and "page_of a = page_of b"
  shows "a = b"
proof -
  obtain s t where "a = s @ ''.go''" "b = t @ ''.go''" using assms(1,2) by (auto simp: HasSuffix_iff)
  with assms(3) show ?thesis by (simp add: page_of_def TrimSuffix_def)
qed

lemma collect_files_wanted:
  "collect_files env opts dirs = Inr files \<Longrightarrow> rel \<in> set files \<Longrightarrow> wanted opts (rel, False)"
proof (induction dirs arbitrary: files)
  case (Cons dir dirs)
  then show ?case
    by (auto simp: wanted_def split: dir_walk.splits sum.splits prod.splits)
qed simp

definition pages_grow :: "string list \<Rightarrow> docgen_state \<Rightarrow> docgen_state \<Rightarrow> bool" where
  "pages_grow files s s' \<longleftrightarrow>
     (\<forall>k v. map_get (dst_pages s) k = Some v \<longrightarrow> map_get (dst_pages s') k = Some v) \<and>
     (\<forall>k. map_get (dst_pages s') k \<noteq> None \<longleftrightarrow> map_get (dst_pages s) k \<noteq> None \<or> k \<in> page_of ` set files) \<and>
     dst_updated s' + dst_skipped s' = dst_updated s + dst_skipped s + length files"

lemma docgen_step_grow:
  "\<not> do_overwrite opts \<Longrightarrow> docgen_step env opts s rel = (s', None) \<Longrightarrow> pages_grow [rel] s s'"
  by (auto simp: docgen_step_def pages_grow_def split: if_splits option.splits)

lemma docgen_loop_grow:
  assumes "\<not> do_overwrite opts"
  shows "first_err (docgen_step env opts) s files = (s', None) \<Longrightarrow> pages_grow files s s'"
proof (induction files arbitrary: s)
  case (Cons rel files)
  obtain s1 where "docgen_step env opts s rel = (s1, None)" "first_err (docgen_step env opts) s1 files = (s', None)"
    using Cons.prems by (auto split: prod.splits option.splits)
  with docgen_step_grow [OF assms] Cons.IH have "pages_grow [rel] s s1" "pages_grow files s1 s'" by blast+
  then show ?case unfolding pages_grow_def by auto
qed (simp add: pages_grow_def)

lemma docgen_loop_skips:
  assumes "\<not> do_overwrite opts" and "\<And>rel. rel \<in> set files \<Longrightarrow> map_get (dst_pages s) (page_of rel) \<noteq> None"
  shows "first_err (docgen_step env opts) s files = (s\<lparr>dst_skipped := dst_skipped s + length files\<rparr>, None)"
  using assms(2)
proof (induction files arbitrary: s)
  case (Cons rel files)
  then have "docgen_step env opts s rel = (s\<lparr>dst_skipped := dst_skipped s + 1\<rparr>, None)"
    using assms(1) by (simp add: docgen_step_def)
  then show ?case using Cons by simp
qed simp

section \<open>Properties\<close>

text \<open>
  (C39) The generator without \<open>-overwrite\<close>: a successful run leaves every existing page as it is, adds the
  missing pages of the Go files it found and no others, a page of its own for each file, and accounts
  for every file as generated or skipped; a second run writes nothing and skips every file.
\<close>

theorem docgen_idempotent:
  assumes "docgen_main env opts pages = (s, None)" and "\<not> do_overwrite opts"
  shows "\<exists>files. collect_files env opts (doc_dirs opts) = Inr files \<and>
    (\<forall>k v. map_get pages k = Some v \<longrightarrow> map_get (dst_pages s) k = Some v) \<and>
    (\<forall>k. map_get (dst_pages s) k \<noteq> None \<longleftrightarrow> map_get pages k \<noteq> None \<or> k \<in> page_of ` set files) \<and>
    inj_on page_of (set files) \<and> dst_updated s + dst_skipped s = length files \<and>
    docgen_main env opts (dst_pages s) = (\<lparr>dst_pages = dst_pages s, dst_updated = 0, dst_skipped = length files\<rparr>, None)"
proof -
  let ?s0 = "\<lambda>p. \<lparr>dst_pages = p, dst_updated = 0, dst_skipped = 0\<rparr>"
  obtain files where files: "collect_files env opts (doc_dirs opts) = Inr files"
    and run: "first_err (docgen_step env opts) (?s0 pages) (sort files) = (s, None)"
    using assms(1) by (auto simp: docgen_main_def Let_def split: sum.splits)
  have grow: "pages_grow (sort files) (?s0 pages) s" by (rule docgen_loop_grow [OF assms(2) run])
  have "inj_on page_of (set files)"
    using collect_files_wanted [OF files] by (auto simp: inj_on_def wanted_def dest!: path_Ext_suffix intro: page_of_inject)
  moreover have "docgen_main env opts (dst_pages s) = (\<lparr>dst_pages = dst_pages s, dst_updated = 0, dst_skipped = length files\<rparr>, None)"
    using docgen_loop_skips [OF assms(2), of "sort files" "?s0 (dst_pages s)" env] grow
    by (simp add: docgen_main_def files pages_grow_def Let_def)
  ultimately show ?thesis
    using files grow by (auto simp: pages_grow_def)
qed

text \<open>The property at a directory with two Go files, one of which has a page, and a test.\<close>

definition sample_docgen_env :: "unit docgen_env" where
  "sample_docgen_env = \<lparr>dg_walk = (\<lambda>dir. if dir = ''bridge'' then
       DirEntries [(''bridge'', True), (''bridge/b.go'', False), (''bridge/a.go'', False), (''bridge/a_test.go'', False)] else DirMissing),
     dg_read = (\<lambda>_. Some []), dg_parse = (\<lambda>_. Some \<lparr>gl_name = ''bridge'', gl_package = 1, gl_nameEnd = 1, gl_decls = []\<rparr>),
     dg_format = (\<lambda>_. []), dg_write = (\<lambda>_. True)\<rparr>"

theorem docgen_idempotent_witness:
  "let opts = \<lparr>do_includeTests = False, do_overwrite = False, do_args = []\<rparr> in
   \<exists>s. docgen_main sample_docgen_env opts [(''bridge/a.mdx'', ''done'')] = (s, None) \<and>
     map_get (dst_pages s) ''bridge/a.mdx'' = Some ''done'' \<and> dst_updated s + dst_skipped s = 2"
proof -
  let ?opts = "\<lparr>do_includeTests = False, do_overwrite = False, do_args = []\<rparr>"
  have files: "collect_files sample_docgen_env ?opts (doc_dirs ?opts) = Inr [''bridge/b.go'', ''bridge/a.go'']"
    by (simp add: sample_docgen_env_def doc_dirs_def wanted_def path_Ext_def HasSuffix_def)
  have ok: "renderGoFileDoc sample_docgen_env rel \<noteq> None \<and> dg_write sample_docgen_env (page_of rel)" for rel
    by (simp add: renderGoFileDoc_def sample_docgen_env_def)
  have step: "snd (docgen_step sample_docgen_env ?opts s rel) = None" for s rel
    using ok [of rel] by (auto simp: docgen_step_def split: option.splits)
  have "snd (first_err (docgen_step sample_docgen_env ?opts) s rels) = None" for s rels
  proof (induction rels arbitrary: s)
    case (Cons rel rels)
    then show ?case using step [of s rel] by (cases "docgen_step sample_docgen_env ?opts s rel") simp
  qed simp
  then have "snd (docgen_main sample_docgen_env ?opts [(''bridge/a.mdx'', ''done'')]) = None"
    by (simp only: docgen_main_def files Let_def sum.case)
  then obtain s where run: "docgen_main sample_docgen_env ?opts [(''bridge/a.mdx'', ''done'')] = (s, None)"
    by (metis prod.collapse)
  have old: "map_get [(''bridge/a.mdx'', ''done'')] ''bridge/a.mdx'' = Some ''done''" by (simp add: map_get_def)
  from docgen_idempotent [OF run] obtain fs where fs: "collect_files sample_docgen_env ?opts (doc_dirs ?opts) = Inr fs"
    and keep: "\<forall>k v. map_get [(''bridge/a.mdx'', ''done'')] k = Some v \<longrightarrow> map_get (dst_pages s) k = Some v"
    and count: "dst_updated s + dst_skipped s = length fs"
    by auto
  have "length fs = 2" using fs unfolding files by auto
  with run keep old count show ?thesis unfolding Let_def by (intro exI [of _ s]) simp
qed

end
