(* ===== verification/Spec2Isabelle.thy ===== *)
theory Spec2Isabelle
  imports Orchestrator Helius Api Pipeline ProcState Mains DocGen
begin

text \<open>
  A verification development for LP indexer, a Go system that turns the transactions of Solana
  exchanges into a stream of swap events and candles and stores them.

  \<^bold>\<open>The program.\<close> A stream client (\<open>ingestor/geyser/client.go\<close>, with the Helius fallback
  \<open>ingestor/helius/stream_client.go\<close>) subscribes to a Yellowstone gRPC server and hands its updates to
  the processor (\<open>ingestor/geyser/processor.go\<close>), which owns the swap decoder
  (\<open>ingestor/decoder/decoder.go\<close>): account updates fill the decoder's caches of pools and fees, block
  updates its slot clock, and transactions are decoded into swap events by the three exchange decoders
  (\<open>decoder/raydium\<close>, \<open>decoder/orca_whirlpool\<close>, \<open>decoder/meteora\<close>). The processor publishes provisional
  swaps through the JetStream publisher (\<open>sinks/nats/publisher.go\<close>), remembers them per slot, and
  publishes them again as final or undone when the slot is finalized or dies. Downstream, the subject
  bridge (\<open>bridge/\<close>) mirrors the stream under other subjects, the ClickHouse sink
  (\<open>sinks/clickhouse\<close>) stores trades, the Parquet sink (\<open>sinks/parquet\<close>) and the candle bridge
  (\<open>cmd/candles\<close>) store candles, the HTTP API (\<open>api/http\<close>) serves candles through a Redis cache, the
  backfill orchestrator (\<open>backfill/orchestrator\<close>) distributes slot ranges over workers, and two tools
  inspect Parquet files (\<open>cmd/tools/parquetinspect\<close>) and replay fixtures (\<open>cmd/tools/sinkreplay\<close>).

  \<^bold>\<open>Conventions.\<close> Go structs are records, tagged unions datatypes, \<open>uint64\<close> and the other fixed-width
  integers words (a signed integer is the same word read with \<open>sint\<close>), strings character lists, byte
  slices lists of bytes, and Go maps association lists with distinct keys (\<open>gomap\<close>). A \<open>range\<close> loop over a
  map takes its visiting order as an argument, chosen anew for every update. A nil pointer is \<open>None\<close>. Methods that change state return
  the new state; errors are values of a datatype per package. Concurrency is explicit: the orchestrator
  is a step relation over its goroutines, the HTTP API a run over requests and background writes, the
  subject bridge a schedule of its consumers, and a client, a sink or a bridge is a run over a script of
  what the servers, the clock and the context do at each turn; a script that ends is a loop that is still running, so no fuel bounds any of them. The two
  loops whose end depends on 64-bit arithmetic are the producer loop, a \<open>function\<close> with a
  termination proof, and \<open>GetRange\<close> of the slot cache, a \<open>partial_function (option)\<close> about which it
  is proved when it returns and when it does not.

  \<^bold>\<open>Parameters.\<close> Code outside the repository is an argument: base58 and protobuf coding, the JetStream
  servers and their answers, \<open>ch.Client.Do\<close> and the ClickHouse decimal type, the Parquet encoder and the
  S3 uploader, Redis and the JSON codec, \<open>float64\<close> and \<open>big.Float\<close> arithmetic, \<open>url.Parse\<close>, YAML
  parsing, Prometheus, the file system, the Go parser and its printer. What the proofs need of them is
  a named hypothesis (\<open>redis_law\<close>, \<open>json_law\<close>, \<open>codec_law\<close>, \<open>pq_env_ok\<close>, \<open>sorts_by\<close>, \<open>prom_law\<close>,
  \<open>fq_law\<close>, \<open>duplicate_window_law\<close>), with a witness that instantiates it. \<open>redis_law\<close> says what one call does;
  what other clients of Redis write are events of the run. \<open>duplicate_window_law\<close> is JetStream's finite
  duplicate window: a message whose id was stored within it is acknowledged and not stored.

  \<^bold>\<open>Theories.\<close>
  \<^item> \<open>Prelude\<close> and \<open>GoStd\<close>: integers, Go maps (locale \<open>go_map\<close>), the error-stopping loop \<open>first_err\<close> with its
    lemmas, and the parts of \<open>strconv\<close>, \<open>strings\<close>, \<open>fmt\<close> and \<open>encoding/binary\<close> the sources use.
  \<^item> \<open>Dex\<close>: the protobuf and Yellowstone messages.
  \<^item> \<open>SlotCache\<close>: \<open>ingestor/common/slot_cache.go\<close>. \<open>Pools\<close>: \<open>ingestor/internal/pools\<close>.
    \<open>Pair\<close>, \<open>FixedPoint\<close>: \<open>decoder/common\<close>. \<open>Raydium\<close>, \<open>Orca\<close>, \<open>Meteora\<close>: the exchange decoders.
    \<open>SwapDecoder\<close>: \<open>ingestor/decoder/decoder.go\<close> and \<open>ingestor/common/txmeta.go\<close>. They show that decoding
    inverts the byte layouts, that events report exactly what the token balances moved, which
    identity every event carries, for which transactions the visiting order of maps does not matter,
    and that a Raydium swap carries the current fee of its pool in
    every reachable decoder state.
  \<^item> \<open>Publisher\<close>: \<open>sinks/nats\<close>, with the interface \<open>SwapPublisher\<close> as the locale \<open>swap_publisher\<close>.
    \<open>Processor\<close>: \<open>ingestor/geyser/processor.go\<close>; an inductive machine of the life cycle of swaps is its
    specification, every handler is shown to refine it inside \<open>swap_publisher\<close>, and the
    interpretation on the JetStream publisher gives the properties.
  \<^item> \<open>Geyser\<close>: configuration, the clients, the services and the failover loop. \<open>Helius\<close>:
    \<open>ingestor/helius/client.go\<close>, compared with the processor through the locale \<open>accepting_publisher\<close>.
  \<^item> \<open>Orchestrator\<close>: \<open>backfill/orchestrator\<close>; the producer loop, the run as a step relation, an invariant by
    rule induction and a measure.
  \<^item> \<open>Bridge\<close>: \<open>bridge\<close>; subject rules, forwarding, the consume loop. \<open>BridgeRun\<close>: \<open>Run\<close> with its consumers
    as interleaved steps on one target, shown to contain \<open>consumeLoop\<close>.
  \<^item> \<open>ClickHouse\<close>: \<open>sinks/clickhouse/config.go\<close> and \<open>writer.go\<close>, with the locale \<open>column_batch\<close> for the two
    batches. \<open>SinkLoop\<close>: the pull loop both sinks share, as the locale \<open>sink_loop\<close>. \<open>ChService\<close>:
    \<open>sinks/clickhouse/service.go\<close> over the interface \<open>trade_writer\<close>. \<open>Parquet\<close>: \<open>sinks/parquet\<close> and
    \<open>cmd/tools/parquetinspect\<close>. \<open>Candles\<close>: \<open>cmd/candles/main.go\<close> over both writers. They show that rows
    are neither lost nor invented between a message and its table, object or batch, and what an
    acknowledgement does and does not promise.
  \<^item> \<open>Api\<close>: \<open>api/http\<close>. \<open>SinkReplay\<close>: \<open>cmd/tools/sinkreplay\<close>, compared with the publisher.
  \<^item> \<open>Pipeline\<close>: processor, publisher and ClickHouse sink composed; what the processor gets accepted is
    what the trades table holds, for an encoder that the sink can decode (\<open>codec_law\<close>) and a stream
    that stores any of what it accepts.
  \<^item> \<open>ProcState\<close>: the state of the processor and its decoder is well typed after every stream of updates.
  \<^item> \<open>Metrics\<close>: \<open>observability/metrics.go\<close> and the registration of collectors; when wiring cannot panic, and
    which names the bridge exposes.
  \<^item> \<open>Lifecycle\<close>: how publisher, sinks, ingest services and bridge are built and shut down, as a ledger of
    connections and servers; what is held after every start-up, failed or not, what a run of an ingest
    service leaves open, and what the goroutines of the bridge do after its \<open>Run\<close> has returned.
  \<^item> \<open>Mains\<close>: the \<open>main\<close> functions of \<open>cmd/\<close> over these constructors; which clients the ingestor runs, when the
    candle bridge starts, and what the inspection tool reports.
  \<^item> \<open>DocGen\<close>: \<open>scripts/docs/generate_go_code_reference.go\<close>; a run without \<open>-overwrite\<close> is idempotent.

  \<^bold>\<open>What is not modelled.\<close> The demonstration program \<open>cmd/ingestor/geyser-demo\<close> and the \<open>main\<close> of the HTTP
  API only print, or wire a router to a listener. Signal handling is the cancelling of a context;
  logging, the printing of summaries, the text of usage messages and the TLS and key options of a gRPC
  connection have no effect on the state. Gauges and counters are modelled where a handler changes
  them, except the lag gauge of the bridge, whose value is a reading of the wall clock. The generated
  protobuf code is a parameter. Floating-point results are described by the operations applied, not by
  their rounding.
\<close>

end
